(* ===== verification/Prelude.thy ===== *)
theory Prelude
  imports Main "HOL-Library.AList" "HOL-Library.Sublist"
begin

text \<open>
  Shared vocabulary of the development: Go's error returns as a sum type, Go's maps as
  association lists with distinct keys (the order of the list is the order in which a
  \<open>range\<close> loop happens to visit the map), the named collections of simplification
  rules, and the generic list facts the components use.
\<close>

section \<open>Named collections\<close>

named_theorems go_defs "definitions of the small operations of the model"
named_theorems amap_simps "lookup laws of association lists used as Go maps"

section \<open>Error returns\<close>

text \<open>
  A Go function with results \<open>(T, error)\<close> returns \<open>Inl\<close> of the error's text or
  \<open>Inr\<close> of the value. The text is the one \<open>err.Error()\<close> gives.
\<close>

type_synonym 'a result = "string + 'a"

definition wrap_err :: "string \<Rightarrow> 'a result \<Rightarrow> 'a result" where
  [go_defs]: "wrap_err pre r = (case r of Inl e \<Rightarrow> Inl (pre @ e) | Inr v \<Rightarrow> Inr v)"

lemma wrap_err_simps [simp]:
  "wrap_err p (Inl e) = Inl (p @ e)" "wrap_err p (Inr v) = Inr v"
  by (simp_all add: wrap_err_def)

lemma wrap_err_Inr_iff [simp]: "wrap_err p r = Inr v \<longleftrightarrow> r = Inr v"
  by (cases r) auto

section \<open>Go maps\<close>

text \<open>
  \<open>m[k] = v\<close> is \<open>AList.update k v m\<close>, \<open>delete(m, k)\<close> is \<open>AList.delete k m\<close>,
  \<open>v, ok := m[k]\<close> is \<open>map_of m k\<close>, \<open>len(m)\<close> is the length of the list.
  \<open>amap_ok\<close> is the representation invariant: every key once.
\<close>

type_synonym ('k, 'v) amap = "('k \<times> 'v) list"

definition amap_ok :: "('k, 'v) amap \<Rightarrow> bool" where
  "amap_ok m \<longleftrightarrow> distinct (map fst m)"

definition amap_has :: "('k, 'v) amap \<Rightarrow> 'k \<Rightarrow> bool" where
  "amap_has m k \<longleftrightarrow> map_of m k \<noteq> None"

definition amap_keys :: "('k, 'v) amap \<Rightarrow> 'k list" where
  "amap_keys m = map fst m"

definition amap_vals :: "('k, 'v) amap \<Rightarrow> 'v list" where
  "amap_vals m = map snd m"

lemma amap_ok_Nil [simp]: "amap_ok []"
  by (simp add: amap_ok_def)

lemma amap_ok_update [simp, intro]: "amap_ok m \<Longrightarrow> amap_ok (AList.update k v m)"
  by (simp add: amap_ok_def distinct_update)

lemma amap_ok_delete [simp, intro]: "amap_ok m \<Longrightarrow> amap_ok (AList.delete k m)"
  by (simp add: amap_ok_def distinct_delete)

lemma amap_update_lookup [simp, amap_simps]:
  "map_of (AList.update k v m) j = (if j = k then Some v else map_of m j)"
  by (simp add: update_conv')

lemma amap_delete_lookup [simp, amap_simps]:
  "map_of (AList.delete k m) j = (if j = k then None else map_of m j)"
  by (simp add: delete_conv')

lemma amap_in_iff: "amap_ok m \<Longrightarrow> (k, v) \<in> set m \<longleftrightarrow> map_of m k = Some v"
  by (auto simp: amap_ok_def dest: map_of_SomeD)

lemma amap_has_iff: "amap_has m k \<longleftrightarrow> k \<in> fst ` set m"
  by (auto simp: amap_has_def map_of_eq_None_iff)

lemma amap_map_of_None: "map_of m k = None \<longleftrightarrow> k \<notin> fst ` set m"
  by (rule map_of_eq_None_iff)

text \<open>Updating every value in place, as a loop over a map of pointers does.\<close>

definition amap_map :: "('k \<Rightarrow> 'v \<Rightarrow> 'w) \<Rightarrow> ('k, 'v) amap \<Rightarrow> ('k, 'w) amap" where
  "amap_map f m = map (\<lambda>(k, v). (k, f k v)) m"

lemma amap_map_lookup [simp, amap_simps]:
  "map_of (amap_map f m) k = map_option (f k) (map_of m k)"
  by (induction m) (auto simp: amap_map_def)

lemma amap_map_keys [simp]: "map fst (amap_map f m) = map fst m"
  by (induction m) (auto simp: amap_map_def)

lemma amap_ok_map [simp]: "amap_ok (amap_map f m) = amap_ok m"
  by (simp add: amap_ok_def)

section \<open>Lists\<close>

text \<open>The index of the first element that satisfies a predicate, as a search loop finds it.\<close>

fun find_index_from :: "nat \<Rightarrow> ('a \<Rightarrow> bool) \<Rightarrow> 'a list \<Rightarrow> nat option" where
  "find_index_from i P [] = None"
| "find_index_from i P (x # xs) = (if P x then Some i else find_index_from (Suc i) P xs)"

definition find_index :: "('a \<Rightarrow> bool) \<Rightarrow> 'a list \<Rightarrow> nat option" where
  "find_index P xs = find_index_from 0 P xs"

lemma find_index_from_Some:
  "find_index_from i P xs = Some j \<Longrightarrow>
     i \<le> j \<and> j - i < length xs \<and> P (xs ! (j - i)) \<and> (\<forall>k < j - i. \<not> P (xs ! k))"
proof (induction xs arbitrary: i)
  case Nil
  then show ?case by simp
next
  case (Cons x xs)
  show ?case
  proof (cases "P x")
    case True
    with Cons.prems show ?thesis by simp
  next
    case False
    with Cons.prems have "find_index_from (Suc i) P xs = Some j" by simp
    from Cons.IH [OF this] have *: "Suc i \<le> j" "j - Suc i < length xs" "P (xs ! (j - Suc i))"
      "\<forall>k < j - Suc i. \<not> P (xs ! k)" by auto
    then have d: "j - i = Suc (j - Suc i)" by simp
    show ?thesis
      using * False unfolding d by (auto simp: nth_Cons split: nat.splits)
  qed
qed

lemma find_index_from_None: "find_index_from i P xs = None \<longleftrightarrow> (\<forall>x \<in> set xs. \<not> P x)"
  by (induction xs arbitrary: i) auto

lemma find_index_Some:
  "find_index P xs = Some j \<Longrightarrow> j < length xs \<and> P (xs ! j) \<and> (\<forall>k < j. \<not> P (xs ! k))"
  using find_index_from_Some [of 0 P xs j] by (simp add: find_index_def)

lemma find_index_None: "find_index P xs = None \<longleftrightarrow> (\<forall>x \<in> set xs. \<not> P x)"
  by (simp add: find_index_def find_index_from_None)

lemma find_Some_set: "find P xs = Some x \<Longrightarrow> x \<in> set xs \<and> P x"
  by (auto simp: find_Some_iff)

section \<open>Fixed-width conversions\<close>

text \<open>\<open>int32(n)\<close> of a Go \<open>int\<close>: the low 32 bits, read as two's complement.\<close>

definition int32 :: "int \<Rightarrow> int" where
  "int32 n = (n + 2 ^ 31) mod 2 ^ 32 - 2 ^ 31"

lemma int32_id: "- (2 ^ 31) \<le> n \<Longrightarrow> n < 2 ^ 31 \<Longrightarrow> int32 n = n"
  by (simp add: int32_def)

lemma int32_range: "- (2 ^ 31) \<le> int32 n \<and> int32 n < 2 ^ 31"
proof -
  have "0 \<le> (n + 2 ^ 31) mod 2 ^ 32" "(n + 2 ^ 31) mod 2 ^ 32 < 2 ^ 32" by simp_all
  then show ?thesis by (simp add: int32_def)
qed

end
