(* ===== verification/Go_Values.thy ===== *)
theory Go_Values
  imports Go_Paths
begin

text \<open>
  Values of Go type \<open>any\<close> as YAML decoding and the configuration produce them, with the
  type assertions the sources make and the \<open>%v\<close> formatting. A \<open>float64\<close> is the dyadic
  number \<open>m * 2 ^ e\<close> it denotes. Times are Unix seconds.
\<close>

datatype gval =
    VNil
  | VStr string
  | VBool bool
  | VInt int
  | VFloat int int
  | VDur int
  | VList "gval list"
  | VMap "(string \<times> gval) list"

type_synonym gmap = "(string, gval) amap"

fun as_string :: "gval \<Rightarrow> string option" where
  "as_string (VStr s) = Some s"
| "as_string _ = None"

fun as_map :: "gval \<Rightarrow> gmap option" where
  "as_map (VMap m) = Some m"
| "as_map _ = None"

lemma as_string_Some [simp]: "as_string v = Some s \<longleftrightarrow> v = VStr s"
  by (cases v) auto

lemma as_map_Some [simp]: "as_map v = Some m \<longleftrightarrow> v = VMap m"
  by (cases v) auto

text \<open>Truncation of a finite \<open>float64\<close> towards zero, as the conversion \<open>int(f)\<close> does.\<close>

definition float_trunc :: "int \<Rightarrow> int \<Rightarrow> int" where
  "float_trunc m e =
     (if 0 \<le> e then m * 2 ^ nat e else sgn m * (\<bar>m\<bar> div 2 ^ nat (- e)))"

definition float_is_int :: "int \<Rightarrow> int \<Rightarrow> bool" where
  "float_is_int m e \<longleftrightarrow> 0 \<le> e \<or> m mod 2 ^ nat (- e) = 0"

text \<open>
  \<open>fmt.Sprintf("%v", v)\<close>. The shortest decimal of a non-integral \<open>float64\<close> and of a
  duration is not computed: those two formats are the arguments \<open>ff\<close> and \<open>fd\<close>.
  \<open>fmt\<close> prints a map in the order of its keys.
\<close>

record fmt_env =
  fmt_float :: "int \<Rightarrow> int \<Rightarrow> string"
  fmt_dur :: "int \<Rightarrow> string"

fun ins_key :: "string \<times> string \<Rightarrow> (string \<times> string) list \<Rightarrow> (string \<times> string) list" where
  "ins_key p [] = [p]"
| "ins_key p (q # qs) = (if fst p \<le> fst q then p # q # qs else q # ins_key p qs)"

definition sort_keys :: "(string \<times> string) list \<Rightarrow> (string \<times> string) list" where
  "sort_keys xs = foldr ins_key xs []"

fun fmt_v :: "fmt_env \<Rightarrow> gval \<Rightarrow> string" where
  "fmt_v fe VNil = ''<nil>''"
| "fmt_v fe (VStr s) = s"
| "fmt_v fe (VBool b) = (if b then ''true'' else ''false'')"
| "fmt_v fe (VInt i) = itoa i"
| "fmt_v fe (VFloat m e) = fmt_float fe m e"
| "fmt_v fe (VDur d) = fmt_dur fe d"
| "fmt_v fe (VList vs) = ''['' @ str_join '' '' (map (fmt_v fe) vs) @ '']''"
| "fmt_v fe (VMap kvs) =
     ''map['' @ str_join '' ''
        (map (\<lambda>(k, s). k @ '':'' @ s) (sort_keys (map (\<lambda>(k, v). (k, fmt_v fe v)) kvs))) @ '']''"

text \<open>Equality of values up to the order in which maps list their keys.\<close>

definition gmap_eq :: "gmap \<Rightarrow> gmap \<Rightarrow> bool" where
  "gmap_eq m n \<longleftrightarrow> map_of m = map_of n"

end
