(* ===== verification/Overlay.thy ===== *)
theory Overlay
  imports Go_Values
begin

text \<open>
  \<open>pkg/config/overlay.go\<close>: layers of dynamic maps overlaid from least to most specific.
  Nested maps are merged key by key, every other value is replaced by the later layer.
\<close>

section \<open>OverlayMaps\<close>

text \<open>
  One iteration of the outer loop adds a layer to the accumulated result. Where both the
  result and the layer hold a nested map under a key, the source calls
  \<open>OverlayMaps(existing, layer)\<close>; its first round copies \<open>existing\<close> into an empty map,
  so the call continues the same loop from \<open>existing\<close> (\<open>overlay_two\<close> below states that the
  two agree).
\<close>

fun overlay_layer :: "gmap \<Rightarrow> gmap \<Rightarrow> gmap"
  and overlay_value :: "gval option \<Rightarrow> gval \<Rightarrow> gval" where
  "overlay_layer res [] = res"
| "overlay_layer res ((k, v) # kvs) =
     overlay_layer (AList.update k (overlay_value (map_of res k) v) res) kvs"
| "overlay_value (Some (VMap em)) (VMap lm) = VMap (overlay_layer em lm)"
| "overlay_value _ v = v"

definition overlay_maps :: "gmap option list \<Rightarrow> gmap option" where
  "overlay_maps layers =
     (if layers = [] then None
      else Some (foldl (\<lambda>res l. case l of None \<Rightarrow> res | Some m \<Rightarrow> overlay_layer res m) [] layers))"

text \<open>Lookup in an overlay: absent from the layer, the old value; present, the merged one.\<close>

lemma overlay_layer_lookup:
  "amap_ok l \<Longrightarrow> map_of (overlay_layer res l) k =
     (case map_of l k of None \<Rightarrow> map_of res k | Some v \<Rightarrow> Some (overlay_value (map_of res k) v))"
proof (induction l arbitrary: res)
  case Nil
  then show ?case by simp
next
  case (Cons kv l)
  obtain k' v where kv: "kv = (k', v)" by (cases kv)
  from Cons.prems kv have ok: "amap_ok l" and fresh: "map_of l k' = None"
    by (auto simp: amap_ok_def map_of_eq_None_iff)
  show ?case
    using Cons.IH [OF ok] fresh kv by (auto split: option.splits)
qed

lemma overlay_layer_ok [simp, intro]: "amap_ok res \<Longrightarrow> amap_ok (overlay_layer res l)"
proof (induction l arbitrary: res)
  case (Cons kv l)
  then show ?case by (cases kv) simp
qed simp

lemma overlay_value_simps [simp]:
  "overlay_value None v = v"
  "overlay_value x (VStr s) = VStr s" "overlay_value x (VInt i) = VInt i"
  "overlay_value x (VBool b) = VBool b" "overlay_value x (VList vs) = VList vs"
  "overlay_value x VNil = VNil" "overlay_value x (VFloat m e) = VFloat m e"
  "overlay_value x (VDur d) = VDur d"
  by (auto elim: overlay_value.elims)

lemma overlay_value_not_map: "as_map v = None \<Longrightarrow> overlay_value x v = v"
  by (cases v) auto

lemma overlay_layer_dom:
  "amap_ok l \<Longrightarrow> fst ` set (overlay_layer res l) = fst ` set res \<union> fst ` set l"
proof -
  assume ok: "amap_ok l"
  have "k \<in> fst ` set (overlay_layer res l) \<longleftrightarrow> k \<in> fst ` set res \<union> fst ` set l" for k
    using overlay_layer_lookup [OF ok, of res k] map_of_eq_None_iff [of res k]
      map_of_eq_None_iff [of l k] map_of_eq_None_iff [of "overlay_layer res l" k]
    by (auto split: option.splits)
  then show ?thesis by blast
qed

text \<open>Copying into an empty map changes nothing.\<close>

lemma overlay_layer_Nil_aux:
  "amap_ok (res @ l) \<Longrightarrow> overlay_layer res l = res @ l"
proof (induction l arbitrary: res)
  case Nil
  then show ?case by simp
next
  case (Cons kv l)
  obtain k v where kv: "kv = (k, v)" by (cases kv)
  from Cons.prems kv have fresh: "k \<notin> fst ` set res" by (auto simp: amap_ok_def)
  then have none: "map_of res k = None" by (simp add: map_of_eq_None_iff)
  have upd: "AList.update k v res = res @ [(k, v)]"
    using fresh by (induction res) auto
  from Cons.prems kv have "amap_ok ((res @ [(k, v)]) @ l)" by simp
  from Cons.IH [OF this] show ?case by (simp add: kv none upd)
qed

lemma overlay_layer_empty [simp]: "amap_ok l \<Longrightarrow> overlay_layer [] l = l"
  using overlay_layer_Nil_aux [of "[]" l] by simp

lemma overlay_two:
  "amap_ok a \<Longrightarrow> overlay_maps [Some a, Some b] = Some (overlay_layer a b)"
  by (simp add: overlay_maps_def)

lemma overlay_maps_snoc:
  "overlay_maps (ls @ [Some m]) =
     Some (overlay_layer (case overlay_maps ls of None \<Rightarrow> [] | Some r \<Rightarrow> r) m)"
  by (auto simp: overlay_maps_def)

lemma overlay_maps_ok: "overlay_maps ls = Some m \<Longrightarrow> amap_ok m"
proof -
  have "amap_ok (foldl (\<lambda>res l. case l of None \<Rightarrow> res | Some m \<Rightarrow> overlay_layer res m) r ls)"
    if "amap_ok r" for r
    using that by (induction ls arbitrary: r) (auto split: option.splits)
  then show "overlay_maps ls = Some m \<Longrightarrow> amap_ok m"
    by (auto simp: overlay_maps_def split: if_splits)
qed

text \<open>
  The precedence rule for a key whose values are not maps: the last layer that has the key
  decides, whatever came before it.
\<close>

fun last_defined :: "gmap option list \<Rightarrow> string \<Rightarrow> gval option" where
  "last_defined [] k = None"
| "last_defined (l # ls) k =
     (case last_defined ls k of
        Some v \<Rightarrow> Some v
      | None \<Rightarrow> (case l of None \<Rightarrow> None | Some m \<Rightarrow> map_of m k))"

lemma last_defined_append:
  "last_defined (xs @ ys) k =
     (case last_defined ys k of Some v \<Rightarrow> Some v | None \<Rightarrow> last_defined xs k)"
  by (induction xs) (auto split: option.splits)

definition layers_ok :: "gmap option list \<Rightarrow> bool" where
  "layers_ok ls \<longleftrightarrow> (\<forall>l \<in> set ls. case l of None \<Rightarrow> True | Some m \<Rightarrow> amap_ok m)"

lemma overlay_maps_lookup_plain:
  assumes "layers_ok ls"
    and "\<And>m. Some m \<in> set ls \<Longrightarrow> (case map_of m k of None \<Rightarrow> True | Some v \<Rightarrow> as_map v = None)"
  shows "(case overlay_maps ls of None \<Rightarrow> None | Some r \<Rightarrow> map_of r k) = last_defined ls k"
  using assms
proof (induction ls rule: rev_induct)
  case Nil
  then show ?case by (simp add: overlay_maps_def)
next
  case (snoc l ls)
  from snoc.prems have pre: "layers_ok ls"
    "\<And>m. Some m \<in> set ls \<Longrightarrow> (case map_of m k of None \<Rightarrow> True | Some v \<Rightarrow> as_map v = None)"
    by (auto simp: layers_ok_def)
  note IH = snoc.IH [OF pre]
  show ?case
  proof (cases l)
    case None
    have "overlay_maps (ls @ [None]) =
        Some (case overlay_maps ls of None \<Rightarrow> [] | Some r \<Rightarrow> r)"
      by (auto simp: overlay_maps_def)
    with None IH show ?thesis by (auto simp: last_defined_append split: option.splits)
  next
    case (Some m)
    with snoc.prems have ok: "amap_ok m" by (auto simp: layers_ok_def)
    from Some snoc.prems(2) [of m]
    have plain: "case map_of m k of None \<Rightarrow> True | Some v \<Rightarrow> as_map v = None" by simp
    show ?thesis
      using IH plain Some
      by (auto simp: overlay_maps_snoc overlay_layer_lookup [OF ok] last_defined_append
            overlay_value_not_map split: option.splits)
  qed
qed

end
