(* ===== verification/Layered_Store.thy ===== *)
theory Layered_Store
  imports Overlay
begin

text \<open>
  The contract that the two stores of \<open>pkg/config\<close> share, and that their callers (the
  trigger settings chain, the daemon configuration) rely on: named layers in a fixed order,
  each set or unset, and an effective value that is a function of the set layers alone,
  whatever the cache holds.
\<close>

locale layered_store =
  fixes names :: "'s \<Rightarrow> string list"
    and layer :: "'s \<Rightarrow> string \<Rightarrow> 'v option"
    and put :: "'s \<Rightarrow> string \<Rightarrow> 'v \<Rightarrow> 's result"
    and drop_layer :: "'s \<Rightarrow> string \<Rightarrow> 's"
    and eff :: "'s \<Rightarrow> 'w \<times> 's"
    and combine :: "'v list \<Rightarrow> 'w"
    and ok :: "'s \<Rightarrow> bool"
    and vok :: "'v \<Rightarrow> bool"
  assumes put_known: "n \<in> set (names s) \<Longrightarrow> \<exists>s'. put s n v = Inr s'"
    and put_unknown: "n \<notin> set (names s) \<Longrightarrow> \<exists>e. put s n v = Inl e"
    and put_layer: "put s n v = Inr s' \<Longrightarrow> layer s' = (layer s)(n := Some v)"
    and put_names: "put s n v = Inr s' \<Longrightarrow> names s' = names s"
    and put_ok: "ok s \<Longrightarrow> vok v \<Longrightarrow> put s n v = Inr s' \<Longrightarrow> ok s'"
    and drop_layer: "layer (drop_layer s n) = (layer s)(n := None)"
    and drop_names: "names (drop_layer s n) = names s"
    and drop_ok: "ok s \<Longrightarrow> ok (drop_layer s n)"
    and eff_value: "ok s \<Longrightarrow> fst (eff s) = combine (List.map_filter (layer s) (names s))"
    and eff_layer: "layer (snd (eff s)) = layer s"
    and eff_names: "names (snd (eff s)) = names s"
    and eff_ok: "ok s \<Longrightarrow> ok (snd (eff s))"
begin

lemma eff_cache_transparent: "ok s \<Longrightarrow> fst (eff (snd (eff s))) = fst (eff s)"
  by (simp add: eff_value eff_layer eff_names eff_ok)

lemma eff_depends_on_layers:
  assumes "ok s" "ok t" "names s = names t" "\<And>n. n \<in> set (names s) \<Longrightarrow> layer s n = layer t n"
  shows "fst (eff s) = fst (eff t)"
proof -
  have "List.map_filter (layer s) (names s) = List.map_filter (layer t) (names s)"
    using assms(4) by (induction "names s") (auto simp: List.map_filter_def intro!: filter_cong map_cong)
  with assms(1-3) show ?thesis by (simp add: eff_value)
qed

lemma put_get: "put s n v = Inr s' \<Longrightarrow> layer s' n = Some v"
  by (simp add: put_layer)

lemma put_other: "put s n v = Inr s' \<Longrightarrow> m \<noteq> n \<Longrightarrow> layer s' m = layer s m"
  by (simp add: put_layer)

lemma put_drop_eff:
  assumes "ok s" "vok v" "layer s n = None" "put s n v = Inr s'"
  shows "fst (eff (drop_layer s' n)) = fst (eff s)"
proof (rule eff_depends_on_layers)
  show "ok (drop_layer s' n)" using assms by (blast intro: drop_ok put_ok)
  show "names (drop_layer s' n) = names s" using assms by (simp add: drop_names put_names)
  show "layer (drop_layer s' n) m = layer s m" for m
    using assms by (simp add: drop_layer put_layer)
qed (rule assms)

lemma put_put_eff:
  assumes "ok s" "vok v" "vok w" "put s n v = Inr s1" "put s1 n w = Inr s2" "put s n w = Inr s3"
  shows "fst (eff s2) = fst (eff s3)"
proof (rule eff_depends_on_layers)
  show "ok s2" using assms by (blast intro: put_ok)
  show "ok s3" using assms by (blast intro: put_ok)
  show "names s2 = names s3" using assms by (simp add: put_names)
  show "layer s2 m = layer s3 m" for m
    using assms by (simp add: put_layer)
qed

end

end
