(* ===== verification/Config_Store.thy ===== *)
theory Config_Store
  imports Layered_Store
begin

text \<open>
  \<open>pkg/config/store.go\<close> and the struct half of \<open>overlay.go\<close>: the generic
  \<open>Store[T]\<close>, whose code reads and writes the fields of \<open>T\<close> by reflection. A struct value is
  the list of its fields in declaration order; a field carries its Go type, so that the
  assignability check of \<open>SetField\<close> is a comparison of types.
\<close>

datatype fval =
    FPtr string "gval option"
  | FMap string "gmap option"
  | FSlice string "gval list option"
  | FScalar string gval
  | FStruct string "(string \<times> fval) list"

type_synonym strct = "(string \<times> fval) list"

fun field_type :: "fval \<Rightarrow> string" where
  "field_type (FPtr t _) = CHR ''*'' # t"
| "field_type (FMap t _) = t"
| "field_type (FSlice t _) = t"
| "field_type (FScalar t _) = t"
| "field_type (FStruct t _) = t"

section \<open>Defined fields and the overlay of structs\<close>

text \<open>
  \<open>isDefined\<close>: pointers, maps and slices when they are not nil, nested structs when some
  field is, scalars always.
\<close>

fun is_defined :: "fval \<Rightarrow> bool" where
  "is_defined (FPtr _ v) = (v \<noteq> None)"
| "is_defined (FMap _ v) = (v \<noteq> None)"
| "is_defined (FSlice _ v) = (v \<noteq> None)"
| "is_defined (FStruct _ fs) = list_ex (\<lambda>(n, v). is_defined v) fs"
| "is_defined (FScalar _ _) = True"

text \<open>A field can be set when its name is exported: it begins with a capital letter.\<close>

definition exported :: "string \<Rightarrow> bool" where
  "exported n \<longleftrightarrow> n \<noteq> [] \<and> 65 \<le> ord (hd n) \<and> ord (hd n) \<le> 90"

text \<open>\<open>overlayStructFields\<close>: field by field, the defined ones of the layer win.\<close>

fun overlay_struct :: "strct \<Rightarrow> strct \<Rightarrow> strct" where
  "overlay_struct ((n, t) # ts) ((m, f) # fs) =
     (n, if exported n \<and> is_defined f then f else t) # overlay_struct ts fs"
| "overlay_struct ts _ = ts"

definition overlay :: "strct \<Rightarrow> strct list \<Rightarrow> strct" where
  "overlay base layers = foldl overlay_struct base layers"

definition same_shape :: "strct \<Rightarrow> strct \<Rightarrow> bool" where
  "same_shape s t \<longleftrightarrow>
     map (\<lambda>(n, f). (n, field_type f)) s = map (\<lambda>(n, f). (n, field_type f)) t"

lemma same_shape_refl [simp]: "same_shape s s"
  by (simp add: same_shape_def)

lemma same_shape_trans: "same_shape s t \<Longrightarrow> same_shape t u \<Longrightarrow> same_shape s u"
  by (simp add: same_shape_def)

lemma same_shape_sym: "same_shape s t \<Longrightarrow> same_shape t s"
  by (simp add: same_shape_def)

lemma same_shape_Cons:
  "same_shape ((n, f) # s) t \<longleftrightarrow>
     (\<exists>g t'. t = (n, g) # t' \<and> field_type f = field_type g \<and> same_shape s t')"
  by (auto simp: same_shape_def Cons_eq_map_conv)

lemma overlay_struct_shape: "same_shape s t \<Longrightarrow> same_shape (overlay_struct s t) s"
proof (induction s t rule: overlay_struct.induct)
  case (1 n t ts m f fs)
  then show ?case by (auto simp: same_shape_def)
qed (auto simp: same_shape_def)

lemma overlay_struct_lookup:
  "same_shape s t \<Longrightarrow> map_of (overlay_struct s t) k =
     (case map_of t k of
        Some f \<Rightarrow> if exported k \<and> is_defined f then Some f else map_of s k
      | None \<Rightarrow> None)"
proof (induction s t rule: overlay_struct.induct)
  case (1 n t ts m f fs)
  then show ?case by (auto simp: same_shape_def split: option.splits)
qed (auto simp: same_shape_def)

section \<open>The store\<close>

text \<open>\<open>st_zero\<close> is the zero value of \<open>T\<close>, which \<open>var zero T\<close> gives.\<close>

record store =
  st_zero :: strct
  st_names :: "string list"
  st_layers :: "(string, strct) amap"
  st_cache :: "strct option"

definition new_store :: "strct \<Rightarrow> string list \<Rightarrow> store" where
  "new_store z ns = \<lparr>st_zero = z, st_names = ns, st_layers = [], st_cache = None\<rparr>"

definition st_known :: "store \<Rightarrow> string \<Rightarrow> bool" where
  "st_known s n \<longleftrightarrow> n \<in> set (st_names s)"

definition st_set :: "store \<Rightarrow> string \<Rightarrow> strct \<Rightarrow> store result" where
  "st_set s n v =
     (if \<not> st_known s n then Inl (''unknown layer: '' @ n)
      else Inr (s\<lparr>st_layers := AList.update n v (st_layers s), st_cache := None\<rparr>))"

text \<open>
  \<open>SetField\<close> returns the error, if any, beside the state: an unset layer is initialised to
  the zero value before the field is looked up, and that stays when the field is unknown.
\<close>

definition st_set_field :: "store \<Rightarrow> string \<Rightarrow> string \<Rightarrow> fval \<Rightarrow> string option \<times> store" where
  "st_set_field s n fld v =
     (if \<not> st_known s n then (Some (''unknown layer: '' @ n), s)
      else
        let l = (case map_of (st_layers s) n of None \<Rightarrow> st_zero s | Some l \<Rightarrow> l);
            s1 = s\<lparr>st_layers := AList.update n l (st_layers s)\<rparr>
        in case map_of l fld of
             None \<Rightarrow> (Some (''unknown field: '' @ fld), s1)
           | Some old \<Rightarrow>
               if \<not> exported fld then (Some (''cannot set field: '' @ fld), s1)
               else if field_type v \<noteq> field_type old
               then (Some (''type mismatch for field '' @ fld @ '': got '' @ field_type v @
                           '', want '' @ field_type old), s1)
               else (None, s1\<lparr>st_layers := AList.update n (AList.update fld v l) (st_layers s1),
                              st_cache := None\<rparr>))"

definition st_combine :: "strct \<Rightarrow> strct list \<Rightarrow> strct" where
  "st_combine z ls = (case ls of [] \<Rightarrow> z | b # bs \<Rightarrow> overlay b bs)"

definition st_overlay :: "store \<Rightarrow> strct" where
  "st_overlay s = st_combine (st_zero s) (List.map_filter (map_of (st_layers s)) (st_names s))"

definition st_get :: "store \<Rightarrow> strct \<times> store" where
  "st_get s =
     (case st_cache s of
        Some c \<Rightarrow> (c, s)
      | None \<Rightarrow> (st_overlay s, s\<lparr>st_cache := Some (st_overlay s)\<rparr>))"

definition st_get_field :: "store \<Rightarrow> string \<Rightarrow> fval result \<times> store" where
  "st_get_field s fld =
     (case st_get s of (c, s') \<Rightarrow>
        ((case map_of c fld of None \<Rightarrow> Inl (''unknown field: '' @ fld) | Some v \<Rightarrow> Inr v), s'))"

definition st_get_layer :: "store \<Rightarrow> string \<Rightarrow> strct option" where
  "st_get_layer s n = map_of (st_layers s) n"

definition st_get_layer_field :: "store \<Rightarrow> string \<Rightarrow> string \<Rightarrow> fval option" where
  "st_get_layer_field s n fld =
     (case map_of (st_layers s) n of
        None \<Rightarrow> None
      | Some l \<Rightarrow> (case map_of l fld of None \<Rightarrow> None | Some v \<Rightarrow> if is_defined v then Some v else None))"

definition st_has :: "store \<Rightarrow> string \<Rightarrow> bool" where
  "st_has s n \<longleftrightarrow> map_of (st_layers s) n \<noteq> None"

definition st_clear :: "store \<Rightarrow> string \<Rightarrow> store" where
  "st_clear s n = s\<lparr>st_layers := AList.delete n (st_layers s), st_cache := None\<rparr>"

text \<open>\<open>reflect.Zero\<close> of the type of a field.\<close>

definition zero_field :: "strct \<Rightarrow> string \<Rightarrow> strct \<Rightarrow> strct" where
  "zero_field z fld l =
     (case (map_of z fld, map_of l fld) of
        (Some zv, Some _) \<Rightarrow> AList.update fld zv l | _ \<Rightarrow> l)"

definition st_clear_field :: "store \<Rightarrow> string \<Rightarrow> store result" where
  "st_clear_field s fld =
     (case map_of (st_zero s) fld of
        None \<Rightarrow> Inl (''unknown field: '' @ fld)
      | Some zv \<Rightarrow>
          Inr (s\<lparr>st_layers :=
                   amap_map (\<lambda>n l. if exported fld then zero_field (st_zero s) fld l else l) (st_layers s),
                 st_cache := None\<rparr>))"

definition st_clear_layer_field :: "store \<Rightarrow> string \<Rightarrow> string \<Rightarrow> store result" where
  "st_clear_layer_field s n fld =
     (if \<not> st_known s n then Inl (''unknown layer: '' @ n)
      else case map_of (st_layers s) n of
             None \<Rightarrow> Inr s
           | Some l \<Rightarrow>
               (case map_of l fld of
                  None \<Rightarrow> Inl (''unknown field: '' @ fld)
                | Some _ \<Rightarrow>
                    if \<not> exported fld then Inl (''cannot set field: '' @ fld)
                    else Inr (s\<lparr>st_layers := AList.update n (zero_field (st_zero s) fld l) (st_layers s),
                                st_cache := None\<rparr>)))"

record field_value =
  fv_layer :: string
  fv_value :: "fval option"
  fv_defined :: bool

definition st_inspect :: "store \<Rightarrow> string \<Rightarrow> field_value list" where
  "st_inspect s fld =
     map (\<lambda>n. case map_of (st_layers s) n of
                None \<Rightarrow> \<lparr>fv_layer = n, fv_value = None, fv_defined = False\<rparr>
              | Some l \<Rightarrow>
                  (case map_of l fld of
                     None \<Rightarrow> \<lparr>fv_layer = n, fv_value = None, fv_defined = False\<rparr>
                   | Some v \<Rightarrow> \<lparr>fv_layer = n, fv_value = Some v, fv_defined = is_defined v\<rparr>))
         (rev (st_names s))"

section \<open>Invariant\<close>

text \<open>
  A type is transparent when all its fields are exported pointers, maps or slices, as those
  of the daemon's \<open>Config\<close> are: then an unset field of a layer never hides a layer below.
\<close>

fun nilable :: "fval \<Rightarrow> bool" where
  "nilable (FPtr _ v) = (v = None)"
| "nilable (FMap _ v) = (v = None)"
| "nilable (FSlice _ v) = (v = None)"
| "nilable _ = False"

definition transparent :: "strct \<Rightarrow> bool" where
  "transparent z \<longleftrightarrow> distinct (map fst z) \<and> (\<forall>(n, f) \<in> set z. exported n \<and> nilable f)"

text \<open>A value of the struct type whose zero value is \<open>z\<close>.\<close>

fun fits :: "fval \<Rightarrow> fval \<Rightarrow> bool" where
  "fits (FPtr t _) (FPtr u _) = (t = u)"
| "fits (FMap t _) (FMap u _) = (t = u)"
| "fits (FSlice t _) (FSlice u _) = (t = u)"
| "fits (FScalar t _) (FScalar u _) = (t = u)"
| "fits (FStruct t _) (FStruct u _) = (t = u)"
| "fits _ _ = False"

definition of_type :: "strct \<Rightarrow> strct \<Rightarrow> bool" where
  "of_type z l \<longleftrightarrow> list_all2 (\<lambda>(n, f) (m, g). n = m \<and> fits f g) z l"

lemma fits_refl [simp]: "fits f f"
  by (cases f) auto

lemma fits_type: "fits f g \<Longrightarrow> field_type f = field_type g"
  by (induction f g rule: fits.induct) auto

lemma fits_undefined: "nilable z \<Longrightarrow> fits z f \<Longrightarrow> \<not> is_defined f \<Longrightarrow> f = z"
  by (induction z f rule: fits.induct) auto

lemma nilable_undefined: "nilable f \<Longrightarrow> \<not> is_defined f"
  by (cases f) auto

lemma of_type_refl [simp]: "of_type z z"
  by (auto simp: of_type_def list_all2_conv_all_nth split: prod.splits)

lemma of_type_shape: "of_type z l \<Longrightarrow> same_shape l z"
proof -
  assume "of_type z l"
  then have "list_all2 (\<lambda>(n, f) (m, g). n = m \<and> fits f g) z l" by (simp add: of_type_def)
  then show ?thesis
    by (induction rule: list_all2_induct) (auto simp: same_shape_def dest: fits_type)
qed

lemma of_type_fst: "of_type z l \<Longrightarrow> map fst l = map fst z"
proof -
  assume "of_type z l"
  then have "list_all2 (\<lambda>(n, f) (m, g). n = m \<and> fits f g) z l" by (simp add: of_type_def)
  then show ?thesis by (induction rule: list_all2_induct) auto
qed

lemma of_type_lookup:
  assumes "of_type z l"
  shows "(case map_of z k of None \<Rightarrow> map_of l k = None
          | Some f \<Rightarrow> \<exists>g. map_of l k = Some g \<and> fits f g)"
proof -
  from assms have "list_all2 (\<lambda>(n, f) (m, g). n = m \<and> fits f g) z l" by (simp add: of_type_def)
  then show ?thesis by (induction rule: list_all2_induct) (auto split: option.splits)
qed

lemma of_type_update:
  assumes "of_type z l" "map_of z k = Some f" "fits f g" "distinct (map fst z)"
  shows "of_type z (AList.update k g l)"
proof -
  from assms(1) have "list_all2 (\<lambda>(n, f) (m, g). n = m \<and> fits f g) z l" by (simp add: of_type_def)
  then have "list_all2 (\<lambda>(n, f) (m, g). n = m \<and> fits f g) z (AList.update k g l)"
    using assms(2-4)
  proof (induction rule: list_all2_induct)
    case Nil
    then show ?case by simp
  next
    case (Cons x xs y ys)
    then show ?case by (auto split: if_splits prod.splits)
  qed
  then show ?thesis by (simp add: of_type_def)
qed

lemma of_type_overlay: "of_type z a \<Longrightarrow> of_type z b \<Longrightarrow> of_type z (overlay_struct a b)"
proof (induction a b arbitrary: z rule: overlay_struct.induct)
  case (1 n t ts m f fs)
  then show ?case by (cases z) (auto simp: of_type_def)
qed (auto simp: of_type_def)

lemma of_type_combine: "(\<forall>l \<in> set ls. of_type z l) \<Longrightarrow> of_type z (st_combine z ls)"
proof (cases ls)
  case Nil
  then show ?thesis by (simp add: st_combine_def)
next
  case (Cons b bs)
  have "of_type z b \<Longrightarrow> \<forall>l \<in> set bs. of_type z l \<Longrightarrow> of_type z (foldl overlay_struct b bs)"
    by (induction bs arbitrary: b) (auto intro: of_type_overlay)
  then show "(\<forall>l \<in> set ls. of_type z l) \<Longrightarrow> ?thesis"
    using Cons by (simp add: st_combine_def overlay_def)
qed

text \<open>The value of a field in an overlay of transparent layers: the last defined one.\<close>

fun last_field :: "strct list \<Rightarrow> string \<Rightarrow> fval option" where
  "last_field [] k = None"
| "last_field (l # ls) k =
     (case last_field ls k of
        Some v \<Rightarrow> Some v
      | None \<Rightarrow> (case map_of l k of None \<Rightarrow> None | Some v \<Rightarrow> if is_defined v then Some v else None))"

lemma last_field_append:
  "last_field (xs @ ys) k =
     (case last_field ys k of Some v \<Rightarrow> Some v | None \<Rightarrow> last_field xs k)"
  by (induction xs) (auto split: option.splits)

lemma transparentD:
  "transparent z \<Longrightarrow> map_of z k = Some f \<Longrightarrow> exported k \<and> nilable f"
  by (auto simp: transparent_def dest: map_of_SomeD)

lemma combine_lookup:
  assumes tr: "transparent z" and f: "map_of z k = Some f"
    and ls: "\<forall>l \<in> set ls. of_type z l"
  shows "map_of (st_combine z ls) k =
     Some (case last_field ls k of None \<Rightarrow> f | Some v \<Rightarrow> v)"
  using ls
proof (induction ls rule: rev_induct)
  case Nil
  then show ?case by (simp add: st_combine_def f)
next
  case (snoc l ls)
  from snoc.prems have l: "of_type z l" and ls: "\<forall>l \<in> set ls. of_type z l" by auto
  from of_type_lookup [OF l, of k] f obtain g where g: "map_of l k = Some g" "fits f g" by auto
  from transparentD [OF tr f] have e: "exported k" and nf: "nilable f" by auto
  show ?case
  proof (cases ls)
    case Nil
    then have "st_combine z (ls @ [l]) = l" by (simp add: st_combine_def overlay_def)
    with Nil g show ?thesis by (auto dest: fits_undefined [OF nf])
  next
    case (Cons b bs)
    then have c: "st_combine z (ls @ [l]) = overlay_struct (st_combine z ls) l"
      by (simp add: st_combine_def overlay_def)
    have "same_shape (st_combine z ls) l"
      using of_type_combine [OF ls] l
      by (blast intro: same_shape_trans same_shape_sym of_type_shape)
    from overlay_struct_lookup [OF this, of k] g e snoc.IH [OF ls]
    show ?thesis unfolding c by (auto simp: last_field_append)
  qed
qed

lemma of_type_ext:
  assumes "distinct (map fst z)" "of_type z a" "of_type z b" "\<And>k. map_of a k = map_of b k"
  shows "a = b"
proof -
  have fa: "map fst a = map fst z" and fb: "map fst b = map fst z"
    using assms by (auto dest: of_type_fst)
  have da: "distinct (map fst a)" and db: "distinct (map fst b)" using assms(1) fa fb by simp_all
  show ?thesis
  proof (rule nth_equalityI)
    show "length a = length b" using fa fb by (metis length_map)
  next
    fix i assume i: "i < length a"
    have k: "fst (a ! i) = fst (b ! i)"
      using fa fb i by (metis length_map nth_map)
    have "map_of a (fst (a ! i)) = Some (snd (a ! i))"
      using da i by (simp add: map_of_eq_Some_iff)
    moreover have "i < length b" using fa fb i by (metis length_map)
    then have "map_of b (fst (b ! i)) = Some (snd (b ! i))"
      using db by (simp add: map_of_eq_Some_iff)
    ultimately show "a ! i = b ! i" using k assms(4) by (metis option.inject prod.collapse)
  qed
qed

definition st_ok :: "store \<Rightarrow> bool" where
  "st_ok s \<longleftrightarrow> transparent (st_zero s) \<and> amap_ok (st_layers s) \<and>
     (\<forall>n l. map_of (st_layers s) n = Some l \<longrightarrow> of_type (st_zero s) l) \<and>
     (\<forall>c. st_cache s = Some c \<longrightarrow> c = st_overlay s)"

lemma new_store_ok: "transparent z \<Longrightarrow> st_ok (new_store z ns)"
  by (simp add: st_ok_def new_store_def)

lemma st_ok_map_filter:
  "st_ok s \<Longrightarrow> \<forall>l \<in> set (List.map_filter (map_of (st_layers s)) ns). of_type (st_zero s) l"
  by (auto simp: st_ok_def List.map_filter_def)

lemma st_set_ok: "st_ok s \<Longrightarrow> of_type (st_zero s) v \<Longrightarrow> st_set s n v = Inr s' \<Longrightarrow> st_ok s'"
  by (auto simp: st_set_def st_ok_def split: if_splits)

lemma st_get_ok: "st_ok s \<Longrightarrow> st_ok (snd (st_get s))"
  by (auto simp: st_get_def st_ok_def st_overlay_def split: option.splits)

lemma st_clear_ok: "st_ok s \<Longrightarrow> st_ok (st_clear s n)"
  by (auto simp: st_clear_def st_ok_def split: if_splits)

lemma zero_field_of_type:
  "transparent z \<Longrightarrow> of_type z l \<Longrightarrow> of_type z (zero_field z fld l)"
  by (auto simp: zero_field_def transparent_def intro: of_type_update split: option.splits)

lemma st_clear_field_ok: "st_ok s \<Longrightarrow> st_clear_field s fld = Inr s' \<Longrightarrow> st_ok s'"
  by (auto simp: st_clear_field_def st_ok_def intro!: zero_field_of_type split: option.splits if_splits)

lemma st_clear_layer_field_ok: "st_ok s \<Longrightarrow> st_clear_layer_field s n fld = Inr s' \<Longrightarrow> st_ok s'"
  by (auto simp: st_clear_layer_field_def st_ok_def intro!: zero_field_of_type
        split: option.splits if_splits)

text \<open>A zero-valued layer of a transparent type changes no effective value.\<close>

lemma last_field_zero_layer:
  assumes tr: "transparent z" and "\<And>n. n \<noteq> m \<Longrightarrow> f n = g n" "g m = None" "f m = Some z"
  shows "last_field (List.map_filter f ns) k = last_field (List.map_filter g ns) k"
proof (induction ns)
  case Nil
  then show ?case by (simp add: List.map_filter_def)
next
  case (Cons n ns)
  have "(case map_of z k of None \<Rightarrow> None | Some v \<Rightarrow> if is_defined v then Some v else None) = None"
    using transparentD [OF tr, of k] by (auto dest: nilable_undefined split: option.splits)
  with Cons assms show ?case
    by (cases "n = m") (auto simp: List.map_filter_def split: option.splits)
qed

lemma st_overlay_zero_layer:
  assumes ok: "st_ok s" and "map_of (st_layers s) n = None"
  shows "st_overlay (s\<lparr>st_layers := AList.update n (st_zero s) (st_layers s)\<rparr>) = st_overlay s"
proof -
  let ?s = "s\<lparr>st_layers := AList.update n (st_zero s) (st_layers s)\<rparr>"
  let ?L = "List.map_filter (map_of (st_layers s)) (st_names s)"
  let ?M = "List.map_filter (map_of (st_layers ?s)) (st_names s)"
  from ok have tr: "transparent (st_zero s)" by (simp add: st_ok_def)
  have L: "\<forall>l \<in> set ?L. of_type (st_zero s) l" by (rule st_ok_map_filter [OF ok])
  have M: "\<forall>l \<in> set ?M. of_type (st_zero s) l"
    using ok by (auto simp: st_ok_def List.map_filter_def split: if_splits)
  have lf: "last_field ?M k = last_field ?L k" for k
    by (rule last_field_zero_layer [OF tr, where m = n]) (use assms(2) in auto)
  have "st_combine (st_zero s) ?M = st_combine (st_zero s) ?L"
  proof (rule of_type_ext)
    show "distinct (map fst (st_zero s))" using tr by (simp add: transparent_def)
    show "of_type (st_zero s) (st_combine (st_zero s) ?M)" by (rule of_type_combine [OF M])
    show "of_type (st_zero s) (st_combine (st_zero s) ?L)" by (rule of_type_combine [OF L])
    show "map_of (st_combine (st_zero s) ?M) k = map_of (st_combine (st_zero s) ?L) k" for k
    proof (cases "map_of (st_zero s) k")
      case None
      with of_type_lookup [OF of_type_combine [OF M], of k] of_type_lookup [OF of_type_combine [OF L], of k]
      show ?thesis by simp
    next
      case (Some f)
      show ?thesis by (simp only: combine_lookup [OF tr Some M] combine_lookup [OF tr Some L] lf)
    qed
  qed
  then show ?thesis by (simp add: st_overlay_def)
qed

lemma st_set_field_ok:
  assumes ok: "st_ok s" and v: "\<And>f. map_of (st_zero s) fld = Some f \<Longrightarrow> field_type f = field_type v \<Longrightarrow> fits f v"
  shows "st_ok (snd (st_set_field s n fld v))"
proof (cases "st_known s n")
  case False
  then show ?thesis using ok by (simp add: st_set_field_def)
next
  case True
  define l where "l = (case map_of (st_layers s) n of None \<Rightarrow> st_zero s | Some l \<Rightarrow> l)"
  define s1 where "s1 = s\<lparr>st_layers := AList.update n l (st_layers s)\<rparr>"
  have tl: "of_type (st_zero s) l" using ok by (auto simp: l_def st_ok_def split: option.splits)
  have ov: "st_overlay s1 = st_overlay s"
  proof (cases "map_of (st_layers s) n")
    case None
    then show ?thesis using st_overlay_zero_layer [OF ok None] by (simp add: s1_def l_def)
  next
    case (Some a)
    then have "map_of (st_layers s1) = map_of (st_layers s)"
      by (auto simp: s1_def l_def fun_eq_iff)
    then show ?thesis by (simp add: st_overlay_def) (simp add: s1_def)
  qed
  have ok1: "st_ok s1" using ok tl ov by (auto simp: st_ok_def s1_def split: if_splits)
  have z1: "st_zero s1 = st_zero s" by (simp add: s1_def)
  have set: "st_ok (s1\<lparr>st_layers := AList.update n (AList.update fld v l) (st_layers s1), st_cache := None\<rparr>)"
    if "map_of l fld = Some old" "field_type v = field_type old" for old
  proof -
    from of_type_lookup [OF tl, of fld] that obtain f where f: "map_of (st_zero s) fld = Some f" "fits f old"
      by (auto split: option.splits)
    then have "fits f v" using v that by (auto dest: fits_type)
    then have "of_type (st_zero s) (AList.update fld v l)"
      using of_type_update [OF tl f(1)] ok by (simp add: st_ok_def transparent_def)
    then show ?thesis using ok1 z1 by (auto simp: st_ok_def split: if_splits)
  qed
  show ?thesis
    using True ok1 set
    by (auto simp: st_set_field_def l_def [symmetric] s1_def [symmetric] Let_def split: option.splits)
qed

text \<open>The store satisfies the layer contract; a value of a layer has the struct's type.\<close>

definition store_of :: "strct \<Rightarrow> store \<Rightarrow> bool" where
  "store_of z s \<longleftrightarrow> st_ok s \<and> st_zero s = z"

interpretation cst: layered_store st_names "\<lambda>s. map_of (st_layers s)" st_set st_clear st_get
  "st_combine z" "store_of z" "of_type z" for z
proof unfold_locales
  show "n \<in> set (st_names s) \<Longrightarrow> \<exists>s'. st_set s n v = Inr s'" for n s v
    by (simp add: st_set_def st_known_def)
  show "n \<notin> set (st_names s) \<Longrightarrow> \<exists>e. st_set s n v = Inl e" for n s v
    by (simp add: st_set_def st_known_def)
  show "st_set s n v = Inr s' \<Longrightarrow> map_of (st_layers s') = (map_of (st_layers s))(n \<mapsto> v)" for s n v s'
    by (auto simp: st_set_def fun_eq_iff split: if_splits)
  show "st_set s n v = Inr s' \<Longrightarrow> st_names s' = st_names s" for s n v s'
    by (auto simp: st_set_def split: if_splits)
  show "store_of z s \<Longrightarrow> of_type z v \<Longrightarrow> st_set s n v = Inr s' \<Longrightarrow> store_of z s'" for s v n s'
    by (auto simp: store_of_def intro: st_set_ok) (auto simp: st_set_def split: if_splits)
  show "map_of (st_layers (st_clear s n)) = (map_of (st_layers s))(n := None)" for s n
    by (simp add: st_clear_def fun_eq_iff)
  show "st_names (st_clear s n) = st_names s" for s n
    by (simp add: st_clear_def)
  show "store_of z s \<Longrightarrow> store_of z (st_clear s n)" for s n
    by (auto simp: store_of_def intro: st_clear_ok) (simp add: st_clear_def)
  show "store_of z s \<Longrightarrow>
      fst (st_get s) = st_combine z (List.map_filter (map_of (st_layers s)) (st_names s))" for s
    by (auto simp: store_of_def st_get_def st_ok_def st_overlay_def split: option.splits)
  show "map_of (st_layers (snd (st_get s))) = map_of (st_layers s)" for s
    by (auto simp: st_get_def split: option.splits)
  show "st_names (snd (st_get s)) = st_names s" for s
    by (auto simp: st_get_def split: option.splits)
  show "store_of z s \<Longrightarrow> store_of z (snd (st_get s))" for s
    by (auto simp: store_of_def intro: st_get_ok) (auto simp: st_get_def split: option.splits)
qed

text \<open>\<open>Inspect\<close> shows where the effective value of a field comes from.\<close>

lemma last_field_inspect:
  "last_field (List.map_filter f ns) fld =
     (case find fv_defined
        (map (\<lambda>n. case f n of
                None \<Rightarrow> \<lparr>fv_layer = n, fv_value = None, fv_defined = False\<rparr>
              | Some l \<Rightarrow>
                  (case map_of l fld of
                     None \<Rightarrow> \<lparr>fv_layer = n, fv_value = None, fv_defined = False\<rparr>
                   | Some v \<Rightarrow> \<lparr>fv_layer = n, fv_value = Some v, fv_defined = is_defined v\<rparr>))
         (rev ns)) of None \<Rightarrow> None | Some e \<Rightarrow> fv_value e)"
proof (induction ns rule: rev_induct)
  case Nil
  then show ?case by (simp add: List.map_filter_def)
next
  case (snoc n ns)
  then show ?case
    by (auto simp: List.map_filter_def last_field_append split: option.splits)
qed

lemma st_get_field_inspect:
  assumes ok: "st_ok s" and f: "map_of (st_zero s) fld = Some f"
  shows "fst (st_get_field s fld) =
     Inr (case find fv_defined (st_inspect s fld) of
            Some e \<Rightarrow> the (fv_value e) | None \<Rightarrow> f)"
proof -
  let ?ls = "List.map_filter (map_of (st_layers s)) (st_names s)"
  from ok have tr: "transparent (st_zero s)" by (simp add: st_ok_def)
  have get: "fst (st_get s) = st_combine (st_zero s) ?ls"
    using cst.eff_value [of "st_zero s" s] ok by (simp add: store_of_def)
  have "map_of (fst (st_get s)) fld = Some (case last_field ?ls fld of None \<Rightarrow> f | Some v \<Rightarrow> v)"
    unfolding get by (rule combine_lookup [OF tr f st_ok_map_filter [OF ok]])
  moreover have "last_field ?ls fld =
      (case find fv_defined (st_inspect s fld) of None \<Rightarrow> None | Some e \<Rightarrow> fv_value e)"
    unfolding last_field_inspect st_inspect_def ..
  moreover have "\<exists>v. fv_value e = Some v" if "find fv_defined (st_inspect s fld) = Some e" for e
    using find_Some_set [OF that] by (auto simp: st_inspect_def split: option.splits)
  ultimately show ?thesis
    by (cases "st_get s") (auto simp: st_get_field_def split: option.splits)
qed

text \<open>
  A field set on a layer is the effective one when no layer above defines it.
\<close>

lemma st_set_field_Some:
  assumes "st_set_field s n fld v = (None, s')"
  shows "\<exists>l old. st_known s n \<and> exported fld \<and> map_of l fld = Some old \<and> field_type v = field_type old \<and>
    l = (case map_of (st_layers s) n of None \<Rightarrow> st_zero s | Some l \<Rightarrow> l) \<and>
    map_of (st_layers s') = (map_of (st_layers s))(n \<mapsto> AList.update fld v l) \<and>
    st_names s' = st_names s \<and> st_zero s' = st_zero s"
  using assms by (auto simp: st_set_field_def Let_def fun_eq_iff split: if_splits option.splits)

lemma last_field_none:
  "(\<And>n. n \<in> set ns \<Longrightarrow> (case f n of None \<Rightarrow> True
       | Some l \<Rightarrow> (case map_of l fld of None \<Rightarrow> True | Some v \<Rightarrow> \<not> is_defined v))) \<Longrightarrow>
   last_field (List.map_filter f ns) fld = None"
proof (induction ns)
  case Nil
  then show ?case by (simp add: List.map_filter_def)
next
  case (Cons n ns)
  then have "last_field (List.map_filter f ns) fld = None" by simp
  moreover from Cons.prems [of n] have "case f n of None \<Rightarrow> True
       | Some l \<Rightarrow> (case map_of l fld of None \<Rightarrow> True | Some v \<Rightarrow> \<not> is_defined v)" by simp
  ultimately show ?case by (auto simp: List.map_filter_def split: option.splits)
qed

lemma map_filter_cong_set:
  "(\<And>n. n \<in> set ns \<Longrightarrow> f n = g n) \<Longrightarrow> List.map_filter f ns = List.map_filter g ns"
  by (induction ns) (auto simp: List.map_filter_def)

lemma st_set_field_eff:
  assumes ok: "st_ok s'" and set: "st_set_field s n fld v = (None, s')"
    and names: "st_names s = pre @ n # post" and post: "n \<notin> set post"
    and above: "\<And>m. m \<in> set post \<Longrightarrow> st_get_layer_field s m fld = None"
    and def: "is_defined v"
  shows "map_of (fst (st_get s')) fld = Some v"
proof -
  from st_set_field_Some [OF set] obtain l old where l:
    "map_of l fld = Some old" "map_of (st_layers s') = (map_of (st_layers s))(n \<mapsto> AList.update fld v l)"
    "st_names s' = st_names s" by blast
  let ?f = "map_of (st_layers s')"
  have "last_field (List.map_filter ?f post) fld = None"
  proof (rule last_field_none)
    fix m assume m: "m \<in> set post"
    with post have "?f m = map_of (st_layers s) m" using l(2) by auto
    with above [OF m] show "case ?f m of None \<Rightarrow> True
       | Some l \<Rightarrow> (case map_of l fld of None \<Rightarrow> True | Some v \<Rightarrow> \<not> is_defined v)"
      by (auto simp: st_get_layer_field_def split: option.splits if_splits)
  qed
  moreover have "List.map_filter ?f (pre @ n # post) =
      List.map_filter ?f pre @ AList.update fld v l # List.map_filter ?f post"
    using l(2) by (simp add: List.map_filter_def)
  ultimately have lf: "last_field (List.map_filter ?f (st_names s')) fld = Some v"
    using l(3) names def by (simp add: last_field_append)
  have tr: "transparent (st_zero s')" using ok by (simp add: st_ok_def)
  obtain f where f: "map_of (st_zero s') fld = Some f"
  proof -
    have "?f n = Some (AList.update fld v l)" using l(2) by simp
    with ok have "of_type (st_zero s') (AList.update fld v l)" unfolding st_ok_def by blast
    from of_type_lookup [OF this, of fld] that show ?thesis by (auto split: option.splits)
  qed
  have "fst (st_get s') = st_combine (st_zero s') (List.map_filter ?f (st_names s'))"
    using cst.eff_value [of "st_zero s'" s'] ok by (simp add: store_of_def)
  then show ?thesis using combine_lookup [OF tr f st_ok_map_filter [OF ok]] lf by simp
qed

end
