(* ===== verification/Config_Keys.thy ===== *)
theory Config_Keys
  imports Config_Store
begin

text \<open>
  The daemon configuration: \<open>domain/config\<close> (the \<open>Config\<close> struct, the key table and the
  operations on yaml keys), \<open>infra/yaml/config\<close> (defaults, loading into a store) and the
  source annotation of \<open>cli/config.go\<close>.
\<close>

section \<open>The configuration struct\<close>

text \<open>The zero value of \<open>Config\<close>, field by field in declaration order.\<close>

definition config_zero :: strct where
  "config_zero =
    [(''DefaultShell'', FPtr ''string'' None), (''ErrorThreshold'', FPtr ''int'' None),
     (''TriggerErrorThreshold'', FPtr ''int'' None), (''ActionErrorThreshold'', FPtr ''int'' None),
     (''ConcurrencyMode'', FPtr ''string'' None), (''MaxQueueSize'', FPtr ''int'' None),
     (''Debounce'', FPtr ''string'' None), (''ShutdownTimeout'', FPtr ''string'' None),
     (''LogLevel'', FPtr ''string'' None), (''SocketAddress'', FPtr ''string'' None),
     (''AllowedHosts'', FPtr ''string'' None),
     (''Plugins'', FMap ''map[string]map[string]interface {}'' None)]"

definition cfg_ptr :: "strct \<Rightarrow> string \<Rightarrow> gval option" where
  "cfg_ptr c fld = (case map_of c fld of Some (FPtr t v) \<Rightarrow> v | _ \<Rightarrow> None)"

definition cfg_plugins :: "strct \<Rightarrow> gmap option" where
  "cfg_plugins c = (case map_of c ''Plugins'' of Some (FMap t m) \<Rightarrow> m | _ \<Rightarrow> None)"

definition with_plugins :: "gmap option \<Rightarrow> strct \<Rightarrow> strct" where
  "with_plugins m c = AList.update ''Plugins'' (FMap ''map[string]map[string]interface {}'' m) c"

fun deref_str :: "gval option \<Rightarrow> string" where
  "deref_str (Some (VStr s)) = s"
| "deref_str _ = []"

fun deref_int :: "gval option \<Rightarrow> int" where
  "deref_int (Some (VInt i)) = i"
| "deref_int _ = 0"

fun effective_int :: "gval option \<Rightarrow> int \<Rightarrow> int" where
  "effective_int (Some (VInt i)) fallback = i"
| "effective_int _ fallback = fallback"

definition is_host_allowed :: "strct \<Rightarrow> string \<Rightarrow> bool" where
  "is_host_allowed c host =
     (let allowed = deref_str (cfg_ptr c ''AllowedHosts'') in
      if allowed = [] then False
      else list_ex (\<lambda>h. to_lower (trim_space h) = to_lower (trim_space host))
             (str_split CHR '','' allowed))"

section \<open>The key table\<close>

record key_def =
  kd_field :: string
  kd_type :: string
  kd_validate :: "string list option"
  kd_fallback :: string

definition plain_def :: "string \<Rightarrow> string \<Rightarrow> key_def" where
  "plain_def f t = \<lparr>kd_field = f, kd_type = t, kd_validate = None, kd_fallback = []\<rparr>"

definition valid_concurrency_modes :: "string list" where
  "valid_concurrency_modes = [''queue'', ''parallel'', ''drop'', ''abort'']"

definition valid_log_levels :: "string list" where
  "valid_log_levels = [''debug'', ''info'', ''warn'', ''error'']"

definition config_keys :: "(string, key_def) amap" where
  "config_keys =
    [(''default_shell'', plain_def ''DefaultShell'' ''string''),
     (''error_threshold'', plain_def ''ErrorThreshold'' ''int''),
     (''trigger_error_threshold'',
        (plain_def ''TriggerErrorThreshold'' ''int'')\<lparr>kd_fallback := ''error_threshold''\<rparr>),
     (''action_error_threshold'',
        (plain_def ''ActionErrorThreshold'' ''int'')\<lparr>kd_fallback := ''error_threshold''\<rparr>),
     (''concurrency_mode'',
        (plain_def ''ConcurrencyMode'' ''string'')\<lparr>kd_validate := Some valid_concurrency_modes\<rparr>),
     (''max_queue_size'', plain_def ''MaxQueueSize'' ''int''),
     (''debounce'', plain_def ''Debounce'' ''string''),
     (''shutdown_timeout'', plain_def ''ShutdownTimeout'' ''string''),
     (''log_level'', (plain_def ''LogLevel'' ''string'')\<lparr>kd_validate := Some valid_log_levels\<rparr>),
     (''socket_address'', plain_def ''SocketAddress'' ''string''),
     (''allowed_hosts'', plain_def ''AllowedHosts'' ''string'')]"

definition lookup_key :: "string \<Rightarrow> key_def result" where
  "lookup_key k =
     (if has_prefix k ''plugins.'' then Inr (plain_def [] ''string'')
      else case map_of config_keys k of
             None \<Rightarrow> Inl (''unknown config key: '' @ k)
           | Some d \<Rightarrow> Inr d)"

section \<open>Plugin keys\<close>

definition split_plugin_key :: "string \<Rightarrow> (string \<times> string) result" where
  "split_plugin_key k =
     (case split2 CHR ''.'' k of
        (_, None) \<Rightarrow> Inl (''invalid plugin config key: '' @ k @ '' (expected plugins.<namespace>.<key>)'')
      | (_, Some rest) \<Rightarrow>
          if rest = [] then Inl (''invalid plugin config key: '' @ k @ '' (expected plugins.<namespace>.<key>)'')
          else case last_index_byte rest CHR ''.'' of
                 None \<Rightarrow> Inl (''expected <namespace>.<key>, got '' @ go_quote rest)
               | Some i \<Rightarrow>
                   if i < 1 then Inl (''expected <namespace>.<key>, got '' @ go_quote rest)
                   else Inr (take i rest, drop (Suc i) rest))"

text \<open>The inner map of a namespace; a nil inner map reads as an empty one.\<close>

definition ns_map :: "gval \<Rightarrow> gmap" where
  "ns_map v = (case v of VMap m \<Rightarrow> m | _ \<Rightarrow> [])"

definition get_plugin_by_key :: "store \<Rightarrow> string \<Rightarrow> gval result \<times> store" where
  "get_plugin_by_key s k =
     (case st_get s of (c, s') \<Rightarrow>
        ((case split_plugin_key k of
            Inl e \<Rightarrow> Inl e
          | Inr (ns, fld) \<Rightarrow>
              (case cfg_plugins c of
                 None \<Rightarrow> Inl (''no plugin config set for namespace '' @ go_quote ns)
               | Some ps \<Rightarrow>
                   (case map_of ps ns of
                      None \<Rightarrow> Inl (''no plugin config set for namespace '' @ go_quote ns)
                    | Some nv \<Rightarrow>
                        (case map_of (ns_map nv) fld of
                           None \<Rightarrow> Inl (''plugin config key '' @ go_quote fld @
                                      '' not set for namespace '' @ go_quote ns)
                         | Some v \<Rightarrow> Inr v)))), s'))"

text \<open>
  The error of \<open>store.Set\<close> is dropped, so an unknown layer is reported as success.
\<close>

definition set_plugin_by_key :: "store \<Rightarrow> string \<Rightarrow> string \<Rightarrow> string \<Rightarrow> string option \<times> store" where
  "set_plugin_by_key s layer k value =
     (case split_plugin_key k of
        Inl e \<Rightarrow> (Some e, s)
      | Inr (ns, fld) \<Rightarrow>
          let lv = (case st_get_layer s layer of None \<Rightarrow> config_zero | Some l \<Rightarrow> l);
              ps = (case cfg_plugins lv of None \<Rightarrow> [] | Some ps \<Rightarrow> ps);
              nc = (case map_of ps ns of None \<Rightarrow> [] | Some v \<Rightarrow> ns_map v);
              ps' = AList.update ns (VMap (AList.update fld (VStr value) nc)) ps
          in (None, (case st_set s layer (with_plugins (Some ps') lv) of Inl _ \<Rightarrow> s | Inr s' \<Rightarrow> s')))"

definition delete_plugin_by_key :: "store \<Rightarrow> string \<Rightarrow> string \<Rightarrow> string option \<times> store" where
  "delete_plugin_by_key s layer k =
     (case split_plugin_key k of
        Inl e \<Rightarrow> (Some e, s)
      | Inr (ns, fld) \<Rightarrow>
          (case st_get_layer s layer of
             None \<Rightarrow> (None, s)
           | Some lv \<Rightarrow>
               (case cfg_plugins lv of
                  None \<Rightarrow> (None, s)
                | Some ps \<Rightarrow>
                    (case map_of ps ns of
                       None \<Rightarrow> (None, s)
                     | Some nv \<Rightarrow>
                         let nc = AList.delete fld (ns_map nv);
                             ps' = (if nc = [] then AList.delete ns ps
                                    else AList.update ns (VMap nc) ps)
                         in (None, (case st_set s layer (with_plugins (Some ps') lv) of
                                      Inl _ \<Rightarrow> s | Inr s' \<Rightarrow> s'))))))"

section \<open>Operations by key\<close>

definition is_nil_value :: "fval \<Rightarrow> bool" where
  "is_nil_value v = (case v of FPtr _ None \<Rightarrow> True | FScalar _ VNil \<Rightarrow> True | _ \<Rightarrow> False)"

definition deref_value :: "fval \<Rightarrow> fval" where
  "deref_value v =
     (case v of FPtr t None \<Rightarrow> FScalar [] VNil | FPtr t (Some x) \<Rightarrow> FScalar t x | _ \<Rightarrow> v)"

definition get_by_key :: "store \<Rightarrow> string \<Rightarrow> fval result \<times> store" where
  "get_by_key s k =
     (if has_prefix k ''plugins.'' then
        (case get_plugin_by_key s k of
           (Inl e, s') \<Rightarrow> (Inl e, s') | (Inr v, s') \<Rightarrow> (Inr (FScalar ''any'' v), s'))
      else case lookup_key k of
        Inl e \<Rightarrow> (Inl e, s)
      | Inr d \<Rightarrow>
          (case st_get_field s (kd_field d) of
             (Inl e, s1) \<Rightarrow> (Inl e, s1)
           | (Inr v, s1) \<Rightarrow>
               if kd_fallback d \<noteq> [] \<and> is_nil_value v then
                 (case map_of config_keys (kd_fallback d) of
                    None \<Rightarrow> (Inr (deref_value v), s1)
                  | Some fd \<Rightarrow>
                      (case st_get_field s1 (kd_field fd) of
                         (Inl _, s2) \<Rightarrow> (Inr (FScalar [] VNil), s2)
                       | (Inr w, s2) \<Rightarrow> (Inr (deref_value w), s2)))
               else (Inr (deref_value v), s1)))"

definition set_by_key :: "store \<Rightarrow> string \<Rightarrow> string \<Rightarrow> string \<Rightarrow> string option \<times> store" where
  "set_by_key s layer k value =
     (if has_prefix k ''plugins.'' then set_plugin_by_key s layer k value
      else case lookup_key k of
        Inl e \<Rightarrow> (Some e, s)
      | Inr d \<Rightarrow>
          (case (case kd_validate d of
                   None \<Rightarrow> Inr value
                 | Some allowed \<Rightarrow>
                     if to_lower value \<in> set allowed then Inr (to_lower value)
                     else Inl (''invalid '' @ k @ '': '' @ go_quote value @ '' (must be one of: '' @
                               str_join '', '' allowed @ '')'')) of
             Inl e \<Rightarrow> (Some e, s)
           | Inr v \<Rightarrow>
               if kd_type d = ''int'' then
                 (case atoi v of
                    None \<Rightarrow> (Some (''invalid value for '' @ k @ '': expected integer, got '' @ go_quote v), s)
                  | Some i \<Rightarrow> st_set_field s layer (kd_field d) (FPtr ''int'' (Some (VInt i))))
               else if kd_type d = ''string'' then
                 st_set_field s layer (kd_field d) (FPtr ''string'' (Some (VStr v)))
               else (None, s)))"

definition delete_by_key :: "store \<Rightarrow> string \<Rightarrow> string \<Rightarrow> string option \<times> store" where
  "delete_by_key s layer k =
     (if has_prefix k ''plugins.'' then delete_plugin_by_key s layer k
      else case lookup_key k of
        Inl e \<Rightarrow> (Some e, s)
      | Inr d \<Rightarrow>
          (case st_clear_layer_field s layer (kd_field d) of
             Inl e \<Rightarrow> (Some e, s) | Inr s' \<Rightarrow> (None, s')))"

definition all_keys :: "store \<Rightarrow> (string \<times> gval) list \<times> store" where
  "all_keys s =
     (case st_get s of (c, s') \<Rightarrow>
        let err = deref_int (cfg_ptr c ''ErrorThreshold'') in
        ([(''default_shell'', VStr (deref_str (cfg_ptr c ''DefaultShell''))),
          (''error_threshold'', VInt err),
          (''trigger_error_threshold'', VInt (effective_int (cfg_ptr c ''TriggerErrorThreshold'') err)),
          (''action_error_threshold'', VInt (effective_int (cfg_ptr c ''ActionErrorThreshold'') err)),
          (''concurrency_mode'', VStr (deref_str (cfg_ptr c ''ConcurrencyMode''))),
          (''max_queue_size'', VInt (deref_int (cfg_ptr c ''MaxQueueSize''))),
          (''debounce'', VStr (deref_str (cfg_ptr c ''Debounce''))),
          (''shutdown_timeout'', VStr (deref_str (cfg_ptr c ''ShutdownTimeout''))),
          (''log_level'', VStr (deref_str (cfg_ptr c ''LogLevel''))),
          (''socket_address'', VStr (deref_str (cfg_ptr c ''SocketAddress''))),
          (''allowed_hosts'', VStr (deref_str (cfg_ptr c ''AllowedHosts'')))]
         @ concat (map (\<lambda>(ns, nv). map (\<lambda>(f, v). (''plugins.'' @ ns @ ''.'' @ f, v)) (ns_map nv))
                    (case cfg_plugins c of None \<Rightarrow> [] | Some ps \<Rightarrow> ps)), s'))"

section \<open>Defaults and loading\<close>

text \<open>The platform's default shell and socket address (\<open>infra/os/defaults\<close>, Unix).\<close>

definition default_config :: strct where
  "default_config =
    [(''DefaultShell'', FPtr ''string'' (Some (VStr ''sh -c''))),
     (''ErrorThreshold'', FPtr ''int'' (Some (VInt 5))),
     (''TriggerErrorThreshold'', FPtr ''int'' None), (''ActionErrorThreshold'', FPtr ''int'' None),
     (''ConcurrencyMode'', FPtr ''string'' (Some (VStr ''queue''))),
     (''MaxQueueSize'', FPtr ''int'' (Some (VInt 100))),
     (''Debounce'', FPtr ''string'' (Some (VStr ''300ms''))),
     (''ShutdownTimeout'', FPtr ''string'' (Some (VStr ''30s''))),
     (''LogLevel'', FPtr ''string'' (Some (VStr []))),
     (''SocketAddress'', FPtr ''string'' (Some (VStr []))),
     (''AllowedHosts'', FPtr ''string'' (Some (VStr []))),
     (''Plugins'', FMap ''map[string]map[string]interface {}'' None)]"

definition ident_start :: "char \<Rightarrow> bool" where
  "ident_start c \<longleftrightarrow> (65 \<le> ord c \<and> ord c \<le> 90) \<or> (97 \<le> ord c \<and> ord c \<le> 122) \<or> c = CHR ''_''"

definition ident_char :: "char \<Rightarrow> bool" where
  "ident_char c \<longleftrightarrow> ident_start c \<or> is_digit c"

text \<open>A match of \<open>\${name}\<close> at the start of a string: the name and what follows.\<close>

definition env_ref :: "string \<Rightarrow> (string \<times> string) option" where
  "env_ref s =
     (case s of
        d # b # c # r \<Rightarrow>
          if d = CHR 0x24 \<and> b = CHR 0x7B \<and> ident_start c then
            (case dropWhile ident_char r of
               x # rest \<Rightarrow> if x = CHR 0x7D then Some (c # takeWhile ident_char r, rest) else None
             | [] \<Rightarrow> None)
          else None
      | _ \<Rightarrow> None)"

lemma env_ref_shorter: "env_ref s = Some (n, rest) \<Longrightarrow> length rest < length s"
  by (auto simp: env_ref_def split: list.splits if_splits
        dest!: arg_cong [where f = length] intro: le_less_trans [OF length_dropWhile_le])
     (metis Suc_le_lessD le_SucI length_Cons length_dropWhile_le)

text \<open>\<open>interpolatePluginEnvVars\<close> on one string; an unset variable keeps its reference.\<close>

function expand_env :: "(string \<Rightarrow> string option) \<Rightarrow> string \<Rightarrow> string" where
  "expand_env env s =
     (case env_ref s of
        Some (n, rest) \<Rightarrow>
          (case env n of Some v \<Rightarrow> v | None \<Rightarrow> [CHR 0x24, CHR 0x7B] @ n @ [CHR 0x7D]) @ expand_env env rest
      | None \<Rightarrow> (case s of [] \<Rightarrow> [] | c # r \<Rightarrow> c # expand_env env r))"
  by pat_completeness auto
termination
  by (relation "measure (\<lambda>(env, s). length s)") (auto dest: env_ref_shorter)

declare expand_env.simps [simp del]

definition interpolate_plugins :: "(string \<Rightarrow> string option) \<Rightarrow> gmap \<Rightarrow> gmap" where
  "interpolate_plugins env ps =
     amap_map (\<lambda>ns nv. case nv of
         VMap m \<Rightarrow> VMap (amap_map (\<lambda>k v. case v of VStr s \<Rightarrow> VStr (expand_env env s) | _ \<Rightarrow> v) m)
       | _ \<Rightarrow> nv) ps"

text \<open>
  \<open>loadRaw\<close>: \<open>file\<close> is the outcome of reading the file (\<open>None\<close> when it does not exist) and
  \<open>parse\<close> the YAML decoder.
\<close>

definition load_raw :: "(string \<Rightarrow> strct result) \<Rightarrow> (string \<Rightarrow> string option) \<Rightarrow>
    string option result \<Rightarrow> strct result" where
  "load_raw parse env file =
     (case file of
        Inl e \<Rightarrow> Inl (''could not read config file: '' @ e)
      | Inr None \<Rightarrow> Inr config_zero
      | Inr (Some data) \<Rightarrow>
          (case parse data of
             Inl e \<Rightarrow> Inl (''could not parse config file: '' @ e)
           | Inr c \<Rightarrow> Inr (case cfg_plugins c of
                             None \<Rightarrow> c
                           | Some ps \<Rightarrow> with_plugins (Some (interpolate_plugins env ps)) c)))"

definition must_set :: "store \<Rightarrow> string \<Rightarrow> strct \<Rightarrow> store" where
  "must_set s n v = (case st_set s n v of Inl _ \<Rightarrow> s | Inr s' \<Rightarrow> s')"

definition new_config_store :: "(string \<Rightarrow> strct result) \<Rightarrow> (string \<Rightarrow> string option) \<Rightarrow>
    string option result \<Rightarrow> store result" where
  "new_config_store parse env file =
     (let s = must_set (new_store config_zero [''default'', ''file'', ''cli args'']) ''default'' default_config
      in case load_raw parse env file of
           Inl e \<Rightarrow> Inl e
         | Inr raw \<Rightarrow> Inr (must_set s ''file'' raw))"

definition init_store :: "(string \<Rightarrow> strct result) \<Rightarrow> (string \<Rightarrow> string option) \<Rightarrow>
    string result \<Rightarrow> (string \<Rightarrow> string option result) \<Rightarrow> string option \<Rightarrow> strct option \<Rightarrow>
    (store \<times> string) result" where
  "init_store parse env default_path read cfg_path cli =
     (case (case cfg_path of Some p \<Rightarrow> Inr p | None \<Rightarrow> default_path) of
        Inl e \<Rightarrow> Inl e
      | Inr p \<Rightarrow>
          (case new_config_store parse env (read p) of
             Inl e \<Rightarrow> Inl e
           | Inr s \<Rightarrow> Inr (case cli of None \<Rightarrow> s | Some c \<Rightarrow> must_set s ''cli args'' c, p)))"

section \<open>Where a value comes from\<close>

definition store_source_annotation :: "string \<Rightarrow> store option \<Rightarrow> string" where
  "store_source_annotation k so =
     (case so of
        None \<Rightarrow> []
      | Some s \<Rightarrow>
          if has_prefix k ''plugins.'' then []
          else case lookup_key k of
            Inl _ \<Rightarrow> []
          | Inr d \<Rightarrow>
              if kd_field d = [] then []
              else case find fv_defined (st_inspect s (kd_field d)) of
                Some e \<Rightarrow>
                  if fv_layer e = ''cli args'' then '' (set via CLI flag)''
                  else if fv_layer e = ''file'' then '' (set in configyaml.yaml)''
                  else if fv_layer e = ''default'' then '' (inherited from default)''
                  else '' (from '' @ fv_layer e @ '')''
              | None \<Rightarrow>
                  if kd_fallback d \<noteq> [] then '' (inherited from '' @ kd_fallback d @ '')''
                  else '' (inherited from default)'')"

definition config_delete_message :: "fmt_env \<Rightarrow> string \<Rightarrow> gval option \<Rightarrow> string" where
  "config_delete_message fe k effective =
     (if has_prefix k ''plugins.'' then k @ '' deleted''
      else case effective of
        Some v \<Rightarrow> k @ '' reverted to default ('' @ fmt_v fe v @ '')''
      | None \<Rightarrow> k @ '' reverted to default'')"

definition populate_cli_args :: "string \<Rightarrow> string \<Rightarrow> store \<Rightarrow> store" where
  "populate_cli_args log_level addr s =
     (let c1 = (if log_level \<noteq> [] then AList.update ''LogLevel'' (FPtr ''string'' (Some (VStr log_level))) config_zero
                else config_zero);
          c2 = (if addr \<noteq> [] then AList.update ''SocketAddress'' (FPtr ''string'' (Some (VStr addr))) c1 else c1)
      in if log_level \<noteq> [] \<or> addr \<noteq> [] then must_set s ''cli args'' c2 else s)"

section \<open>Typing of the configuration\<close>

text \<open>
  The pointer fields hold values of their type: a \<open>*string\<close> a string, an \<open>*int\<close> an integer.
\<close>

fun val_typed :: "fval \<Rightarrow> bool" where
  "val_typed (FPtr t (Some v)) =
     (if t = ''string'' then (\<exists>s. v = VStr s) else if t = ''int'' then (\<exists>i. v = VInt i) else True)"
| "val_typed _ = True"

definition config_typed :: "strct \<Rightarrow> bool" where
  "config_typed c \<longleftrightarrow> of_type config_zero c \<and> list_all (\<lambda>(n, f). val_typed f) c"

definition config_store :: "store \<Rightarrow> bool" where
  "config_store s \<longleftrightarrow> store_of config_zero s \<and>
     (\<forall>n l. map_of (st_layers s) n = Some l \<longrightarrow> config_typed l)"

lemma config_zero_transparent: "transparent config_zero"
  by (simp add: transparent_def config_zero_def exported_def)

lemma config_zero_typed: "config_typed config_zero"
  by (simp add: config_typed_def) (simp add: config_zero_def)

lemma default_config_typed: "config_typed default_config"
  by (simp add: config_typed_def of_type_def) (simp add: config_zero_def default_config_def)

lemma config_typed_update:
  assumes "config_typed c" "map_of config_zero k = Some f" "fits f g" "val_typed g"
  shows "config_typed (AList.update k g c)"
proof -
  have "of_type config_zero (AList.update k g c)"
    using assms config_zero_transparent by (auto simp: config_typed_def transparent_def intro: of_type_update)
  moreover have "list_all (\<lambda>(n, f). val_typed f) (AList.update k g c)"
  proof -
    have "list_all (\<lambda>(n, f). val_typed f) c" using assms(1) by (simp add: config_typed_def)
    then show ?thesis by (induction c) (use assms(4) in auto)
  qed
  ultimately show ?thesis by (simp add: config_typed_def)
qed

lemma config_typed_plugins: "config_typed c \<Longrightarrow> config_typed (with_plugins m c)"
  unfolding with_plugins_def
  by (rule config_typed_update [where f = "FMap ''map[string]map[string]interface {}'' None"])
    (simp_all add: config_zero_def)

text \<open>Every key of the table names a pointer field of the type the table gives.\<close>

lemma config_keys_fields:
  assumes "map_of config_keys k = Some d"
  shows "map_of config_zero (kd_field d) = Some (FPtr (kd_type d) None) \<and> exported (kd_field d) \<and>
    (kd_type d = ''int'' \<or> kd_type d = ''string'') \<and> \<not> has_prefix k ''plugins.'' \<and>
    (kd_validate d \<noteq> None \<longrightarrow> kd_type d = ''string'')"
proof -
  have "list_all (\<lambda>(k, d). map_of config_zero (kd_field d) = Some (FPtr (kd_type d) None) \<and>
      exported (kd_field d) \<and> (kd_type d = ''int'' \<or> kd_type d = ''string'') \<and>
      \<not> has_prefix k ''plugins.'' \<and> (kd_validate d \<noteq> None \<longrightarrow> kd_type d = ''string'')) config_keys"
    by (simp add: config_keys_def config_zero_def plain_def_def exported_def)
  from this [unfolded list_all_iff, rule_format, OF map_of_SomeD [OF assms]]
  show ?thesis by simp
qed

lemma lookup_key_Inr:
  "\<not> has_prefix k ''plugins.'' \<Longrightarrow> lookup_key k = Inr d \<longleftrightarrow> map_of config_keys k = Some d"
  by (auto simp: lookup_key_def split: option.splits)

lemma st_set_typed:
  assumes "config_store s" "config_typed v" "st_set s n v = Inr s'"
  shows "config_store s'"
  using assms st_set_ok [of s v n s']
  by (auto simp: config_store_def store_of_def config_typed_def st_set_def split: if_splits)

lemma must_set_typed: "config_store s \<Longrightarrow> config_typed v \<Longrightarrow> config_store (must_set s n v)"
  by (auto simp: must_set_def intro: st_set_typed split: sum.splits)

lemma st_set_field_typed:
  assumes s: "config_store s" and f: "map_of config_zero fld = Some (FPtr t None)"
    and v: "val_typed (FPtr t v)"
  shows "config_store (snd (st_set_field s n fld (FPtr t v)))"
proof -
  have ok: "st_ok s" "st_zero s = config_zero" using s by (auto simp: config_store_def store_of_def)
  have "st_ok (snd (st_set_field s n fld (FPtr t v)))"
    by (rule st_set_field_ok [OF ok(1)]) (use f ok(2) in auto)
  moreover have "config_typed (AList.update fld (FPtr t v) l)" if "config_typed l" for l
    using config_typed_update [OF that f _ v] by simp
  ultimately show ?thesis
    using s config_zero_typed ok(2)
    by (auto simp: config_store_def store_of_def st_set_field_def Let_def split: option.splits if_splits)
qed

lemma st_get_typed: "config_store s \<Longrightarrow> config_store (snd (st_get s))"
  using st_get_ok [of s]
  by (auto simp: config_store_def store_of_def st_get_def split: option.splits)

lemma st_get_field_typed: "config_store s \<Longrightarrow> config_store (snd (st_get_field s fld))"
  using st_get_typed [of s] by (auto simp: st_get_field_def split: prod.splits)

lemma get_by_key_typed:
  assumes "config_store s"
  shows "config_store (snd (get_by_key s k))"
proof -
  have 1: "config_store s'" if "st_get_field s1 f = (r, s')" "config_store s1" for r s' s1 f
    using st_get_field_typed [OF that(2), of f] that(1) by simp
  have 2: "config_store (snd (get_plugin_by_key s k))"
    using st_get_typed [OF assms] by (auto simp: get_plugin_by_key_def split: prod.splits)
  show ?thesis
    using assms 2 by (auto simp: get_by_key_def split: sum.splits prod.splits option.splits dest: 1)
qed

lemma set_plugin_by_key_typed:
  assumes "config_store s"
  shows "config_store (snd (set_plugin_by_key s layer k v))"
proof -
  have "config_typed (case st_get_layer s layer of None \<Rightarrow> config_zero | Some l \<Rightarrow> l)"
    using assms config_zero_typed by (auto simp: st_get_layer_def config_store_def split: option.splits)
  then have "config_store (must_set s layer (with_plugins m
      (case st_get_layer s layer of None \<Rightarrow> config_zero | Some l \<Rightarrow> l)))" for m
    using assms by (blast intro: must_set_typed config_typed_plugins)
  then show ?thesis
    using assms by (auto simp: set_plugin_by_key_def Let_def must_set_def [symmetric] split: sum.splits)
qed

lemma delete_plugin_by_key_typed:
  assumes "config_store s"
  shows "config_store (snd (delete_plugin_by_key s layer k))"
proof -
  have "config_store (must_set s layer (with_plugins m lv))" if "st_get_layer s layer = Some lv" for lv m
  proof -
    have "config_typed lv" using assms that by (auto simp: st_get_layer_def config_store_def)
    then show ?thesis using assms by (blast intro: must_set_typed config_typed_plugins)
  qed
  then show ?thesis
    using assms by (auto simp: delete_plugin_by_key_def Let_def must_set_def [symmetric]
      split: sum.splits option.splits)
qed

lemma st_clear_layer_field_typed:
  assumes s: "config_store s" and c: "st_clear_layer_field s n fld = Inr s'"
    and f: "map_of config_zero fld = Some (FPtr t None)"
  shows "config_store s'"
proof -
  have z: "st_zero s = config_zero" "st_ok s" using s by (auto simp: config_store_def store_of_def)
  have "st_ok s'" by (rule st_clear_layer_field_ok [OF z(2) c])
  moreover have "config_typed (zero_field config_zero fld l)" if "config_typed l" for l
    using that config_typed_update [OF that f, of "FPtr t None"] f
    by (auto simp: zero_field_def split: option.splits)
  ultimately show ?thesis
    using s c z(1)
    by (auto simp: config_store_def store_of_def st_clear_layer_field_def split: if_splits option.splits)
qed

lemma delete_by_key_typed:
  assumes "config_store s"
  shows "config_store (snd (delete_by_key s layer k))"
proof -
  have "config_store s'" if "st_clear_layer_field s layer (kd_field d) = Inr s'"
    "map_of config_keys k = Some d" for d s'
    using st_clear_layer_field_typed [OF assms that(1)] config_keys_fields [OF that(2)] by blast
  then show ?thesis
    using assms delete_plugin_by_key_typed [OF assms, of layer k]
    by (auto simp: delete_by_key_def lookup_key_Inr split: sum.splits)
qed

lemma set_by_key_typed:
  assumes "config_store s"
  shows "config_store (snd (set_by_key s layer k v))"
proof (cases "has_prefix k ''plugins.''")
  case True
  then show ?thesis using set_plugin_by_key_typed [OF assms] by (simp add: set_by_key_def)
next
  case False
  have int: "config_store (snd (st_set_field s layer (kd_field d) (FPtr ''int'' (Some (VInt i)))))"
    if "map_of config_keys k = Some d" "kd_type d = ''int''" for d i
    using st_set_field_typed [OF assms, of "kd_field d" "''int''" "Some (VInt i)"] config_keys_fields [OF that(1)] that(2)
    by simp
  have str: "config_store (snd (st_set_field s layer (kd_field d) (FPtr ''string'' (Some (VStr w)))))"
    if "map_of config_keys k = Some d" "kd_type d = ''string''" for d w
    using st_set_field_typed [OF assms, of "kd_field d" "''string''" "Some (VStr w)"] config_keys_fields [OF that(1)] that(2)
    by simp
  show ?thesis
    using False assms by (auto simp: set_by_key_def lookup_key_Inr int str split: sum.splits option.splits)
qed

text \<open>What \<open>SetByKey\<close> stores for a value it accepts.\<close>

definition norm_value :: "key_def \<Rightarrow> string \<Rightarrow> gval" where
  "norm_value d v =
     (if kd_type d = ''int'' then VInt (the (atoi v))
      else if kd_validate d = None then VStr v else VStr (to_lower v))"

lemma set_by_key_Some:
  assumes k: "map_of config_keys k = Some d" and set: "set_by_key s layer k v = (None, s')"
  shows "st_set_field s layer (kd_field d) (FPtr (kd_type d) (Some (norm_value d v))) = (None, s')"
proof -
  from config_keys_fields [OF k] have d: "kd_type d = ''int'' \<or> kd_type d = ''string''"
    "\<not> has_prefix k ''plugins.''" "kd_validate d \<noteq> None \<longrightarrow> kd_type d = ''string''" by simp_all
  have "lookup_key k = Inr d" using k d(2) by (simp add: lookup_key_Inr)
  with set d show ?thesis
    by (auto simp: set_by_key_def norm_value_def split: option.splits if_splits)
qed

lemma get_by_key_defined:
  assumes k: "map_of config_keys k = Some d" and g: "map_of (fst (st_get s)) (kd_field d) = Some (FPtr t (Some v))"
  shows "fst (get_by_key s k) = Inr (FScalar t v)"
proof -
  have p: "\<not> has_prefix k ''plugins.''" using config_keys_fields [OF k] by simp
  have l: "lookup_key k = Inr d" using k p by (simp add: lookup_key_Inr)
  have gf: "st_get_field s (kd_field d) = (Inr (FPtr t (Some v)), snd (st_get s))"
    using g by (auto simp: st_get_field_def split: prod.splits)
  show ?thesis using p by (simp add: get_by_key_def l gf is_nil_value_def deref_value_def)
qed

section \<open>Setting, reading and deleting keys\<close>


text \<open>
  a set that \<open>SetByKey\<close> rejects (an unknown key, a value outside the enumeration, text
  that is no integer, an unknown layer, a malformed plugin key) leaves the store as it was.
\<close>

theorem set_by_key_rejected:
  assumes s: "config_store s" and set: "set_by_key s layer k v = (Some e, s')"
  shows "s' = s"
proof (cases "has_prefix k ''plugins.''")
  case True
  with set show ?thesis by (auto simp: set_by_key_def set_plugin_by_key_def Let_def split: sum.splits)
next
  case False
  have ok: "st_zero s = config_zero" "of_type config_zero l" if "map_of (st_layers s) layer = Some l" for l
    using s that by (auto simp: config_store_def store_of_def config_typed_def)
  have z: "st_zero s = config_zero" using s by (simp add: config_store_def store_of_def)
  have sf: "s' = s" if k: "map_of config_keys k = Some d"
    and f: "st_set_field s layer (kd_field d) (FPtr (kd_type d) w) = (Some e, s')" for d w
  proof -
    from config_keys_fields [OF k] have d: "map_of config_zero (kd_field d) = Some (FPtr (kd_type d) None)"
      "exported (kd_field d)" by simp_all
    have "\<exists>g. map_of l (kd_field d) = Some g \<and> field_type g = CHR ''*'' # kd_type d"
      if "map_of (st_layers s) layer = Some l" for l
      using of_type_lookup [OF ok(2) [OF that], of "kd_field d"] d(1) by (auto dest!: fits_type)
    then show ?thesis
      using f d z by (fastforce simp: st_set_field_def Let_def split: if_splits option.splits)
  qed
  show ?thesis
    using False set sf config_keys_fields [of k]
    by (auto simp: set_by_key_def lookup_key_Inr split: sum.splits option.splits if_splits)
qed

text \<open>What \<open>Get\<close> returns depends on the set layers alone.\<close>

lemma st_get_overlay: "st_ok s \<Longrightarrow> fst (st_get s) = st_overlay s"
  by (auto simp: st_get_def st_ok_def split: option.splits)

lemma st_overlay_cong:
  "st_zero s = st_zero t \<Longrightarrow> st_names s = st_names t \<Longrightarrow>
   map_of (st_layers s) = map_of (st_layers t) \<Longrightarrow> st_overlay s = st_overlay t"
  by (simp add: st_overlay_def)

lemma zero_after_update:
  assumes z: "transparent z" and l: "of_type z l" and f: "map_of z fld = Some f"
    and u: "case map_of l fld of None \<Rightarrow> True | Some g \<Rightarrow> \<not> is_defined g"
    and v: "fits f v"
  shows "zero_field z fld (AList.update fld v l) = l"
proof -
  from of_type_lookup [OF l, of fld] f obtain g where g: "map_of l fld = Some g" "fits f g" by auto
  with u transparentD [OF z f] have "g = f" by (auto intro: fits_undefined)
  have eq: "zero_field z fld (AList.update fld v l) = AList.update fld f (AList.update fld v l)"
    using f by (simp add: zero_field_def)
  have d: "distinct (map fst z)" using z by (simp add: transparent_def)
  show ?thesis
  proof (rule of_type_ext [OF d])
    show "of_type z (zero_field z fld (AList.update fld v l))"
      unfolding eq using l f v d by (blast intro: of_type_update fits_refl)
    show "map_of (zero_field z fld (AList.update fld v l)) k = map_of l k" for k
      unfolding eq using g \<open>g = f\<close> by simp
  qed (rule l)
qed

text \<open>
  deleting a key from a layer on which \<open>SetByKey\<close> just introduced it gives back the
  effective configuration from before, in every field.
\<close>

theorem delete_by_key_undoes_set:
  assumes s: "config_store s" and k: "map_of config_keys k = Some d"
    and unset: "st_get_layer_field s layer (kd_field d) = None"
    and set: "set_by_key s layer k v = (None, s1)" and del: "delete_by_key s1 layer k = (None, s2)"
  shows "fst (st_get s2) = fst (st_get s)"
proof -
  let ?f = "kd_field d"
  from s have ok: "st_ok s" and z: "st_zero s = config_zero" by (auto simp: config_store_def store_of_def)
  have s1: "config_store s1" using set_by_key_typed [OF s, of layer k v] set by simp
  have s2: "config_store s2" using delete_by_key_typed [OF s1, of layer k] del by simp
  from config_keys_fields [OF k] have kd: "map_of config_zero ?f = Some (FPtr (kd_type d) None)"
    "\<not> has_prefix k ''plugins.''" by simp_all
  from st_set_field_Some [OF set_by_key_Some [OF k set]] obtain l where
    l: "l = (case map_of (st_layers s) layer of None \<Rightarrow> st_zero s | Some l \<Rightarrow> l)" and
    s1': "map_of (st_layers s1) = (map_of (st_layers s))
        (layer \<mapsto> AList.update ?f (FPtr (kd_type d) (Some (norm_value d v))) l)"
      "st_names s1 = st_names s" "st_zero s1 = st_zero s" by blast
  from del have "st_clear_layer_field s1 layer ?f = Inr s2"
    using k kd(2) by (auto simp: delete_by_key_def lookup_key_def split: sum.splits)
  then have s2': "map_of (st_layers s2) = (map_of (st_layers s1))
        (layer \<mapsto> zero_field config_zero ?f (AList.update ?f (FPtr (kd_type d) (Some (norm_value d v))) l))"
      "st_names s2 = st_names s" "st_zero s2 = st_zero s"
    using s1' z by (auto simp: st_clear_layer_field_def split: if_splits option.splits)
  have tl: "of_type config_zero l" using ok z by (auto simp: l st_ok_def split: option.splits)
  have "zero_field config_zero ?f (AList.update ?f (FPtr (kd_type d) (Some (norm_value d v))) l) = l"
    using unset kd(1) z
    by (intro zero_after_update [OF config_zero_transparent tl kd(1)])
      (auto simp: st_get_layer_field_def l split: option.splits if_splits)
  with s2' s1' have L: "map_of (st_layers s2) = (map_of (st_layers s))(layer \<mapsto> l)" by simp
  have "st_overlay s2 = st_overlay s"
  proof (cases "map_of (st_layers s) layer")
    case None
    with L l s2' have "st_overlay s2 =
        st_overlay (s\<lparr>st_layers := AList.update layer (st_zero s) (st_layers s)\<rparr>)"
      by (intro st_overlay_cong) auto
    then show ?thesis using st_overlay_zero_layer [OF ok None] by simp
  next
    case (Some a)
    with L l s2' show ?thesis by (intro st_overlay_cong) auto
  qed
  then show ?thesis using ok s2 by (simp add: st_get_overlay config_store_def store_of_def)
qed

lemma st_names_set_by_key: "st_names (snd (set_by_key s layer k v)) = st_names s"
  by (auto simp: set_by_key_def set_plugin_by_key_def st_set_field_def st_set_def Let_def
      split: sum.splits option.splits)

lemma delete_by_key_ok:
  assumes s: "config_store s" and layer: "layer \<in> set (st_names s)"
    and k: "map_of config_keys k = Some d"
  shows "fst (delete_by_key s layer k) = None"
proof -
  from config_keys_fields [OF k] have d: "map_of config_zero (kd_field d) = Some (FPtr (kd_type d) None)"
    "exported (kd_field d)" "\<not> has_prefix k ''plugins.''" by simp_all
  have "\<exists>g. map_of l (kd_field d) = Some g" if "map_of (st_layers s) layer = Some l" for l
  proof -
    have "of_type config_zero l" using s that by (auto simp: config_store_def config_typed_def)
    from of_type_lookup [OF this, of "kd_field d"] d(1) show ?thesis by auto
  qed
  then show ?thesis
    using layer k d by (auto simp: delete_by_key_def lookup_key_def st_clear_layer_field_def
      st_known_def split: sum.splits option.splits if_splits)
qed

section \<open>Listing the keys\<close>

lemma last_field_Some:
  "last_field ls k = Some v \<Longrightarrow> \<exists>l \<in> set ls. map_of l k = Some v \<and> is_defined v"
  by (induction ls) (auto split: option.splits if_splits)

lemma last_field_defined:
  "l \<in> set ls \<Longrightarrow> map_of l k = Some v \<Longrightarrow> is_defined v \<Longrightarrow> \<exists>w. last_field ls k = Some w"
  by (induction ls) (auto split: option.splits if_splits)

text \<open>A store whose \<open>default\<close> layer is \<open>DefaultConfig\<close>, as \<open>NewStore\<close> leaves it.\<close>

definition hydrated :: "store \<Rightarrow> bool" where
  "hydrated s \<longleftrightarrow> config_store s \<and> ''default'' \<in> set (st_names s) \<and>
     map_of (st_layers s) ''default'' = Some default_config"

lemma config_field_eff:
  assumes s: "config_store s" and f: "map_of config_zero fld = Some (FPtr t None)"
    and t: "t = ''string'' \<or> t = ''int''"
  shows "\<exists>v. map_of (fst (st_get s)) fld = Some (FPtr t v) \<and> val_typed (FPtr t v)"
proof -
  from s have ok: "st_ok s" and z: "st_zero s = config_zero" by (auto simp: config_store_def store_of_def)
  let ?ls = "List.map_filter (map_of (st_layers s)) (st_names s)"
  have "fst (st_get s) = st_combine config_zero ?ls"
    using cst.eff_value [of "config_zero" s] s by (simp add: config_store_def)
  then have g: "map_of (fst (st_get s)) fld =
      Some (case last_field ?ls fld of None \<Rightarrow> FPtr t None | Some v \<Rightarrow> v)"
    using combine_lookup [OF config_zero_transparent f] st_ok_map_filter [OF ok] z by simp
  show ?thesis
  proof (cases "last_field ?ls fld")
    case None
    with g show ?thesis by simp
  next
    case (Some w)
    from last_field_Some [OF this] obtain l where l: "l \<in> set ?ls" "map_of l fld = Some w" by blast
    then have "config_typed l" using s by (auto simp: config_store_def List.map_filter_def)
    then have tl: "of_type config_zero l" "list_all (\<lambda>(n, f). val_typed f) l" by (auto simp: config_typed_def)
    from of_type_lookup [OF tl(1), of fld] f l(2) have "fits (FPtr t None) w" by simp
    then obtain v where w: "w = FPtr t v" by (cases w) auto
    from tl(2) l(2) have "val_typed w" by (auto simp: list_all_iff dest!: map_of_SomeD)
    with g Some w show ?thesis by simp
  qed
qed

lemma hydrated_field_eff:
  assumes s: "hydrated s" and f: "map_of config_zero fld = Some (FPtr t None)"
    and t: "t = ''string'' \<or> t = ''int''" and d: "map_of default_config fld = Some (FPtr t (Some x))"
  shows "\<exists>v. map_of (fst (st_get s)) fld = Some (FPtr t (Some v)) \<and> val_typed (FPtr t (Some v))"
proof -
  let ?ls = "List.map_filter (map_of (st_layers s)) (st_names s)"
  from s have cs: "config_store s" by (simp add: hydrated_def)
  then have ok: "st_ok s" and z: "st_zero s = config_zero" by (auto simp: config_store_def store_of_def)
  have "default_config \<in> set ?ls" using s by (force simp: hydrated_def List.map_filter_def)
  from last_field_defined [OF this d] obtain w where w: "last_field ?ls fld = Some w" by auto
  have "fst (st_get s) = st_combine config_zero ?ls"
    using cst.eff_value [of "config_zero" s] cs by (simp add: config_store_def)
  then have "map_of (fst (st_get s)) fld = Some w"
    using combine_lookup [OF config_zero_transparent f] st_ok_map_filter [OF ok] z w by simp
  moreover have "is_defined w" using last_field_Some [OF w] by blast
  moreover obtain v where "map_of (fst (st_get s)) fld = Some (FPtr t v)" "val_typed (FPtr t v)"
    using config_field_eff [OF cs f t] by blast
  ultimately show ?thesis by (cases v) auto
qed

lemma get_by_key_plain:
  assumes h: "hydrated s" and k: "map_of config_keys k = Some d"
    and dd: "map_of default_config (kd_field d) = Some (FPtr (kd_type d) (Some x))"
  shows "\<exists>v. cfg_ptr (fst (st_get s)) (kd_field d) = Some v \<and> val_typed (FPtr (kd_type d) (Some v)) \<and>
    fst (get_by_key s k) = Inr (FScalar (kd_type d) v)"
proof -
  from config_keys_fields [OF k] have z: "map_of config_zero (kd_field d) = Some (FPtr (kd_type d) None)"
    "kd_type d = ''string'' \<or> kd_type d = ''int''" by auto
  from hydrated_field_eff [OF h z dd] obtain v where
    v: "map_of (fst (st_get s)) (kd_field d) = Some (FPtr (kd_type d) (Some v))"
      "val_typed (FPtr (kd_type d) (Some v))" by blast
  from get_by_key_defined [OF k v(1)] v show ?thesis by (auto simp: cfg_ptr_def)
qed

lemma get_by_key_fallback:
  assumes h: "hydrated s" and k: "map_of config_keys k = Some d" and fb: "kd_fallback d = ''error_threshold''"
    and ty: "kd_type d = ''int''"
  shows "fst (get_by_key s k) = Inr (FScalar ''int''
     (VInt (effective_int (cfg_ptr (fst (st_get s)) (kd_field d))
        (deref_int (cfg_ptr (fst (st_get s)) ''ErrorThreshold'')))))"
proof -
  from h have cs: "config_store s" by (simp add: hydrated_def)
  from config_keys_fields [OF k] ty have z: "map_of config_zero (kd_field d) = Some (FPtr ''int'' None)"
    "\<not> has_prefix k ''plugins.''" by auto
  from config_field_eff [OF cs z(1)] obtain v where
    v: "map_of (fst (st_get s)) (kd_field d) = Some (FPtr ''int'' v)" "val_typed (FPtr ''int'' v)" by auto
  have e: "map_of config_zero ''ErrorThreshold'' = Some (FPtr ''int'' None)"
    "map_of default_config ''ErrorThreshold'' = Some (FPtr ''int'' (Some (VInt 5)))"
    by (simp_all add: config_zero_def default_config_def)
  from hydrated_field_eff [OF h e(1) _ e(2)] obtain w where
    w: "map_of (fst (st_get s)) ''ErrorThreshold'' = Some (FPtr ''int'' (Some (VInt w)))" by auto
  show ?thesis
  proof (cases v)
    case (Some x)
    with v obtain i where "v = Some (VInt i)" by auto
    with get_by_key_defined [OF k, of s "''int''"] v(1) show ?thesis by (simp add: cfg_ptr_def)
  next
    case None
    have l: "lookup_key k = Inr d" using k z(2) by (simp add: lookup_key_Inr)
    have ek: "map_of config_keys ''error_threshold'' = Some (plain_def ''ErrorThreshold'' ''int'')"
      by (simp add: config_keys_def)
    have g1: "st_get_field s (kd_field d) = (Inr (FPtr ''int'' None), snd (st_get s))"
      using v(1) None by (auto simp: st_get_field_def split: prod.splits)
    have "fst (st_get (snd (st_get s))) = fst (st_get s)"
      by (rule cst.eff_cache_transparent [of "config_zero"]) (use cs in \<open>simp add: config_store_def\<close>)
    then have g2: "fst (st_get_field (snd (st_get s)) ''ErrorThreshold'') = Inr (FPtr ''int'' (Some (VInt w)))"
      using w by (auto simp: st_get_field_def split: prod.splits)
    show ?thesis
      using v None w g2 z(2)
      by (auto simp: get_by_key_def l g1 fb ek is_nil_value_def plain_def_def cfg_ptr_def deref_value_def
        split: prod.splits sum.splits)
  qed
qed

text \<open>
  \<open>AllKeys\<close> and \<open>GetByKey\<close> agree. In a store whose \<open>default\<close> layer holds the defaults,
  every key of the table is listed with the value \<open>GetByKey\<close> returns for it, the two
  thresholds that fall back to \<open>error_threshold\<close> included.
\<close>

theorem all_keys_get_by_key:
  assumes h: "hydrated s" and k: "map_of config_keys k = Some d"
  shows "\<exists>v. map_of (fst (all_keys s)) k = Some v \<and> fst (get_by_key s k) = Inr (FScalar (kd_type d) v)"
proof -
  note ak = all_keys_def Let_def split_beta
  have plain: "\<exists>v. cfg_ptr (fst (st_get s)) (kd_field d) = Some v \<and> val_typed (FPtr (kd_type d) (Some v)) \<and>
    fst (get_by_key s k) = Inr (FScalar (kd_type d) v)" if "kd_fallback d = []"
  proof -
    have "list_all (\<lambda>(k, d). kd_fallback d = [] \<longrightarrow>
        (\<exists>x. map_of default_config (kd_field d) = Some (FPtr (kd_type d) (Some x)))) config_keys"
      by (simp add: config_keys_def plain_def_def default_config_def)
    from this [unfolded list_all_iff, rule_format, OF map_of_SomeD [OF k]] that
    obtain x where "map_of default_config (kd_field d) = Some (FPtr (kd_type d) (Some x))" by auto
    from get_by_key_plain [OF h k this] show ?thesis .
  qed
  show ?thesis
    using map_of_SomeD [OF k, unfolded config_keys_def] plain get_by_key_fallback [OF h k]
    by (simp only: list.set insert_iff empty_iff prod.inject) (elim disjE conjE; auto simp: plain_def_def ak)
qed

section \<open>Plugin keys, loading\<close>


text \<open>A namespace may contain dots, a field may not: the last dot separates the two.\<close>

lemma last_index_byte_snoc:
  "c \<notin> set b \<Longrightarrow> last_index_byte (a @ c # b) c = Some (length a)"
proof -
  assume "c \<notin> set b"
  have "find_index_from i (\<lambda>x. x = c) (xs @ c # ys) = Some (i + length xs)" if "c \<notin> set xs" for i xs ys
    using that by (induction xs arbitrary: i) auto
  from this [of "rev b" 0 "rev a"] \<open>c \<notin> set b\<close> show ?thesis
    by (simp add: last_index_byte_def index_byte_def find_index_def)
qed

text \<open>
  \<open>SplitPluginKey\<close> inverts the way \<open>AllKeys\<close> writes a plugin key: \<open>plugins.ns.field\<close>
  splits into \<open>ns\<close>, dots included, and \<open>field\<close>.
\<close>

theorem split_plugin_key_roundtrip:
  assumes "ns \<noteq> []" "CHR ''.'' \<notin> set fld"
  shows "split_plugin_key (''plugins.'' @ ns @ ''.'' @ fld) = Inr (ns, fld)"
proof -
  have "split2 CHR ''.'' (''plugins.'' @ ns @ ''.'' @ fld) = (''plugins'', Some (ns @ ''.'' @ fld))"
    using split2_Some [of "CHR ''.''" "''plugins''" "ns @ ''.'' @ fld"] by simp
  moreover have "last_index_byte (ns @ ''.'' @ fld) CHR ''.'' = Some (length ns)"
    using last_index_byte_snoc [OF assms(2), of ns] by simp
  ultimately show ?thesis using assms by (cases ns) (auto simp: split_plugin_key_def)
qed

text \<open>
  plugin values round trip as well: on a layer of the store that no later layer's
  plugin map hides, \<open>GetByKey\<close> of a plugin key returns the string \<open>SetByKey\<close> wrote.
\<close>

theorem set_plugin_get_plugin:
  assumes s: "config_store s" and key: "split_plugin_key k = Inr (ns, fld)" "has_prefix k ''plugins.''"
    and set: "set_by_key s layer k v = (None, s')"
    and names: "st_names s = pre @ layer # post" "layer \<notin> set post"
    and above: "\<And>m. m \<in> set post \<Longrightarrow> st_get_layer_field s m ''Plugins'' = None"
  shows "fst (get_by_key s' k) = Inr (FScalar ''any'' (VStr v))"
proof -
  have s': "config_store s'" using set_by_key_typed [OF s, of layer k v] set by simp
  then have ok: "st_ok s'" "st_zero s' = config_zero" by (auto simp: config_store_def store_of_def)
  have kn: "st_known s layer" using names(1) by (simp add: st_known_def)
  from set key kn obtain lv ps nc where s1: "s' = s\<lparr>st_layers := AList.update layer
        (with_plugins (Some (AList.update ns (VMap (AList.update fld (VStr v) nc)) ps)) lv) (st_layers s),
        st_cache := None\<rparr>"
    by (auto simp: set_by_key_def set_plugin_by_key_def Let_def st_set_def)
  let ?P = "AList.update ns (VMap (AList.update fld (VStr v) nc)) ps"
  let ?F = "FMap ''map[string]map[string]interface {}'' (Some ?P)"
  let ?ls = "List.map_filter (map_of (st_layers s')) (st_names s')"
  have "last_field (List.map_filter (map_of (st_layers s')) post) ''Plugins'' = None"
  proof (rule last_field_none)
    fix m assume m: "m \<in> set post"
    with names(2) have "map_of (st_layers s') m = map_of (st_layers s) m" by (auto simp: s1)
    with above [OF m] show "case map_of (st_layers s') m of None \<Rightarrow> True
       | Some l \<Rightarrow> (case map_of l ''Plugins'' of None \<Rightarrow> True | Some v \<Rightarrow> \<not> is_defined v)"
      by (auto simp: st_get_layer_field_def split: option.splits if_splits)
  qed
  moreover have "map_of (st_layers s') layer = Some (with_plugins (Some ?P) lv)" by (simp add: s1)
  then have "?ls = List.map_filter (map_of (st_layers s')) pre @ with_plugins (Some ?P) lv #
      List.map_filter (map_of (st_layers s')) post"
    using names(1) by (simp add: List.map_filter_def) (simp add: s1)
  ultimately have lf: "last_field ?ls ''Plugins'' = Some ?F"
    by (simp add: last_field_append with_plugins_def)
  have z: "map_of config_zero ''Plugins'' = Some (FMap ''map[string]map[string]interface {}'' None)"
    by (simp add: config_zero_def)
  have "fst (st_get s') = st_combine config_zero ?ls"
    using cst.eff_value [of "config_zero" s'] s' by (simp add: config_store_def)
  then have "map_of (fst (st_get s')) ''Plugins'' = Some ?F"
    using combine_lookup [OF config_zero_transparent z] st_ok_map_filter [OF ok(1)] ok(2) lf by simp
  then show ?thesis
    using key by (auto simp: get_by_key_def get_plugin_by_key_def cfg_plugins_def ns_map_def split: prod.splits)
qed

section \<open>Concrete stores\<close>

text \<open>The store of a daemon without a configuration file.\<close>

definition sample_store :: store where
  "sample_store = must_set (must_set (new_store config_zero [''default'', ''file'', ''cli args''])
     ''default'' default_config) ''file'' config_zero"

lemmas sample_simps = sample_store_def must_set_def new_store_def st_set_def st_known_def

lemma sample_store_typed: "config_store sample_store"
  unfolding sample_store_def
  using new_store_ok [OF config_zero_transparent]
  by (intro must_set_typed config_zero_typed default_config_typed)
    (simp add: config_store_def store_of_def new_store_def)

lemma sample_store_hydrated: "hydrated sample_store"
  using sample_store_typed by (simp add: hydrated_def) (simp add: sample_simps)

lemma sample_set_log_level:
  "fst (set_by_key sample_store ''file'' ''log_level'' ''INFO'') = None"
  by (simp add: set_by_key_def lookup_key_def config_keys_def plain_def_def valid_log_levels_def
      to_lower_def lower_char_def char_of_eq_iff st_set_field_def sample_simps config_zero_def exported_def)


theorem set_by_key_rejected_witness:
  "snd (set_by_key sample_store ''file'' ''max_queue_size'' ''many'') = sample_store"
proof (rule set_by_key_rejected [OF sample_store_typed])
  show "set_by_key sample_store ''file'' ''max_queue_size'' ''many'' =
    (Some (''invalid value for max_queue_size: expected integer, got '' @ go_quote ''many''),
     snd (set_by_key sample_store ''file'' ''max_queue_size'' ''many''))"
    by (simp add: set_by_key_def lookup_key_def config_keys_def plain_def_def atoi_def is_digit_def)
qed

theorem delete_by_key_undoes_set_witness:
  "fst (st_get (snd (delete_by_key (snd (set_by_key sample_store ''file'' ''log_level'' ''INFO''))
     ''file'' ''log_level''))) = fst (st_get sample_store)"
proof (rule delete_by_key_undoes_set [OF sample_store_typed])
  show "map_of config_keys ''log_level'' =
      Some ((plain_def ''LogLevel'' ''string'')\<lparr>kd_validate := Some valid_log_levels\<rparr>)"
    by (simp add: config_keys_def)
  show "set_by_key sample_store ''file'' ''log_level'' ''INFO'' =
        (None, snd (set_by_key sample_store ''file'' ''log_level'' ''INFO''))"
    using sample_set_log_level by (metis prod.collapse)
  have "config_store (snd (set_by_key sample_store ''file'' ''log_level'' ''INFO''))"
    by (rule set_by_key_typed [OF sample_store_typed])
  moreover have "''file'' \<in> set (st_names (snd (set_by_key sample_store ''file'' ''log_level'' ''INFO'')))"
    by (simp add: st_names_set_by_key sample_simps)
  ultimately have "fst (delete_by_key (snd (set_by_key sample_store ''file'' ''log_level'' ''INFO''))
      ''file'' ''log_level'') = None"
    by (rule delete_by_key_ok) (simp add: config_keys_def)
  then show "delete_by_key (snd (set_by_key sample_store ''file'' ''log_level'' ''INFO''))
      ''file'' ''log_level'' = (None, snd (delete_by_key
        (snd (set_by_key sample_store ''file'' ''log_level'' ''INFO'')) ''file'' ''log_level''))"
    by (metis prod.collapse)
qed (simp add: sample_simps st_get_layer_field_def config_zero_def plain_def_def)

theorem all_keys_get_by_key_witness:
  "\<exists>v. map_of (fst (all_keys sample_store)) ''debounce'' = Some v \<and>
     fst (get_by_key sample_store ''debounce'') = Inr (FScalar ''string'' v)"
  using all_keys_get_by_key [OF sample_store_hydrated, of "''debounce''" "plain_def ''Debounce'' ''string''"]
  by (simp add: config_keys_def plain_def_def)


theorem split_plugin_key_roundtrip_witness:
  "split_plugin_key ''plugins.recur.cron.tz'' = Inr (''recur.cron'', ''tz'')"
  using split_plugin_key_roundtrip [of "''recur.cron''" "''tz''"] by simp

theorem set_plugin_get_plugin_witness:
  "fst (get_by_key (snd (set_by_key sample_store ''file'' ''plugins.cron.tz'' ''UTC''))
     ''plugins.cron.tz'') = Inr (FScalar ''any'' (VStr ''UTC''))"
proof (rule set_plugin_get_plugin [OF sample_store_typed,
    where pre = "[''default'']" and post = "[''cli args'']"])
  show "split_plugin_key ''plugins.cron.tz'' = Inr (''cron'', ''tz'')"
    using split_plugin_key_roundtrip [of "''cron''" "''tz''"] by simp
  show "set_by_key sample_store ''file'' ''plugins.cron.tz'' ''UTC'' =
     (None, snd (set_by_key sample_store ''file'' ''plugins.cron.tz'' ''UTC''))"
    using split_plugin_key_roundtrip [of "''cron''" "''tz''"]
    by (simp add: set_by_key_def set_plugin_by_key_def Let_def)
qed (simp_all add: sample_simps st_get_layer_field_def)

end
