(* ===== verification/Map_Store.thy ===== *)
theory Map_Store
  imports Layered_Store
begin

text \<open>
  \<open>pkg/config/map_store.go\<close>: ordered named layers of dynamic maps with a cached overlay.
  Every operation runs under the store's mutex, so one operation is one step of the state.
\<close>

record map_store =
  ms_names :: "string list"
  ms_layers :: "(string, gmap) amap"
  ms_cache :: "gmap option"

record layer_value =
  lv_layer :: string
  lv_value :: gval
  lv_defined :: bool

definition new_map_store :: "string list \<Rightarrow> map_store" where
  "new_map_store ns = \<lparr>ms_names = ns, ms_layers = [], ms_cache = None\<rparr>"

definition ms_known :: "map_store \<Rightarrow> string \<Rightarrow> bool" where
  "ms_known s n \<longleftrightarrow> n \<in> set (ms_names s)"

definition ms_set :: "map_store \<Rightarrow> string \<Rightarrow> gmap \<Rightarrow> map_store result" where
  "ms_set s n v =
     (if \<not> ms_known s n then Inl (''unknown layer: '' @ n)
      else Inr (s\<lparr>ms_layers := AList.update n v (ms_layers s), ms_cache := None\<rparr>))"

definition ms_set_field :: "map_store \<Rightarrow> string \<Rightarrow> string \<Rightarrow> gval \<Rightarrow> map_store" where
  "ms_set_field s n k v =
     (if \<not> ms_known s n then s
      else let m = (case map_of (ms_layers s) n of None \<Rightarrow> [] | Some m \<Rightarrow> m)
           in s\<lparr>ms_layers := AList.update n (AList.update k v m) (ms_layers s), ms_cache := None\<rparr>)"

definition ms_overlay :: "map_store \<Rightarrow> gmap option" where
  "ms_overlay s = overlay_maps (map Some (List.map_filter (map_of (ms_layers s)) (ms_names s)))"

text \<open>
  \<open>Get\<close>: the cache when there is one, else the overlay, which is cached. An overlay of no
  layers is the nil map, which leaves the cache unset.
\<close>

definition ms_get :: "map_store \<Rightarrow> gmap option \<times> map_store" where
  "ms_get s =
     (case ms_cache s of
        Some c \<Rightarrow> (Some c, s)
      | None \<Rightarrow> (ms_overlay s, s\<lparr>ms_cache := ms_overlay s\<rparr>))"

definition ms_get_field :: "map_store \<Rightarrow> string \<Rightarrow> gval option \<times> map_store" where
  "ms_get_field s k =
     (case ms_get s of (m, s') \<Rightarrow> ((case m of None \<Rightarrow> None | Some m \<Rightarrow> map_of m k), s'))"

definition ms_get_layer :: "map_store \<Rightarrow> string \<Rightarrow> gmap option" where
  "ms_get_layer s n = map_of (ms_layers s) n"

definition ms_get_layer_field :: "map_store \<Rightarrow> string \<Rightarrow> string \<Rightarrow> gval option" where
  "ms_get_layer_field s n k =
     (case map_of (ms_layers s) n of None \<Rightarrow> None | Some m \<Rightarrow> map_of m k)"

definition ms_has :: "map_store \<Rightarrow> string \<Rightarrow> bool" where
  "ms_has s n \<longleftrightarrow> map_of (ms_layers s) n \<noteq> None"

definition ms_clear :: "map_store \<Rightarrow> string \<Rightarrow> map_store" where
  "ms_clear s n = s\<lparr>ms_layers := AList.delete n (ms_layers s), ms_cache := None\<rparr>"

definition ms_clear_field :: "map_store \<Rightarrow> string \<Rightarrow> map_store" where
  "ms_clear_field s k =
     s\<lparr>ms_layers := amap_map (\<lambda>n m. AList.delete k m) (ms_layers s), ms_cache := None\<rparr>"

definition ms_clear_layer_field :: "map_store \<Rightarrow> string \<Rightarrow> string \<Rightarrow> map_store" where
  "ms_clear_layer_field s n k =
     (case map_of (ms_layers s) n of
        None \<Rightarrow> s\<lparr>ms_cache := None\<rparr>
      | Some m \<Rightarrow> s\<lparr>ms_layers := AList.update n (AList.delete k m) (ms_layers s), ms_cache := None\<rparr>)"

definition ms_inspect :: "map_store \<Rightarrow> string \<Rightarrow> layer_value list" where
  "ms_inspect s k =
     map (\<lambda>n. case ms_get_layer_field s n k of
                None \<Rightarrow> \<lparr>lv_layer = n, lv_value = VNil, lv_defined = False\<rparr>
              | Some v \<Rightarrow> \<lparr>lv_layer = n, lv_value = v, lv_defined = True\<rparr>)
         (rev (ms_names s))"

section \<open>Invariant\<close>

text \<open>The cache, when set, is the overlay of the layers; every layer is a map.\<close>

definition ms_ok :: "map_store \<Rightarrow> bool" where
  "ms_ok s \<longleftrightarrow> amap_ok (ms_layers s) \<and> (\<forall>(n, m) \<in> set (ms_layers s). amap_ok m) \<and>
     (\<forall>c. ms_cache s = Some c \<longrightarrow> ms_overlay s = Some c)"

lemma ms_ok_layers:
  "ms_ok s \<longleftrightarrow> amap_ok (ms_layers s) \<and> (\<forall>n m. map_of (ms_layers s) n = Some m \<longrightarrow> amap_ok m) \<and>
     (\<forall>c. ms_cache s = Some c \<longrightarrow> ms_overlay s = Some c)"
  by (auto simp: ms_ok_def amap_in_iff)

lemma new_map_store_ok [simp]: "ms_ok (new_map_store ns)"
  by (simp add: new_map_store_def ms_ok_def)

lemma ms_set_ok: "ms_ok s \<Longrightarrow> amap_ok v \<Longrightarrow> ms_set s n v = Inr s' \<Longrightarrow> ms_ok s'"
  by (auto simp: ms_set_def ms_ok_layers split: if_splits)

lemma ms_set_field_ok: "ms_ok s \<Longrightarrow> ms_ok (ms_set_field s n k v)"
  by (auto simp: ms_set_field_def ms_ok_layers Let_def split: if_splits option.splits)

lemma ms_get_ok: "ms_ok s \<Longrightarrow> ms_ok (snd (ms_get s))"
  by (auto simp: ms_get_def ms_ok_layers ms_overlay_def split: option.splits)

lemma ms_clear_ok: "ms_ok s \<Longrightarrow> ms_ok (ms_clear s n)"
  by (auto simp: ms_clear_def ms_ok_layers split: if_splits)

lemma ms_clear_field_ok: "ms_ok s \<Longrightarrow> ms_ok (ms_clear_field s k)"
  by (auto simp: ms_clear_field_def ms_ok_layers)

lemma ms_clear_layer_field_ok: "ms_ok s \<Longrightarrow> ms_ok (ms_clear_layer_field s n k)"
  by (auto simp: ms_clear_layer_field_def ms_ok_layers split: option.splits if_splits)

definition ms_combine :: "gmap list \<Rightarrow> gmap option" where
  "ms_combine ms = overlay_maps (map Some ms)"

interpretation mst: layered_store ms_names "\<lambda>s. map_of (ms_layers s)" ms_set ms_clear ms_get
  ms_combine ms_ok amap_ok
proof unfold_locales
  show "n \<in> set (ms_names s) \<Longrightarrow> \<exists>s'. ms_set s n v = Inr s'" for n s v
    by (simp add: ms_set_def ms_known_def)
  show "n \<notin> set (ms_names s) \<Longrightarrow> \<exists>e. ms_set s n v = Inl e" for n s v
    by (simp add: ms_set_def ms_known_def)
  show "ms_set s n v = Inr s' \<Longrightarrow> map_of (ms_layers s') = (map_of (ms_layers s))(n \<mapsto> v)" for s n v s'
    by (auto simp: ms_set_def fun_eq_iff split: if_splits)
  show "ms_set s n v = Inr s' \<Longrightarrow> ms_names s' = ms_names s" for s n v s'
    by (auto simp: ms_set_def split: if_splits)
  show "ms_ok s \<Longrightarrow> amap_ok v \<Longrightarrow> ms_set s n v = Inr s' \<Longrightarrow> ms_ok s'" for s v n s'
    by (rule ms_set_ok)
  show "map_of (ms_layers (ms_clear s n)) = (map_of (ms_layers s))(n := None)" for s n
    by (simp add: ms_clear_def fun_eq_iff)
  show "ms_names (ms_clear s n) = ms_names s" for s n
    by (simp add: ms_clear_def)
  show "ms_ok s \<Longrightarrow> ms_ok (ms_clear s n)" for s n
    by (rule ms_clear_ok)
  show "ms_ok s \<Longrightarrow> fst (ms_get s) = ms_combine (List.map_filter (map_of (ms_layers s)) (ms_names s))" for s
    by (auto simp: ms_get_def ms_ok_def ms_combine_def ms_overlay_def split: option.splits)
  show "map_of (ms_layers (snd (ms_get s))) = map_of (ms_layers s)" for s
    by (auto simp: ms_get_def split: option.splits)
  show "ms_names (snd (ms_get s)) = ms_names s" for s
    by (auto simp: ms_get_def split: option.splits)
  show "ms_ok s \<Longrightarrow> ms_ok (snd (ms_get s))" for s
    by (rule ms_get_ok)
qed

text \<open>
  The effective value of a key no layer maps to a nested map is the first defined entry of
  \<open>Inspect\<close>, which lists the layers from the most specific.
\<close>

definition plain_key :: "map_store \<Rightarrow> string \<Rightarrow> bool" where
  "plain_key s k \<longleftrightarrow>
     (\<forall>n m v. map_of (ms_layers s) n = Some m \<longrightarrow> map_of m k = Some v \<longrightarrow> as_map v = None)"

lemma last_defined_inspect:
  "last_defined (map Some (List.map_filter f ns)) k =
     map_option lv_value (find lv_defined
       (map (\<lambda>n. case (case f n of None \<Rightarrow> None | Some m \<Rightarrow> map_of m k) of
                    None \<Rightarrow> \<lparr>lv_layer = n, lv_value = VNil, lv_defined = False\<rparr>
                  | Some v \<Rightarrow> \<lparr>lv_layer = n, lv_value = v, lv_defined = True\<rparr>) (rev ns)))"
proof (induction ns rule: rev_induct)
  case Nil
  then show ?case by (simp add: List.map_filter_def)
next
  case (snoc n ns)
  then show ?case
    by (auto simp: List.map_filter_def last_defined_append split: option.splits)
qed

lemma ms_get_field_inspect:
  assumes "ms_ok s" "plain_key s k"
  shows "fst (ms_get_field s k) = map_option lv_value (find lv_defined (ms_inspect s k))"
proof -
  let ?ls = "List.map_filter (map_of (ms_layers s)) (ms_names s)"
  have ls: "\<exists>n. map_of (ms_layers s) n = Some m" if "m \<in> set ?ls" for m
    using that by (auto simp: List.map_filter_def)
  have ok: "layers_ok (map Some ?ls)"
    using assms(1) ls by (auto simp: layers_ok_def ms_ok_layers)
  have plain: "case map_of m k of None \<Rightarrow> True | Some v \<Rightarrow> as_map v = None"
    if "Some m \<in> set (map Some ?ls)" for m
    using that ls assms(2) by (auto simp: plain_key_def split: option.splits)
  have "fst (ms_get_field s k) =
      (case overlay_maps (map Some ?ls) of None \<Rightarrow> None | Some r \<Rightarrow> map_of r k)"
    using mst.eff_value [OF assms(1)]
    by (cases "ms_get s") (simp add: ms_get_field_def ms_combine_def)
  also have "\<dots> = last_defined (map Some ?ls) k"
    by (rule overlay_maps_lookup_plain [OF ok plain])
  also have "\<dots> = map_option lv_value (find lv_defined (ms_inspect s k))"
    unfolding last_defined_inspect ms_inspect_def ms_get_layer_field_def ..
  finally show ?thesis .
qed

end
