(* ===== verification/Sha256.thy ===== *)
theory Sha256
  imports Go_Values
begin

unbundle bit_operations_syntax

text \<open>
  \<open>crypto/sha256\<close> and \<open>encoding/hex\<close>, which entity and plugin identifiers are made of:
  padding to 512-bit blocks, the 64-round compression on 32-bit words, and lowercase
  hexadecimal of the digest bytes. A 32-bit word is a natural number below \<open>2 ^ 32\<close>, with the
  wrap-around of addition and of the left shift written out.
\<close>

type_synonym w32 = nat

definition add32 :: "w32 \<Rightarrow> w32 \<Rightarrow> w32" where
  "add32 x y = (x + y) mod 4294967296"

definition rotr :: "nat \<Rightarrow> w32 \<Rightarrow> w32" where
  "rotr n x = x div 2 ^ n + (x * 2 ^ (32 - n)) mod 4294967296"

definition sha_ch :: "w32 \<Rightarrow> w32 \<Rightarrow> w32 \<Rightarrow> w32" where
  "sha_ch x y z = (x AND y) XOR ((4294967295 - x) AND z)"

definition sha_maj :: "w32 \<Rightarrow> w32 \<Rightarrow> w32 \<Rightarrow> w32" where
  "sha_maj x y z = (x AND y) XOR (x AND z) XOR (y AND z)"

definition big_sigma0 :: "w32 \<Rightarrow> w32" where
  "big_sigma0 x = rotr 2 x XOR rotr 13 x XOR rotr 22 x"

definition big_sigma1 :: "w32 \<Rightarrow> w32" where
  "big_sigma1 x = rotr 6 x XOR rotr 11 x XOR rotr 25 x"

definition small_sigma0 :: "w32 \<Rightarrow> w32" where
  "small_sigma0 x = rotr 7 x XOR rotr 18 x XOR (x div 2 ^ 3)"

definition small_sigma1 :: "w32 \<Rightarrow> w32" where
  "small_sigma1 x = rotr 17 x XOR rotr 19 x XOR (x div 2 ^ 10)"

definition sha_k :: "w32 list" where
  "sha_k = [
    1116352408, 1899447441, 3049323471, 3921009573, 961987163, 1508970993, 2453635748, 2870763221,
    3624381080, 310598401, 607225278, 1426881987, 1925078388, 2162078206, 2614888103, 3248222580,
    3835390401, 4022224774, 264347078, 604807628, 770255983, 1249150122, 1555081692, 1996064986,
    2554220882, 2821834349, 2952996808, 3210313671, 3336571891, 3584528711, 113926993, 338241895,
    666307205, 773529912, 1294757372, 1396182291, 1695183700, 1986661051, 2177026350, 2456956037,
    2730485921, 2820302411, 3259730800, 3345764771, 3516065817, 3600352804, 4094571909, 275423344,
    430227734, 506948616, 659060556, 883997877, 958139571, 1322822218, 1537002063, 1747873779,
    1955562222, 2024104815, 2227730452, 2361852424, 2428436474, 2756734187, 3204031479, 3329325298]"

text \<open>
  A round consumes one round constant. \<open>win\<close> is the window of the next sixteen message
  schedule words, oldest first; the word that enters it is
  \<open>\<sigma>1(w14) + w9 + \<sigma>0(w1) + w0\<close>.
\<close>

type_synonym sha_state = "w32 \<times> w32 \<times> w32 \<times> w32 \<times> w32 \<times> w32 \<times> w32 \<times> w32"

fun sha_mix :: "w32 \<Rightarrow> w32 \<Rightarrow> sha_state \<Rightarrow> sha_state" where
  "sha_mix t1 t2 (a, b, c, d, e, f, g, h) = (add32 t1 t2, a, b, c, add32 d t1, e, f, g)"

fun sha_round :: "w32 \<Rightarrow> w32 \<Rightarrow> sha_state \<Rightarrow> sha_state" where
  "sha_round k w (a, b, c, d, e, f, g, h) =
     sha_mix (add32 (h + big_sigma1 e + sha_ch e f g + k) w) (add32 (big_sigma0 a) (sha_maj a b c))
       (a, b, c, d, e, f, g, h)"

definition sha_next :: "w32 list \<Rightarrow> w32" where
  "sha_next win =
     add32 (small_sigma1 (win ! 14) + win ! 9 + small_sigma0 (win ! 1)) (win ! 0)"

fun sha_rounds :: "w32 list \<Rightarrow> w32 list \<Rightarrow> sha_state \<Rightarrow> sha_state" where
  "sha_rounds [] win st = st"
| "sha_rounds (k # ks) win st = sha_rounds ks (tl win @ [sha_next win]) (sha_round k (hd win) st)"

fun sha_sum :: "sha_state \<Rightarrow> sha_state \<Rightarrow> sha_state" where
  "sha_sum (a, b, c, d, e, f, g, h) (a', b', c', d', e', f', g', h') =
     (add32 a a', add32 b b', add32 c c', add32 d d', add32 e e', add32 f f', add32 g g', add32 h h')"

definition sha_block :: "w32 list \<Rightarrow> sha_state \<Rightarrow> sha_state" where
  "sha_block ws st = sha_sum st (sha_rounds sha_k ws st)"

definition sha_init :: sha_state where
  "sha_init = (0x6a09e667, 0xbb67ae85, 0x3c6ef372, 0xa54ff53a,
               0x510e527f, 0x9b05688c, 0x1f83d9ab, 0x5be0cd19)"

definition be_bytes64 :: "nat \<Rightarrow> nat list" where
  "be_bytes64 n = map (\<lambda>i. (n div 256 ^ i) mod 256) [7, 6, 5, 4, 3, 2, 1, 0]"

definition sha_pad :: "nat list \<Rightarrow> nat list" where
  "sha_pad m =
     m @ [0x80] @ map (\<lambda>_. 0) [0..<(119 - length m mod 64) mod 64] @ be_bytes64 (8 * length m)"

fun be_words :: "nat list \<Rightarrow> w32 list" where
  "be_words (a # b # c # d # bs) =
     (((a * 256 + b) * 256 + c) * 256 + d) # be_words bs"
| "be_words _ = []"

fun sha_blocks :: "nat \<Rightarrow> w32 list \<Rightarrow> sha_state \<Rightarrow> sha_state" where
  "sha_blocks 0 ws st = st"
| "sha_blocks (Suc n) ws st = sha_blocks n (drop 16 ws) (sha_block (take 16 ws) st)"

definition word_bytes :: "w32 \<Rightarrow> nat list" where
  "word_bytes w =
     [w div 16777216 mod 256, w div 65536 mod 256, w div 256 mod 256, w mod 256]"

fun sha_bytes :: "sha_state \<Rightarrow> nat list" where
  "sha_bytes (a, b, c, d, e, f, g, h) =
     word_bytes a @ word_bytes b @ word_bytes c @ word_bytes d @
     word_bytes e @ word_bytes f @ word_bytes g @ word_bytes h"

definition sha_words :: "string \<Rightarrow> w32 list" where
  "sha_words s = be_words (sha_pad (map ord s))"

definition sha256 :: "string \<Rightarrow> nat list" where
  "sha256 s = sha_bytes (sha_blocks (length (sha_words s) div 16) (sha_words s) sha_init)"

definition hex_byte :: "nat \<Rightarrow> string" where
  "hex_byte n = [hex_digit (n div 16), hex_digit (n mod 16)]"

definition hex_encode :: "nat list \<Rightarrow> string" where
  "hex_encode bs = concat (map hex_byte bs)"

lemma length_hex_encode [simp]: "length (hex_encode bs) = 2 * length bs"
  by (induction bs) (auto simp: hex_encode_def hex_byte_def)

lemma length_sha_bytes [simp]: "length (sha_bytes st) = 32"
  by (cases st rule: sha_bytes.cases) (simp add: word_bytes_def)

lemma length_sha256 [simp]: "length (sha256 s) = 32"
  by (simp add: sha256_def)

lemma word_bytes_bound: "b \<in> set (word_bytes w) \<Longrightarrow> b < 256"
  by (auto simp: word_bytes_def)

lemma sha_bytes_bound: "b \<in> set (sha_bytes st) \<Longrightarrow> b < 256"
  by (cases st rule: sha_bytes.cases) (auto dest: word_bytes_bound)

section \<open>Evaluation\<close>

text \<open>The rules that evaluate a digest by rewriting on numerals, with shifts and masks for division.\<close>

lemma rotr_eval: "n \<le> 32 \<Longrightarrow> rotr n x = drop_bit n x + take_bit n x * 2 ^ (32 - n)"
proof -
  assume "n \<le> 32"
  then have "(2::nat) ^ 32 = 2 ^ n * 2 ^ (32 - n)" by (simp flip: power_add)
  then have "(x * 2 ^ (32 - n)) mod 2 ^ 32 = (x mod 2 ^ n) * 2 ^ (32 - n)" by (simp add: mult_mod_left)
  then show ?thesis by (simp add: rotr_def drop_bit_eq_div take_bit_eq_mod)
qed

lemma add32_eval: "add32 x y = (x + y) AND 4294967295"
  using take_bit_eq_mask [of 32 "x + y"] by (simp add: add32_def take_bit_eq_mod mask_eq_exp_minus_1)

lemma small_sigma_eval:
  "small_sigma0 x = rotr 7 x XOR rotr 18 x XOR drop_bit 3 x"
  "small_sigma1 x = rotr 17 x XOR rotr 19 x XOR drop_bit 10 x"
  by (simp_all add: small_sigma0_def small_sigma1_def drop_bit_eq_div)

lemmas sha_eval = add32_eval rotr_eval small_sigma_eval sha_ch_def sha_maj_def big_sigma0_def
  big_sigma1_def sha_next_def sha256_def sha_words_def sha_pad_def be_bytes64_def sha_block_def
  sha_k_def sha_init_def word_bytes_def hex_encode_def hex_byte_def hex_digit_def char_eval upt_rec

end
