(* ===== verification/Go_Time.thy ===== *)
theory Go_Time
  imports Go_Values
begin

text \<open>
  \<open>time.ParseDuration\<close>: a sign and a sequence of decimal numbers, each with an optional
  fraction and a unit, in nanoseconds of a 64-bit integer. A fraction of a unit is
  truncated exactly. In the text of a unit, the two spellings of the micro sign are their
  UTF-8 bytes.
\<close>

fun take_digits :: "string \<Rightarrow> string \<times> string" where
  "take_digits s = (takeWhile is_digit s, dropWhile is_digit s)"

definition unit_map :: "(string, nat) amap" where
  "unit_map =
    [(''ns'', 1), (''us'', 1000), ([CHR 0xC2, CHR 0xB5, CHR ''s''], 1000),
     ([CHR 0xCE, CHR 0xBC, CHR ''s''], 1000), (''ms'', 1000000), (''s'', 1000000000),
     (''m'', 60000000000), (''h'', 3600000000000)]"

definition is_unit_char :: "char \<Rightarrow> bool" where
  "is_unit_char c \<longleftrightarrow> c \<noteq> CHR ''.'' \<and> \<not> is_digit c"

text \<open>
  \<open>leadingFraction\<close>: the digits after the point as a numerator and a scale; digits that
  would overflow 63 bits, and all after them, are ignored.
\<close>

fun frac_digits :: "nat \<Rightarrow> nat \<Rightarrow> bool \<Rightarrow> string \<Rightarrow> nat \<times> nat" where
  "frac_digits x scale ovf [] = (x, scale)"
| "frac_digits x scale ovf (c # cs) =
     (if ovf \<or> x > (2 ^ 63 - 1) div 10 \<or> 10 * x + (ord c - 48) > 2 ^ 63
      then frac_digits x scale True cs
      else frac_digits (10 * x + (ord c - 48)) (10 * scale) False cs)"

text \<open>One number with its unit: its nanoseconds and the rest of the text.\<close>

definition dur_term :: "string \<Rightarrow> (nat \<times> string) option" where
  "dur_term s =
     (let ip = takeWhile is_digit s;
          s1 = dropWhile is_digit s;
          dot = (s1 \<noteq> [] \<and> hd s1 = CHR ''.'');
          fp = (if dot then takeWhile is_digit (tl s1) else []);
          s2 = (if dot then dropWhile is_digit (tl s1) else s1);
          u = takeWhile is_unit_char s2;
          s3 = dropWhile is_unit_char s2
      in if digits_value ip > 2 ^ 63 then None
         else if ip = [] \<and> fp = [] then None
         else if u = [] then None
         else case map_of unit_map u of
           None \<Rightarrow> None
         | Some un \<Rightarrow>
             if digits_value ip > 2 ^ 63 div un then None
             else let (f, sc) = frac_digits 0 1 False fp;
                      v = digits_value ip * un + f * un div sc
                  in if v > 2 ^ 63 then None else Some (v, s3))"

lemma dur_term_shorter: "dur_term s = Some (v, r) \<Longrightarrow> length r < length s"
proof -
  assume a: "dur_term s = Some (v, r)"
  define s1 where "s1 = dropWhile is_digit s"
  define s2 where "s2 = (if s1 \<noteq> [] \<and> hd s1 = CHR ''.'' then dropWhile is_digit (tl s1) else s1)"
  from a have r: "r = dropWhile is_unit_char s2" and u: "takeWhile is_unit_char s2 \<noteq> []"
    by (auto simp: dur_term_def Let_def s1_def s2_def split: option.splits if_splits prod.splits)
  have "length s1 \<le> length s" by (simp add: s1_def length_dropWhile_le)
  moreover have "length s2 \<le> length s1"
    using length_dropWhile_le [of is_digit "tl s1"] by (auto simp: s2_def)
  moreover have "length s2 = length (takeWhile is_unit_char s2) + length r"
    by (simp add: r flip: length_append)
  ultimately show ?thesis using u by (cases "takeWhile is_unit_char s2") auto
qed

function dur_terms :: "nat \<Rightarrow> string \<Rightarrow> nat option" where
  "dur_terms d s =
     (if s = [] then Some d
      else case dur_term s of
        None \<Rightarrow> None
      | Some (v, r) \<Rightarrow> if d + v > 2 ^ 63 then None else dur_terms (d + v) r)"
  by pat_completeness auto
termination
  by (relation "measure (\<lambda>(d, s). length s)") (auto dest: dur_term_shorter)

declare dur_terms.simps [simp del]

definition parse_duration :: "string \<Rightarrow> int option" where
  "parse_duration s =
     (let neg = (s \<noteq> [] \<and> hd s = CHR ''-'');
          t = (if s \<noteq> [] \<and> (hd s = CHR ''-'' \<or> hd s = CHR ''+'') then tl s else s)
      in if t = ''0'' then Some 0
         else if t = [] then None
         else case dur_terms 0 t of
           None \<Rightarrow> None
         | Some d \<Rightarrow>
             if neg then Some (- int d)
             else if d > 2 ^ 63 - 1 then None else Some (int d))"

lemma dur_terms_bound: "d \<le> 2 ^ 63 \<Longrightarrow> dur_terms d s = Some n \<Longrightarrow> n \<le> 2 ^ 63"
proof (induction d s rule: dur_terms.induct)
  case (1 d s)
  from "1.prems" show ?case
    by (subst (asm) dur_terms.simps) (auto split: if_splits option.splits dest: "1.IH")
qed

lemma parse_duration_range:
  "parse_duration s = Some d \<Longrightarrow> - (2 ^ 63) \<le> d \<and> d < 2 ^ 63"
  using dur_terms_bound [of 0]
  by (fastforce simp: parse_duration_def Let_def split: if_splits option.splits)

section \<open>RFC 3339\<close>

text \<open>
  A \<open>time.Time\<close> is its whole seconds since January 1 of year 1, UTC, Go's zero time being 0.
  \<open>Format(time.RFC3339)\<close> is modelled in the zone UTC and drops fractions of a second, as the
  layout does; \<open>Parse\<close> accepts any offset.
\<close>

definition is_leap :: "nat \<Rightarrow> bool" where
  "is_leap y \<longleftrightarrow> y mod 4 = 0 \<and> (y mod 100 \<noteq> 0 \<or> y mod 400 = 0)"

definition days_before_year :: "nat \<Rightarrow> int" where
  "days_before_year y = (let p = int y - 1 in 365 * p + p div 4 - p div 100 + p div 400)"

definition month_days :: "nat \<Rightarrow> nat \<Rightarrow> nat" where
  "month_days y m =
     (if m = 2 then (if is_leap y then 29 else 28)
      else if m \<in> {4, 6, 9, 11} then 30 else 31)"

definition days_before_month :: "nat \<Rightarrow> nat \<Rightarrow> nat" where
  "days_before_month y m = sum_list (map (month_days y) [1..<m])"

lemma days_before_year_ge: "int y - 1 \<le> days_before_year y" if "1 \<le> y"
proof -
  define p where "p = int y - 1"
  with that have "0 \<le> p" by simp
  then have "p div 100 \<le> p" "0 \<le> p div 4" "0 \<le> p div 400" by presburger+
  then show ?thesis using \<open>0 \<le> p\<close> by (simp add: days_before_year_def Let_def flip: p_def)
qed

function year_from :: "nat \<Rightarrow> nat \<Rightarrow> nat" where
  "year_from y d = (if int d < days_before_year (Suc y) then y else year_from (Suc y) d)"
  by pat_completeness auto
termination
proof (relation "measure (\<lambda>(y, d). d + 1 - y)")
  fix y d assume "\<not> int d < days_before_year (Suc y)"
  then have "y \<le> d" using days_before_year_ge [of "Suc y"] by simp
  then show "((Suc y, d), y, d) \<in> measure (\<lambda>(y, d). d + 1 - y)" by simp
qed simp

declare year_from.simps [simp del]

fun month_from :: "nat \<Rightarrow> nat \<Rightarrow> nat \<Rightarrow> nat \<Rightarrow> nat \<times> nat" where
  "month_from y m 0 d = (m, d)"
| "month_from y m (Suc k) d =
     (if d < month_days y m then (m, d) else month_from y (Suc m) k (d - month_days y m))"

definition pad2 :: "nat \<Rightarrow> string" where
  "pad2 n = [digit_char (n div 10 mod 10), digit_char (n mod 10)]"

definition rfc3339_format :: "nat \<Rightarrow> string" where
  "rfc3339_format t =
     (let days = t div 86400; s = t mod 86400;
          y = year_from (days div 366 + 1) days;
          (m, d) = month_from y 1 11 (nat (int days - days_before_year y))
      in pad2 (y div 100) @ pad2 (y mod 100) @ ''-'' @ pad2 m @ ''-'' @ pad2 (Suc d) @ ''T'' @
         pad2 (s div 3600) @ '':'' @ pad2 (s div 60 mod 60) @ '':'' @ pad2 (s mod 60) @ ''Z'')"

text \<open>The offset of a zone in seconds, from the text after the seconds and their fraction.\<close>

definition zone_offset :: "string \<Rightarrow> int option" where
  "zone_offset z =
     (if z = ''Z'' then Some 0
      else if length z = 6 \<and> (z ! 0 = CHR ''+'' \<or> z ! 0 = CHR ''-'') \<and> z ! 3 = CHR '':'' \<and>
              list_all is_digit [z ! 1, z ! 2, z ! 4, z ! 5] \<and>
              digits_value [z ! 1, z ! 2] \<le> 24 \<and> digits_value [z ! 4, z ! 5] \<le> 60
      then let off = int (digits_value [z ! 1, z ! 2] * 3600 + digits_value [z ! 4, z ! 5] * 60)
           in Some (if z ! 0 = CHR ''-'' then - off else off)
      else None)"

definition rfc3339_parse :: "string \<Rightarrow> int option" where
  "rfc3339_parse s =
     (if length s < 20 \<or> s ! 4 \<noteq> CHR ''-'' \<or> s ! 7 \<noteq> CHR ''-'' \<or> s ! 10 \<noteq> CHR ''T'' \<or>
         s ! 13 \<noteq> CHR '':'' \<or> s ! 16 \<noteq> CHR '':'' \<or>
         \<not> list_all is_digit (map (\<lambda>i. s ! i) [0, 1, 2, 3, 5, 6, 8, 9, 11, 12, 14, 15, 17, 18])
      then None
      else
        let y = digits_value (take 4 s); mo = digits_value [s ! 5, s ! 6]; d = digits_value [s ! 8, s ! 9];
            h = digits_value [s ! 11, s ! 12]; mi = digits_value [s ! 14, s ! 15];
            se = digits_value [s ! 17, s ! 18]; r = drop 19 s;
            z = (if 2 \<le> length r \<and> (hd r = CHR ''.'' \<or> hd r = CHR '','') \<and> is_digit (r ! 1)
                 then dropWhile is_digit (tl r) else r)
        in if 1 \<le> mo \<and> mo \<le> 12 \<and> 1 \<le> d \<and> d \<le> month_days y mo \<and> h < 24 \<and> mi < 60 \<and> se < 60
           then (case zone_offset z of
              None \<Rightarrow> None
            | Some off \<Rightarrow>
                Some ((days_before_year y + int (days_before_month y mo) + int d - 1) * 86400 +
                      int (h * 3600 + mi * 60 + se) - off))
           else None)"

lemma year_from_bounds:
  "days_before_year y \<le> int d \<Longrightarrow>
   y \<le> year_from y d \<and> days_before_year (year_from y d) \<le> int d \<and> int d < days_before_year (Suc (year_from y d))"
proof (induction y d rule: year_from.induct)
  case (1 y d)
  show ?case
  proof (cases "int d < days_before_year (Suc y)")
    case True
    with 1 show ?thesis by (simp add: year_from.simps [of y d])
  next
    case False
    with 1 show ?thesis by (simp add: year_from.simps [of y d])
  qed
qed

lemma days_before_year_Suc:
  "days_before_year (Suc p) = 365 * int p + int (p div 4) - int (p div 100) + int (p div 400)"
  by (simp add: days_before_year_def Let_def zdiv_int)

lemma year_length:
  assumes "1 \<le> y"
  shows "days_before_year (Suc y) - days_before_year y = (if is_leap y then 366 else 365)"
proof -
  from assms obtain p where y: "y = Suc p" by (cases y) auto
  have "days_before_year (Suc y) - days_before_year y =
      365 + (if y mod 4 = 0 then 1 else 0) - (if y mod 100 = 0 then 1 else 0) + (if y mod 400 = 0 then 1 else 0)"
    by (simp add: y days_before_year_Suc div_Suc)
  also have "\<dots> = (if is_leap y then 366 else 365)"
  proof -
    have "y mod 400 = 0 \<Longrightarrow> y mod 100 = 0" "y mod 100 = 0 \<Longrightarrow> y mod 4 = 0"
      using mod_mod_cancel [of 100 400 y] mod_mod_cancel [of 4 100 y] by auto
    then show ?thesis by (auto simp: is_leap_def)
  qed
  finally show ?thesis .
qed

lemma days_before_month_Suc: "1 \<le> m \<Longrightarrow> days_before_month y (Suc m) = days_before_month y m + month_days y m"
  by (simp add: days_before_month_def)

lemma month_from_spec:
  "month_from y m k d = (m', d') \<Longrightarrow> 1 \<le> m \<Longrightarrow> m + k = 12 \<Longrightarrow>
     days_before_month y m + d < days_before_month y 13 \<Longrightarrow>
     1 \<le> m' \<and> m' \<le> 12 \<and> days_before_month y m' + d' = days_before_month y m + d \<and> d' < month_days y m'"
proof (induction k arbitrary: m d)
  case 0
  then show ?case using days_before_month_Suc [of 12 y] by (simp add: numeral_eq_Suc)
next
  case (Suc k)
  show ?case
  proof (cases "d < month_days y m")
    case True
    with Suc.prems show ?thesis by auto
  next
    case False
    have e: "days_before_month y (Suc m) = days_before_month y m + month_days y m"
      using Suc.prems by (intro days_before_month_Suc)
    have "days_before_month y (Suc m) + (d - month_days y m) < days_before_month y 13"
      using False Suc.prems(4) e by simp
    with Suc.IH [of "Suc m" "d - month_days y m"] Suc.prems False e show ?thesis by simp
  qed
qed

lemma days_in_year: "1 \<le> y \<Longrightarrow> int (days_before_month y 13) = days_before_year (Suc y) - days_before_year y"
proof -
  have "days_before_month y 13 = (if is_leap y then 366 else 365)"
    by (simp add: days_before_month_def upt_rec numeral_eq_Suc month_days_def)
  then show "1 \<le> y \<Longrightarrow> ?thesis" by (simp add: year_length)
qed

lemma digits_value_pad2: "n < 100 \<Longrightarrow> digits_value [digit_char (n div 10), digit_char (n mod 10)] = n"
  by (simp add: digits_value_def)

lemma digits_value_pad4:
  "y < 10000 \<Longrightarrow> digits_value [digit_char (y div 100 div 10), digit_char (y div 100 mod 10),
     digit_char (y mod 100 div 10), digit_char (y mod 100 mod 10)] = y"
  by (simp add: digits_value_def)

lemma length_pad2 [simp]: "length (pad2 n) = 2"
  by (simp add: pad2_def)

text \<open>The search for the year starts before it, years are monotone, and a time of day is its parts.\<close>

lemma year_start: "days_before_year (n div 366 + 1) \<le> int n"
proof -
  define p where "p = n div 366"
  have "p div 4 \<le> p" "p div 400 \<le> p div 100" by (simp_all add: div_le_mono2)
  then have "days_before_year (Suc p) \<le> 366 * int p" unfolding days_before_year_Suc by linarith
  also have "366 * p \<le> n" by (simp add: p_def)
  then have "366 * int p \<le> int n" by linarith
  finally show ?thesis by (simp add: p_def)
qed

lemma late_year: "days_before_year 10000 \<le> days_before_year (10000 + k)"
proof (induction k)
  case (Suc k)
  then show ?case using year_length [of "10000 + k"] by (simp split: if_splits)
qed simp

lemma day_time: "s div 3600 * 3600 + s div 60 mod 60 * 60 + s mod 60 = (s :: nat)"
proof -
  have "s div 3600 = s div 60 div 60" by (simp add: div_mult2_eq [symmetric])
  moreover have "60 * (s div 60) + s mod 60 = s" "60 * (s div 60 div 60) + s div 60 mod 60 = s div 60"
    by (rule mult_div_mod_eq)+
  ultimately show ?thesis by linarith
qed

lemma month_and_day:
  assumes "1 \<le> y" "days_before_year y \<le> int n" "int n < days_before_year (Suc y)" "month_from y 1 11 (nat (int n - days_before_year y)) = (m, d)"
  shows "1 \<le> m" "m \<le> 12" "days_before_year y + int (days_before_month y m) + int d = int n" "d < month_days y m"
proof -
  have "nat (int n - days_before_year y) < days_before_month y 13" using assms(2,3) days_in_year [OF assms(1)] by simp
  moreover have "days_before_month y 1 = 0" by (simp add: days_before_month_def)
  ultimately have m: "1 \<le> m" "m \<le> 12" "days_before_month y m + d = nat (int n - days_before_year y)" "d < month_days y m"
    using month_from_spec [OF assms(4)] by auto
  then show "1 \<le> m" "m \<le> 12" "d < month_days y m" by simp_all
  show "days_before_year y + int (days_before_month y m) + int d = int n" using m(3) assms(2) by linarith
qed

text \<open>Formatting a time of the years 1 to 9999 and parsing it back gives the time.\<close>

lemma rfc3339_roundtrip:
  assumes "int (t div 86400) < days_before_year 10000"
  shows "rfc3339_parse (rfc3339_format t) = Some (int t)"
proof -
  define days where "days = t div 86400"
  define s where "s = t mod 86400"
  define y where "y = year_from (days div 366 + 1) days"
  from year_from_bounds [OF year_start [of days]] have y: "1 \<le> y" "days_before_year y \<le> int days"
    "int days < days_before_year (Suc y)" by (auto simp: y_def)
  obtain m d where md: "month_from y 1 11 (nat (int days - days_before_year y)) = (m, d)" by fastforce
  note m = month_and_day [OF y md]
  have y4: "y < 10000"
  proof (rule ccontr)
    assume "\<not> y < 10000"
    then obtain k where k: "y = 10000 + k" by (metis le_iff_add not_less)
    with late_year [of k] y(2) assms show False by (simp add: days_def)
  qed
  have l: "Suc d < 100" "m < 100" using m(2,4) by (auto simp: month_days_def split: if_splits)
  have sl: "s div 3600 < 24" "s div 60 mod 60 < 60" "s mod 60 < 60" by (simp_all add: s_def)
  have f: "rfc3339_format t = pad2 (y div 100) @ pad2 (y mod 100) @ ''-'' @ pad2 m @ ''-'' @ pad2 (Suc d) @ ''T'' @
         pad2 (s div 3600) @ '':'' @ pad2 (s div 60 mod 60) @ '':'' @ pad2 (s mod 60) @ ''Z''"
    using md by (simp add: rfc3339_format_def Let_def days_def s_def y_def)
  have q: "rfc3339_parse (rfc3339_format t) =
     Some ((days_before_year y + int (days_before_month y m) + int (Suc d) - 1) * 86400 +
        int (s div 3600 * 3600 + s div 60 mod 60 * 60 + s mod 60) - 0)"
    using y4 l sl m(1,2,4)
    by (simp add: f rfc3339_parse_def pad2_def Let_def zone_offset_def
      digits_value_pad2 digits_value_pad4)
  have "t = days * 86400 + s" using div_mult_mod_eq [of t 86400] by (simp add: days_def s_def)
  then have "int t = int days * 86400 + int s" by simp
  then show ?thesis using m(3) unfolding q day_time by simp
qed

section \<open>Printing durations\<close>

text \<open>\<open>Duration.String\<close>, in nanoseconds; \<open>dur_frac p u\<close> is the fraction \<open>u mod 10^p\<close> without trailing zeros.\<close>

definition dur_frac :: "nat \<Rightarrow> nat \<Rightarrow> string" where
  "dur_frac p u =
     (let digits = rev (dropWhile (\<lambda>c. c = CHR ''0'') (rev (drop 1 (nat_digits (10 ^ p + u mod 10 ^ p)))))
      in if digits = [] then [] else ''.'' @ digits)"

definition dur_string :: "int \<Rightarrow> string" where
  "dur_string d =
     (let u = nat \<bar>d\<bar>; s = u div 10 ^ 9; m = s div 60; h = m div 60 in
      (if d < 0 then ''-'' else []) @
      (if u = 0 then ''0s''
       else if u < 10 ^ 3 then nat_digits u @ ''ns''
       else if u < 10 ^ 6 then nat_digits (u div 10 ^ 3) @ dur_frac 3 u @ [CHR 0xC2, CHR 0xB5] @ ''s''
       else if u < 10 ^ 9 then nat_digits (u div 10 ^ 6) @ dur_frac 6 u @ ''ms''
       else (if 0 < h then nat_digits h @ ''h'' else []) @
            (if 0 < m then nat_digits (m mod 60) @ ''m'' else []) @
            nat_digits (s mod 60) @ dur_frac 9 u @ ''s''))"

lemma dur_string_samples:
  "dur_string 1500000000 = ''1.5s''" "dur_string 3661000000001 = ''1h1m1.000000001s''" "dur_string (- 2500000) = ''-2.5ms''"
  by (simp_all add: dur_string_def dur_frac_def nat_digits.simps digit_char_def char_of_def bit_iff_odd Let_def)

end
