(* ===== verification/Recurfile_Domain.thy ===== *)
theory Recurfile_Domain
  imports Map_Store Go_Time Sha256
begin

text \<open>
  \<open>domain/recurfile\<close>: the parsed form of a recurfile (\<open>raw.go\<close>), alias expansion
  (\<open>aliases.go\<close>), resolution (\<open>resolve.go\<close>), warnings (\<open>validate.go\<close>), the trigger settings
  chain and entity identifiers (\<open>builder.go\<close>).
\<close>

section \<open>Parsed recurfiles\<close>

record secret_def =
  sd_name :: string
  sd_source :: string
  sd_ref :: string
  sd_default :: string
  sd_required :: bool
  sd_error_msg :: string

record raw_action =
  ra_type :: string
  ra_name :: string
  ra_options :: "gmap option"

record raw_trigger =
  rt_type :: string
  rt_name :: string
  rt_options :: "gmap option"
  rt_actions :: "raw_action list"

record raw_group =
  rg_name :: string
  rg_aliases :: "(string, string) amap"
  rg_options :: "gmap option"
  rg_triggers :: "raw_trigger list"
  rg_actions :: "raw_action list"

record raw_file =
  rf_path :: string
  rf_aliases :: "(string, string) amap"
  rf_secrets :: "secret_def list"
  rf_groups :: "raw_group list"

section \<open>Aliases\<close>

text \<open>A nil alias map and an empty one are the same to every reader.\<close>

definition put_all :: "('k, 'v) amap \<Rightarrow> ('k, 'v) amap \<Rightarrow> ('k, 'v) amap" where
  "put_all m kvs = foldl (\<lambda>m (k, v). AList.update k v m) m kvs"

definition merge_aliases :: "(string, string) amap \<Rightarrow> (string, string) amap \<Rightarrow> (string, string) amap" where
  "merge_aliases fa ga = put_all (put_all [] fa) ga"

definition expand_alias :: "string \<Rightarrow> (string, string) amap \<Rightarrow> string" where
  "expand_alias name aliases =
     (if aliases = [] then name
      else case index_byte name CHR ''.'' of
        None \<Rightarrow> (case map_of aliases name of Some e \<Rightarrow> e | None \<Rightarrow> name)
      | Some i \<Rightarrow>
          (case map_of aliases (take i name) of Some e \<Rightarrow> e @ drop i name | None \<Rightarrow> name))"

text \<open>When two keys expand to the same one, the key visited last wins.\<close>

definition expand_option_aliases :: "gmap option \<Rightarrow> (string, string) amap \<Rightarrow> gmap option" where
  "expand_option_aliases opts aliases =
     (case opts of
        None \<Rightarrow> None
      | Some m \<Rightarrow>
          if m = [] \<or> aliases = [] then opts
          else Some (foldl (\<lambda>r (k, v). AList.update (expand_alias k aliases) v r) [] m))"

section \<open>Resolution\<close>

definition resolve_trigger :: "raw_group \<Rightarrow> (string, string) amap \<Rightarrow> raw_trigger \<Rightarrow> raw_trigger" where
  "resolve_trigger g aliases t =
     (let opts = overlay_maps [rg_options g, expand_option_aliases (rt_options t) aliases];
          acts = (if rt_actions t = [] \<and> rg_actions g \<noteq> [] then rg_actions g else rt_actions t)
      in t\<lparr>rt_options := opts,
           rt_type := expand_alias (rt_type t) aliases,
           rt_actions :=
             map (\<lambda>a. a\<lparr>ra_type := expand_alias (ra_type a) aliases,
                         ra_options := overlay_maps [rg_options g, ra_options a]\<rparr>) acts\<rparr>)"

text \<open>The triggers are resolved against the group whose options and actions are expanded.\<close>

definition resolve_group :: "(string, string) amap \<Rightarrow> raw_group \<Rightarrow> raw_group" where
  "resolve_group file_aliases g =
     (let aliases = merge_aliases file_aliases (rg_aliases g);
          g1 = g\<lparr>rg_options := expand_option_aliases (rg_options g) aliases,
                 rg_actions := map (\<lambda>a. a\<lparr>ra_type := expand_alias (ra_type a) aliases\<rparr>) (rg_actions g)\<rparr>
      in g1\<lparr>rg_triggers := map (resolve_trigger g1 aliases) (rg_triggers g)\<rparr>)"

definition resolve :: "raw_file \<Rightarrow> raw_file" where
  "resolve f = f\<lparr>rf_groups := map (resolve_group (rf_aliases f)) (rf_groups f)\<rparr>"

definition validate :: "raw_file \<Rightarrow> string list" where
  "validate f =
     concat (map (\<lambda>g. concat (map (\<lambda>t.
        if rt_actions t = []
        then [''group '' @ go_quote (rg_name g) @ '', trigger '' @ go_quote (rt_type t) @ '': no actions defined'']
        else []) (rg_triggers g))) (rf_groups f))"

section \<open>Trigger settings\<close>

record trigger_settings =
  ts_concurrency_mode :: string
  ts_max_queue_size :: int
  ts_debounce :: int
  ts_error_threshold :: int
  ts_action_error_threshold :: int

definition map_store_string :: "map_store \<Rightarrow> string \<Rightarrow> string \<times> map_store" where
  "map_store_string s k =
     (case ms_get_field s k of (v, s') \<Rightarrow> (case v of Some (VStr x) \<Rightarrow> x | _ \<Rightarrow> [], s'))"

definition map_store_int :: "map_store \<Rightarrow> string \<Rightarrow> int \<times> map_store" where
  "map_store_int s k =
     (case ms_get_field s k of (v, s') \<Rightarrow>
        (case v of Some (VInt i) \<Rightarrow> i | Some (VFloat m e) \<Rightarrow> float_trunc m e | _ \<Rightarrow> 0, s'))"

definition map_store_duration :: "map_store \<Rightarrow> string \<Rightarrow> int \<times> map_store" where
  "map_store_duration s k =
     (case ms_get_field s k of (v, s') \<Rightarrow>
        (case v of
           Some (VStr x) \<Rightarrow> (case parse_duration x of Some d \<Rightarrow> d | None \<Rightarrow> 0)
         | Some (VDur d) \<Rightarrow> d | _ \<Rightarrow> 0, s'))"

definition set_layer :: "string \<Rightarrow> gmap option \<Rightarrow> map_store \<Rightarrow> map_store" where
  "set_layer n l s =
     (case l of None \<Rightarrow> s | Some m \<Rightarrow> (case ms_set s n m of Inl _ \<Rightarrow> s | Inr s' \<Rightarrow> s'))"

definition chain_store :: "gmap option \<Rightarrow> gmap option \<Rightarrow> gmap option \<Rightarrow> gmap option \<Rightarrow>
    gmap option \<Rightarrow> map_store" where
  "chain_store daemon manifest override grp trigger =
     set_layer ''trigger'' trigger (set_layer ''group'' grp
       (set_layer ''plugin_override'' override (set_layer ''plugin'' manifest
         (set_layer ''daemon'' daemon
           (new_map_store [''daemon'', ''plugin'', ''plugin_override'', ''group'', ''trigger''])))))"

definition build_trigger_settings :: "gmap option \<Rightarrow> gmap option \<Rightarrow> gmap option \<Rightarrow> gmap option \<Rightarrow>
    gmap option \<Rightarrow> trigger_settings" where
  "build_trigger_settings daemon manifest override grp trigger =
     (let s0 = chain_store daemon manifest override grp trigger;
          (mode, s1) = map_store_string s0 ''concurrency_mode'';
          (q, s2) = map_store_int s1 ''max_queue_size'';
          (d, s3) = map_store_duration s2 ''debounce'';
          (et, s4) = map_store_int s3 ''error_threshold'';
          (aet, s5) = map_store_int s4 ''action_error_threshold''
      in \<lparr>ts_concurrency_mode = mode, ts_max_queue_size = q, ts_debounce = d,
          ts_error_threshold = et, ts_action_error_threshold = aet\<rparr>)"

section \<open>Identifiers\<close>

definition entity_id :: "string \<Rightarrow> string \<Rightarrow> string" where
  "entity_id ty seed = hex_encode (take 6 (sha256 (ty @ '':'' @ seed)))"

definition trigger_seed :: "string \<Rightarrow> string \<Rightarrow> nat \<Rightarrow> string" where
  "trigger_seed gid ty n = gid @ '':'' @ ty @ '':'' @ itoa (int n)"

definition action_seed :: "string \<Rightarrow> string \<Rightarrow> nat \<Rightarrow> string" where
  "action_seed tid ty n = tid @ '':'' @ ty @ '':'' @ itoa (int n)"

definition group_seed :: "string \<Rightarrow> string \<Rightarrow> string" where
  "group_seed rid name = rid @ '':'' @ name"

lemma length_entity_id [simp]: "length (entity_id ty seed) = 12"
  by (simp add: entity_id_def)

lemma entity_id_ne [simp]: "entity_id ty seed \<noteq> []"
  using length_entity_id [of ty seed] by (metis list.size(3) zero_neq_numeral)

text \<open>Siblings of one parent have different seeds: the occurrence index separates them.\<close>

lemma append_sep_inj:
  assumes "x @ c # r = y @ c # s" "c \<notin> set r" "c \<notin> set s"
  shows "x = y \<and> r = s"
proof -
  have "rev r @ c # rev x = rev s @ c # rev y" using assms(1) by (metis append.assoc append_Cons append_Nil rev.simps(2) rev_append)
  then have "takeWhile (\<lambda>z. z \<noteq> c) (rev r @ c # rev x) = takeWhile (\<lambda>z. z \<noteq> c) (rev s @ c # rev y)" by simp
  moreover have "\<forall>x \<in> set r. x \<noteq> c" "\<forall>x \<in> set s. x \<noteq> c" using assms(2,3) by auto
  ultimately have "rev r = rev s" by (simp add: takeWhile_append)
  then have "r = s" by simp
  with assms(1) show ?thesis by simp
qed

lemma trigger_seed_inj:
  assumes "length g = length h"
  shows "trigger_seed g a m = trigger_seed h b n \<longleftrightarrow> g = h \<and> a = b \<and> m = n"
proof
  assume eq: "trigger_seed g a m = trigger_seed h b n"
  have nc: "CHR '':'' \<notin> set (itoa i)" for i
    by (rule itoa_no_char) (simp_all add: is_digit_def)
  from eq have "g = h" and e: "a @ CHR '':'' # itoa (int m) = b @ CHR '':'' # itoa (int n)"
    using assms by (simp_all add: trigger_seed_def)
  from append_sep_inj [OF e nc nc] have "a = b" "itoa (int m) = itoa (int n)" by auto
  with \<open>g = h\<close> itoa_inj show "g = h \<and> a = b \<and> m = n" by fastforce
qed (simp add: trigger_seed_def)

lemma action_seed_eq: "action_seed = trigger_seed"
  by (simp add: action_seed_def trigger_seed_def fun_eq_iff)

section \<open>The precedence chain\<close>

text \<open>Two lookups that agree except that nested maps may have been merged.\<close>

definition same_scalar :: "gval option \<Rightarrow> gval option \<Rightarrow> bool" where
  "same_scalar a b \<longleftrightarrow> a = b \<or> (\<exists>m n. a = Some (VMap m) \<and> b = Some (VMap n))"

lemma same_scalar_overlay_value:
  "same_scalar (Some (overlay_value x v)) (Some v)"
proof (cases v)
  case (VMap l)
  have "\<exists>m. overlay_value x (VMap l) = VMap m"
  proof (cases x)
    case (Some y)
    then show ?thesis by (cases y) auto
  qed simp
  with VMap show ?thesis by (auto simp: same_scalar_def)
qed (simp_all add: same_scalar_def)

lemma overlay_maps_same_scalar:
  assumes "layers_ok ls"
  shows "same_scalar (case overlay_maps ls of None \<Rightarrow> None | Some r \<Rightarrow> map_of r k) (last_defined ls k)"
  using assms
proof (induction ls rule: rev_induct)
  case Nil
  then show ?case by (simp add: overlay_maps_def same_scalar_def)
next
  case (snoc l ls)
  then have IH: "same_scalar (case overlay_maps ls of None \<Rightarrow> None | Some r \<Rightarrow> map_of r k) (last_defined ls k)"
    by (simp add: layers_ok_def)
  show ?case
  proof (cases l)
    case None
    have "overlay_maps (ls @ [None]) = Some (case overlay_maps ls of None \<Rightarrow> [] | Some r \<Rightarrow> r)"
      by (auto simp: overlay_maps_def)
    with None IH show ?thesis by (auto simp: last_defined_append split: option.splits)
  next
    case (Some m)
    with snoc.prems have ok: "amap_ok m" by (auto simp: layers_ok_def)
    show ?thesis
      using IH Some same_scalar_overlay_value
      by (auto simp: overlay_maps_snoc overlay_layer_lookup [OF ok] last_defined_append split: option.splits)
  qed
qed

definition str_setting :: "gval option \<Rightarrow> string" where
  "str_setting v = (case v of Some (VStr x) \<Rightarrow> x | _ \<Rightarrow> [])"

definition int_setting :: "gval option \<Rightarrow> int" where
  "int_setting v = (case v of Some (VInt i) \<Rightarrow> i | Some (VFloat m e) \<Rightarrow> float_trunc m e | _ \<Rightarrow> 0)"

definition dur_setting :: "gval option \<Rightarrow> int" where
  "dur_setting v =
     (case v of
        Some (VStr x) \<Rightarrow> (case parse_duration x of Some d \<Rightarrow> d | None \<Rightarrow> 0)
      | Some (VDur d) \<Rightarrow> d | _ \<Rightarrow> 0)"

lemma same_scalar_settings:
  "same_scalar a b \<Longrightarrow> str_setting a = str_setting b"
  "same_scalar a b \<Longrightarrow> int_setting a = int_setting b"
  "same_scalar a b \<Longrightarrow> dur_setting a = dur_setting b"
  by (auto simp: same_scalar_def str_setting_def int_setting_def dur_setting_def)

lemma set_layer_ok:
  "ms_ok s \<Longrightarrow> (case l of None \<Rightarrow> True | Some m \<Rightarrow> amap_ok m) \<Longrightarrow> ms_ok (set_layer n l s)"
  by (auto simp: set_layer_def intro: ms_set_ok split: option.splits sum.splits)

lemma set_layer_facts:
  "ms_names (set_layer n l s) = ms_names s"
  "n \<in> set (ms_names s) \<Longrightarrow> map_of (ms_layers (set_layer n l s)) =
     (case l of None \<Rightarrow> map_of (ms_layers s) | Some m \<Rightarrow> (map_of (ms_layers s))(n \<mapsto> m))"
  by (auto simp: set_layer_def ms_set_def ms_known_def fun_eq_iff split: option.splits sum.splits)

lemma chain_store_ok: "layers_ok [d, m, ov, g, t] \<Longrightarrow> ms_ok (chain_store d m ov g t)"
  by (auto simp: chain_store_def layers_ok_def intro!: set_layer_ok)

lemma last_defined_Some_filter:
  "last_defined ls k = last_defined (map Some (List.map_filter id ls)) k"
  by (induction ls) (auto simp: List.map_filter_def split: option.splits)

lemma chain_store_layers:
  "List.map_filter (map_of (ms_layers (chain_store d m ov g t))) (ms_names (chain_store d m ov g t)) =
     List.map_filter id [d, m, ov, g, t]"
  by (cases d; cases m; cases ov; cases g; cases t)
    (simp_all add: chain_store_def set_layer_def ms_set_def ms_known_def new_map_store_def List.map_filter_def)

text \<open>Reading a field caches the overlay, which no later read can observe.\<close>

lemma ms_get_field_value:
  assumes "ms_ok s" "layers_ok ls"
    "List.map_filter (map_of (ms_layers s)) (ms_names s) = List.map_filter id ls"
  shows "same_scalar (fst (ms_get_field s k)) (last_defined ls k)"
    and "ms_ok (snd (ms_get_field s k))"
    and "List.map_filter (map_of (ms_layers (snd (ms_get_field s k)))) (ms_names (snd (ms_get_field s k))) =
      List.map_filter id ls"
proof -
  have l: "layers_ok (map Some (List.map_filter id ls))"
    using assms(2) by (auto simp: layers_ok_def List.map_filter_def)
  have "fst (ms_get_field s k) =
      (case overlay_maps (map Some (List.map_filter id ls)) of None \<Rightarrow> None | Some r \<Rightarrow> map_of r k)"
    using mst.eff_value [OF assms(1)] assms(3)
    by (cases "ms_get s") (simp add: ms_get_field_def ms_combine_def)
  then show "same_scalar (fst (ms_get_field s k)) (last_defined ls k)"
    using overlay_maps_same_scalar [OF l, of k] by (simp add: last_defined_Some_filter [of ls])
  have eq: "snd (ms_get_field s k) = snd (ms_get s)" by (simp add: ms_get_field_def split: prod.splits)
  show "ms_ok (snd (ms_get_field s k))"
    unfolding eq by (rule ms_get_ok [OF assms(1)])
  from eq show "List.map_filter (map_of (ms_layers (snd (ms_get_field s k)))) (ms_names (snd (ms_get_field s k))) =
      List.map_filter id ls"
    using assms(3) by (simp add: mst.eff_layer mst.eff_names)
qed

text \<open>
  C8: the trigger-settings chain \<open>daemon < plugin manifest < plugin override < group < trigger\<close>:
  each of the five engine settings is the conversion of the value that the most specific
  layer defining its key gives, whatever the less specific layers hold, and the zero value
  when no layer defines it or its type is wrong.
\<close>

theorem build_trigger_settings_precedence:
  assumes "layers_ok [daemon, manifest, override, grp, trigger]"
  shows "build_trigger_settings daemon manifest override grp trigger =
    (let eff = last_defined [daemon, manifest, override, grp, trigger] in
     \<lparr>ts_concurrency_mode = str_setting (eff ''concurrency_mode''),
      ts_max_queue_size = int_setting (eff ''max_queue_size''),
      ts_debounce = dur_setting (eff ''debounce''),
      ts_error_threshold = int_setting (eff ''error_threshold''),
      ts_action_error_threshold = int_setting (eff ''action_error_threshold'')\<rparr>)"
proof -
  let ?ls = "[daemon, manifest, override, grp, trigger]"
  define good where "good s \<longleftrightarrow> ms_ok s \<and>
    List.map_filter (map_of (ms_layers s)) (ms_names s) = List.map_filter id ?ls" for s
  have s: "map_store_string s k = (str_setting (last_defined ?ls k), snd (ms_get_field s k))"
    and i: "map_store_int s k = (int_setting (last_defined ?ls k), snd (ms_get_field s k))"
    and d: "map_store_duration s k = (dur_setting (last_defined ?ls k), snd (ms_get_field s k))"
    and g: "good (snd (ms_get_field s k))" if "good s" for s k
    using ms_get_field_value [of s ?ls k] same_scalar_settings that assms unfolding good_def
    by (auto simp: map_store_string_def map_store_int_def map_store_duration_def
        str_setting_def [symmetric] int_setting_def [symmetric] dur_setting_def [symmetric] split: prod.splits)
  have "good (chain_store daemon manifest override grp trigger)"
    using chain_store_ok [OF assms] by (simp add: good_def chain_store_layers)
  then show ?thesis by (simp add: build_trigger_settings_def Let_def s i d g del: last_defined.simps)
qed

section \<open>Resolution\<close>

lemma validate_Nil:
  "validate f = [] \<longleftrightarrow> (\<forall>g \<in> set (rf_groups f). \<forall>t \<in> set (rg_triggers g). rt_actions t \<noteq> [])"
  by (auto simp: validate_def split: if_splits)

lemma resolve_group_simps [simp]:
  "rg_name (resolve_group fa g) = rg_name g"
  "length (rg_triggers (resolve_group fa g)) = length (rg_triggers g)"
  "length (rg_actions (resolve_group fa g)) = length (rg_actions g)"
  by (simp_all add: resolve_group_def Let_def)

text \<open>
  inheritance of actions. After \<open>Resolve\<close>, \<open>Validate\<close> warns about nothing exactly when
  every trigger of the parsed file had actions of its own or a group with actions; and a
  trigger that inherits gets as many actions as its group has.
\<close>

theorem resolve_inherits_actions:
  "(validate (resolve f) = [] \<longleftrightarrow>
     (\<forall>g \<in> set (rf_groups f). \<forall>t \<in> set (rg_triggers g). rt_actions t \<noteq> [] \<or> rg_actions g \<noteq> [])) \<and>
   map (\<lambda>g. map (\<lambda>t. length (rt_actions t)) (rg_triggers g)) (rf_groups (resolve f)) =
     map (\<lambda>g. map (\<lambda>t. if rt_actions t = [] then length (rg_actions g) else length (rt_actions t))
            (rg_triggers g)) (rf_groups f)"
  unfolding validate_Nil
  by (auto simp: resolve_def resolve_group_def resolve_trigger_def Let_def)

text \<open>
  Options. A key that neither the group nor the trigger maps to a nested map has, in
  the resolved trigger, the trigger's value if it has one and the group's otherwise, both
  read after alias expansion of the keys; the resolved type is the expanded one.
\<close>

theorem resolve_trigger_options:
  fixes f :: raw_file
  defines "al g \<equiv> merge_aliases (rf_aliases f) (rg_aliases g)"
  assumes ij: "i < length (rf_groups f)" "j < length (rg_triggers (rf_groups f ! i))"
    and g: "g = rf_groups f ! i" and t: "t = rg_triggers g ! j"
    and ok: "layers_ok [expand_option_aliases (rg_options g) (al g), expand_option_aliases (rt_options t) (al g)]"
    and t': "t' = rg_triggers (rf_groups (resolve f) ! i) ! j"
  shows "rt_type t' = expand_alias (rt_type t) (al g) \<and>
         same_scalar (map_of (the (rt_options t')) k)
           (last_defined [expand_option_aliases (rg_options g) (al g),
              expand_option_aliases (rt_options t) (al g)] k)"
proof -
  have t'': "t' = resolve_trigger
      (g\<lparr>rg_options := expand_option_aliases (rg_options g) (al g),
         rg_actions := map (\<lambda>a. a\<lparr>ra_type := expand_alias (ra_type a) (al g)\<rparr>) (rg_actions g)\<rparr>) (al g) t"
    using ij by (simp add: t' g t resolve_def resolve_group_def Let_def al_def)
  have "rt_type t' = expand_alias (rt_type t) (al g)"
    by (simp add: t'' resolve_trigger_def Let_def)
  moreover have "rt_options t' = overlay_maps [expand_option_aliases (rg_options g) (al g),
      expand_option_aliases (rt_options t) (al g)]"
    by (simp add: t'' resolve_trigger_def Let_def)
  with overlay_maps_same_scalar [OF ok, of k]
  have "same_scalar (map_of (the (rt_options t')) k)
           (last_defined [expand_option_aliases (rg_options g) (al g),
              expand_option_aliases (rt_options t) (al g)] k)"
    by (simp add: overlay_maps_def)
  ultimately show ?thesis ..
qed

text \<open>
  Alias chains: an action that a trigger inherits has its type expanded twice, the same
  action written under the trigger once.
\<close>

definition chain_group :: "raw_action list \<Rightarrow> raw_action list \<Rightarrow> raw_group" where
  "chain_group group_do trigger_do =
     \<lparr>rg_name = ''g'', rg_aliases = [(''a'', ''b''), (''b'', ''c'')], rg_options = None,
      rg_triggers = [\<lparr>rt_type = ''T'', rt_name = [], rt_options = None, rt_actions = trigger_do\<rparr>],
      rg_actions = group_do\<rparr>"

lemma inherited_action_expanded_twice:
  defines "a \<equiv> \<lparr>ra_type = ''a'', ra_name = [], ra_options = None\<rparr>"
  shows "map ra_type (rt_actions (hd (rg_triggers (resolve_group [] (chain_group [a] []))))) = [''c'']"
    and "map ra_type (rt_actions (hd (rg_triggers (resolve_group [] (chain_group [] [a]))))) = [''b'']"
  by (simp_all add: a_def chain_group_def resolve_group_def resolve_trigger_def Let_def merge_aliases_def
      put_all_def expand_alias_def index_byte_def find_index_def)

theorem build_trigger_settings_precedence_witness:
  "build_trigger_settings (Some [(''debounce'', VStr ''300ms''), (''max_queue_size'', VInt 100)])
     None None (Some [(''debounce'', VStr ''1m30s'')]) (Some [(''max_queue_size'', VInt 3)]) =
   \<lparr>ts_concurrency_mode = [], ts_max_queue_size = 3, ts_debounce = 90000000000,
    ts_error_threshold = 0, ts_action_error_threshold = 0\<rparr>"
proof -
  have d: "parse_duration ''1m30s'' = Some 90000000000"
    by (simp add: parse_duration_def dur_terms.simps dur_term_def is_digit_def is_unit_char_def
      unit_map_def digits_value_def)
  show ?thesis
    by (subst build_trigger_settings_precedence)
      (simp_all add: layers_ok_def amap_ok_def str_setting_def int_setting_def dur_setting_def d)
qed

theorem resolve_inherits_actions_witness:
  "validate (resolve \<lparr>rf_path = [], rf_aliases = [], rf_secrets = [], rf_groups =
     [chain_group [\<lparr>ra_type = ''a'', ra_name = [], ra_options = None\<rparr>] []]\<rparr>) = []"
  using resolve_inherits_actions [of "\<lparr>rf_path = [], rf_aliases = [], rf_secrets = [], rf_groups =
     [chain_group [\<lparr>ra_type = ''a'', ra_name = [], ra_options = None\<rparr>] []]\<rparr>"]
  by (simp add: chain_group_def)

theorem resolve_trigger_options_witness:
  "same_scalar (map_of (the (rt_options (rg_triggers (rf_groups (resolve
       \<lparr>rf_path = [], rf_aliases = [], rf_secrets = [], rf_groups =
         [chain_group [] []\<lparr>rg_options := Some [(''a.x'', VInt 1)]\<rparr>]\<rparr>) ! 0) ! 0))) ''b.x'') (Some (VInt 1))"
proof -
  let ?g = "chain_group [] []\<lparr>rg_options := Some [(''a.x'', VInt 1)]\<rparr>"
  let ?f = "\<lparr>rf_path = [], rf_aliases = [], rf_secrets = [], rf_groups = [?g]\<rparr>"
  have e: "expand_option_aliases (Some [(''a.x'', VInt 1)])
      (merge_aliases [] [(''a'', ''b''), (''b'', ''c'')]) = Some [(''b.x'', VInt 1)]"
    by (simp add: expand_option_aliases_def merge_aliases_def put_all_def expand_alias_def
      index_byte_def find_index_def)
  have "same_scalar (map_of (the (rt_options (rg_triggers (rf_groups (resolve ?f) ! 0) ! 0))) ''b.x'')
     (last_defined [expand_option_aliases (rg_options ?g) (merge_aliases (rf_aliases ?f) (rg_aliases ?g)),
        expand_option_aliases (rt_options (rg_triggers ?g ! 0)) (merge_aliases (rf_aliases ?f) (rg_aliases ?g))] ''b.x'')"
    by (rule resolve_trigger_options [where i = 0 and j = 0 and f = ?f, THEN conjunct2])
      (simp_all add: chain_group_def e layers_ok_def amap_ok_def expand_option_aliases_def [of None])
  then show ?thesis by (simp add: chain_group_def e expand_option_aliases_def [of None])
qed

end
