(* ===== verification/Recurfile_Merge.thy ===== *)
theory Recurfile_Merge
  imports Recurfile_Domain
begin

text \<open>
  \<open>domain/recurfile/merge.go\<close>: merging a fragment into the text of a recurfile. The code
  splices lines with \<open>append(append(before, ins...), after...)\<close> on slices that share one
  array, so the model keeps the array: a slice of the lines is its array (whose length is
  the capacity) and its length. The parser is the argument that \<open>RegisterParser\<close> installs;
  \<open>grow\<close> gives the capacity that \<open>append\<close> chooses when it has to allocate.
\<close>

section \<open>Slices\<close>

type_synonym slice = "string list \<times> nat"

definition slice_of :: "string list \<Rightarrow> slice" where
  "slice_of xs = (xs, length xs)"

definition slice_list :: "slice \<Rightarrow> string list" where
  "slice_list s = take (snd s) (fst s)"

text \<open>
  \<open>append(buf[:n], ys...)\<close>: written into the array when the capacity suffices, into a new
  one otherwise.
\<close>

definition go_append :: "(nat \<Rightarrow> nat \<Rightarrow> nat) \<Rightarrow> string list \<Rightarrow> nat \<Rightarrow> string list \<Rightarrow> slice" where
  "go_append grow buf n ys =
     (let m = n + length ys in
      if m \<le> length buf then (take n buf @ ys @ drop m buf, m)
      else (take n buf @ ys @ replicate (grow (length buf) m - m) [], m))"

text \<open>
  \<open>before := lines[:k]; after := lines[k:]; lines = append(append(before, ins...), after...)\<close>.
  When the inner \<open>append\<close> writes in place, \<open>after\<close> shows what it wrote.
\<close>

definition splice :: "(nat \<Rightarrow> nat \<Rightarrow> nat) \<Rightarrow> slice \<Rightarrow> nat \<Rightarrow> string list \<Rightarrow> slice" where
  "splice grow s k ins =
     (let buf = fst s; n = snd s;
          (buf1, n1) = go_append grow buf k ins;
          after_arr = (if k + length ins \<le> length buf then buf1 else buf);
          after = take (n - k) (drop k after_arr)
      in go_append grow buf1 n1 after)"

section \<open>Rendering\<close>

definition option_lines :: "fmt_env \<Rightarrow> gmap \<Rightarrow> string list" where
  "option_lines fe m =
     (if m = [] then []
      else ''      options:'' #
        map (\<lambda>(k, v). ''        '' @ k @ '': '' @ go_quote (fmt_v fe v)) m)"

definition opt_gmap :: "gmap option \<Rightarrow> gmap" where
  "opt_gmap m = (case m of None \<Rightarrow> [] | Some m \<Rightarrow> m)"

definition trigger_lines :: "fmt_env \<Rightarrow> raw_trigger \<Rightarrow> string list" where
  "trigger_lines fe t = (''    - type: '' @ rt_type t) # option_lines fe (opt_gmap (rt_options t))"

definition action_lines :: "fmt_env \<Rightarrow> raw_action \<Rightarrow> string list" where
  "action_lines fe a =
     (case map_of (opt_gmap (ra_options a)) ''_shorthand'' of
        Some sh \<Rightarrow> [''    - '' @ ra_type a @ '': '' @ go_quote (fmt_v fe sh)]
      | None \<Rightarrow> (''    - type: '' @ ra_type a) # option_lines fe (opt_gmap (ra_options a)))"

definition render_group_content :: "raw_group \<Rightarrow> string" where
  "render_group_content g =
     (if rg_triggers g = [] then []
      else ''  on:'' @ nl @ concat (map (\<lambda>t. ''    - type: '' @ rt_type t @ nl) (rg_triggers g))) @
     (if rg_actions g = [] then []
      else ''  do:'' @ nl @ concat (map (\<lambda>a. ''    - type: '' @ ra_type a @ nl) (rg_actions g)))"

section \<open>Finding the places\<close>

text \<open>The first index in \<open>[lo, hi)\<close> whose line satisfies \<open>P\<close>.\<close>

definition first_in :: "nat \<Rightarrow> nat \<Rightarrow> (string \<Rightarrow> bool) \<Rightarrow> string list \<Rightarrow> nat option" where
  "first_in lo hi P ls = find (\<lambda>i. P (ls ! i)) [lo..<hi]"

definition top_level_line :: "string \<Rightarrow> bool" where
  "top_level_line l \<longleftrightarrow>
     l \<noteq> [] \<and> hd l \<noteq> CHR '' '' \<and> hd l \<noteq> CHR 0x09 \<and> hd l \<noteq> CHR 0x23"

definition group_end :: "string list \<Rightarrow> nat \<Rightarrow> nat" where
  "group_end ls gi =
     (case first_in (Suc gi) (length ls) top_level_line ls of Some i \<Rightarrow> i | None \<Rightarrow> length ls)"

definition on_line :: "string list \<Rightarrow> nat \<Rightarrow> nat \<Rightarrow> nat option" where
  "on_line ls gi ge = first_in (Suc gi) ge (\<lambda>l. trim_space l = ''on:'') ls"

text \<open>The line of \<open>do:\<close> after (or at) the one of \<open>on:\<close>.\<close>

definition triggers_end :: "string list \<Rightarrow> nat \<Rightarrow> nat \<Rightarrow> nat option" where
  "triggers_end ls gi ge =
     (case on_line ls gi ge of
        None \<Rightarrow> None
      | Some i \<Rightarrow> first_in i ge (\<lambda>l. trim_space l = ''do:'') ls)"

definition do_line :: "string list \<Rightarrow> nat \<Rightarrow> nat \<Rightarrow> nat option" where
  "do_line ls gi ge = first_in (Suc gi) ge (\<lambda>l. trim_space l = ''do:'') ls"

definition do_end :: "string list \<Rightarrow> nat \<Rightarrow> nat \<Rightarrow> nat" where
  "do_end ls i ge =
     (case first_in (Suc i) ge (\<lambda>l. let t = trim_space l in
             t \<noteq> [] \<and> \<not> has_prefix t ''-'' \<and> \<not> has_prefix t '' '') ls of
        Some j \<Rightarrow> j | None \<Rightarrow> ge)"

section \<open>Merging\<close>

definition merge_triggers :: "fmt_env \<Rightarrow> (nat \<Rightarrow> nat \<Rightarrow> nat) \<Rightarrow> raw_group \<Rightarrow> nat \<Rightarrow>
    slice \<times> nat \<Rightarrow> slice \<times> nat" where
  "merge_triggers fe grow fg gi st =
     (let (s, ge) = st; ls = slice_list s in
      if rg_triggers fg = [] then st
      else let ins = concat (map (trigger_lines fe) (rg_triggers fg)) in
        (case on_line ls gi ge of
           None \<Rightarrow> let on_ins = ''  on:'' # ins
                   in (splice grow s (Suc gi) on_ins, ge + length on_ins)
         | Some _ \<Rightarrow>
             (case triggers_end ls gi ge of
                Some k \<Rightarrow> (splice grow s k ins, ge + length ins)
              | None \<Rightarrow> (splice grow s ge ins, ge + length ins))))"

definition merge_actions :: "fmt_env \<Rightarrow> (nat \<Rightarrow> nat \<Rightarrow> nat) \<Rightarrow> raw_group \<Rightarrow> nat \<Rightarrow>
    slice \<times> nat \<Rightarrow> slice" where
  "merge_actions fe grow fg gi st =
     (let (s, ge) = st; ls = slice_list s in
      if rg_actions fg = [] then s
      else let ins = concat (map (action_lines fe) (rg_actions fg)) in
        (case do_line ls gi ge of
           Some i \<Rightarrow> splice grow s (do_end ls i ge) ins
         | None \<Rightarrow> splice grow s ge (''  do:'' # ins)))"

definition merge_group_into_yaml :: "fmt_env \<Rightarrow> (nat \<Rightarrow> nat \<Rightarrow> nat) \<Rightarrow> string \<Rightarrow> raw_group \<Rightarrow> string" where
  "merge_group_into_yaml fe grow existing fg =
     (let ls = str_split CHR 0x0A existing;
          header = rg_name fg @ '':'' in
      case find_index (\<lambda>l. trim_space l = header) ls of
        None \<Rightarrow>
          (if has_suffix existing nl then existing else existing @ nl) @ nl @ header @ nl @
          render_group_content fg
      | Some gi \<Rightarrow>
          let st = merge_triggers fe grow fg gi (slice_of ls, group_end ls gi);
              s = merge_actions fe grow fg gi st
          in if rg_triggers fg = [] \<and> rg_actions fg = [] then existing
             else str_join nl (slice_list s))"

definition merge :: "(string \<Rightarrow> raw_file result) \<Rightarrow> fmt_env \<Rightarrow> (nat \<Rightarrow> nat \<Rightarrow> nat) \<Rightarrow> string \<Rightarrow>
    string \<Rightarrow> string result" where
  "merge parse fe grow existing fragment =
     (if trim_space existing = [] then Inr fragment
      else case parse existing of
        Inl e \<Rightarrow> Inl (''existing recurfile is invalid: '' @ e)
      | Inr ef \<Rightarrow>
          (case parse fragment of
             Inl e \<Rightarrow> Inl (''fragment is invalid: '' @ e)
           | Inr ff \<Rightarrow>
               (case find (\<lambda>g. rg_name g \<in> rg_name ` set (rf_groups ef)) (rf_groups ff) of
                  Some fg \<Rightarrow> Inr (merge_group_into_yaml fe grow existing fg)
                | None \<Rightarrow>
                    Inr ((if has_suffix existing nl then existing else existing @ nl) @ nl @ fragment))))"

section \<open>What a splice does\<close>

lemma go_append_list: "n \<le> length buf \<Longrightarrow> slice_list (go_append grow buf n ys) = take n buf @ ys"
  by (auto simp: go_append_def Let_def slice_list_def)

lemma go_append_len [simp]: "snd (go_append grow buf n ys) = n + length ys"
  by (simp add: go_append_def Let_def)

lemma go_append_cap:
  "n \<le> length buf \<Longrightarrow> n + length ys \<le> length (fst (go_append grow buf n ys))"
  by (auto simp: go_append_def Let_def)

lemma go_append_prefix: "n \<le> length buf \<Longrightarrow> take n (fst (go_append grow buf n ys)) = take n buf"
  by (simp add: go_append_def Let_def)

text \<open>Without spare capacity up to the insertion point, the lines are inserted.\<close>

lemma splice_fresh:
  assumes "k \<le> snd s" "snd s \<le> length (fst s)" "length (fst s) < k + length ins"
  shows "slice_list (splice grow s k ins) = take k (slice_list s) @ ins @ drop k (slice_list s)"
proof -
  obtain buf n where s: "s = (buf, n)" by (cases s)
  define b1 where "b1 = fst (go_append grow buf k ins)"
  define m where "m = k + length ins"
  define aft where "aft = take (n - k) (drop k buf)"
  have k: "k \<le> length buf" using assms s by simp
  have a1: "go_append grow buf k ins = (b1, m)"
    using go_append_len [of grow buf k ins] by (simp add: b1_def m_def prod_eq_iff)
  have sp: "splice grow s k ins = go_append grow b1 m aft"
    using assms by (simp add: splice_def s a1 aft_def)
  have m: "m \<le> length b1" using go_append_cap [OF k, of ins grow] by (simp add: b1_def m_def)
  have "take m b1 = slice_list (go_append grow buf k ins)" by (simp add: slice_list_def a1)
  then have "take m b1 = take k buf @ ins" using go_append_list [OF k, of grow ins] by simp
  then show ?thesis
    unfolding sp go_append_list [OF m] using assms by (simp add: aft_def slice_list_def s drop_take)
qed

text \<open>
  On a slice that fills its array (as \<open>strings.Split\<close> returns it) with at least as many lines
  after the insertion point as are inserted, those lines are lost: the inserted ones are
  written over them and then copied again.
\<close>

lemma splice_in_place:
  assumes "snd s = length (fst s)" "k + length ins \<le> length (fst s)" "ins \<noteq> []"
  shows "slice_list (splice grow s k ins) =
    take k (slice_list s) @ ins @ ins @ drop (k + length ins) (slice_list s)"
proof -
  obtain buf n where s: "s = (buf, n)" by (cases s)
  with assms have n: "n = length buf" by simp
  define m where "m = k + length ins"
  define b1 where "b1 = take k buf @ ins @ drop m buf"
  have a1: "go_append grow buf k ins = (b1, m)"
    using assms s by (simp add: go_append_def Let_def m_def b1_def)
  have aft: "take (n - k) (drop k b1) = ins @ drop m buf"
    using assms s n by (simp add: b1_def m_def)
  have sp: "splice grow s k ins = go_append grow b1 m (ins @ drop m buf)"
    using assms s aft by (simp add: splice_def a1)
  have m: "m \<le> length b1" using assms s by (simp add: b1_def m_def)
  have "take m b1 = take k buf @ ins" using assms s by (simp add: b1_def m_def)
  then show ?thesis
    unfolding sp go_append_list [OF m] using s n by (simp add: slice_list_def m_def)
qed

text \<open>What precedes the insertion point is never touched.\<close>

lemma splice_prefix:
  assumes "k \<le> snd s" "snd s \<le> length (fst s)"
  shows "take k (slice_list (splice grow s k ins)) = take k (slice_list s)"
    and "snd (splice grow s k ins) = snd s + length ins"
    and "snd (splice grow s k ins) \<le> length (fst (splice grow s k ins))"
proof -
  obtain buf n where s: "s = (buf, n)" by (cases s)
  define b1 where "b1 = fst (go_append grow buf k ins)"
  define m where "m = k + length ins"
  define aft where "aft = take (n - k) (drop k (if k + length ins \<le> length buf then b1 else buf))"
  have k: "k \<le> length buf" using assms s by simp
  have a1: "go_append grow buf k ins = (b1, m)"
    using go_append_len [of grow buf k ins] by (simp add: b1_def m_def prod_eq_iff)
  have sp: "splice grow s k ins = go_append grow b1 m aft"
    by (simp add: splice_def s a1 aft_def)
  have m: "m \<le> length b1" using go_append_cap [OF k, of ins grow] by (simp add: b1_def m_def)
  have p: "take k b1 = take k buf" using go_append_prefix [OF k, of grow ins] by (simp add: b1_def)
  have "slice_list (splice grow s k ins) = take m b1 @ aft"
    unfolding sp by (rule go_append_list [OF m])
  then show "take k (slice_list (splice grow s k ins)) = take k (slice_list s)"
    using p m assms s by (simp add: slice_list_def m_def min_def)
  have "length aft = n - k"
    using assms s by (auto simp: aft_def b1_def go_append_def Let_def)
  then show snd: "snd (splice grow s k ins) = snd s + length ins"
    unfolding sp using assms s by (simp add: m_def)
  show "snd (splice grow s k ins) \<le> length (fst (splice grow s k ins))"
    using go_append_cap [OF m, of aft grow] snd unfolding sp by simp
qed

section \<open>Merging keeps what comes before\<close>

lemma first_in_Some: "first_in lo hi P ls = Some i \<Longrightarrow> lo \<le> i \<and> i < hi \<and> P (ls ! i)"
  by (auto simp: first_in_def dest: find_Some_set)

lemma group_end_bounds: "gi < length ls \<Longrightarrow> gi < group_end ls gi \<and> group_end ls gi \<le> length ls"
  by (auto simp: group_end_def split: option.splits dest: first_in_Some)

lemma triggers_end_bounds: "triggers_end ls gi ge = Some k \<Longrightarrow> gi < k \<and> k < ge"
  by (auto simp: triggers_end_def on_line_def split: option.splits dest!: first_in_Some)

lemma do_end_bounds: "do_line ls gi ge = Some i \<Longrightarrow> gi < do_end ls i ge \<and> do_end ls i ge \<le> ge"
  by (auto simp: do_end_def do_line_def split: option.splits dest!: first_in_Some)

text \<open>Positions that a merge state may have.\<close>

definition merge_ok :: "nat \<Rightarrow> slice \<times> nat \<Rightarrow> bool" where
  "merge_ok gi st \<longleftrightarrow> gi < snd st \<and> snd st \<le> snd (fst st) \<and> snd (fst st) \<le> length (fst (fst st))"

lemma splice_step:
  assumes "merge_ok gi (s, ge)" "gi < k" "k \<le> ge"
  shows "merge_ok gi (splice grow s k ins, ge + length ins) \<and>
    take (Suc gi) (slice_list (splice grow s k ins)) = take (Suc gi) (slice_list s)"
proof -
  from assms have k: "k \<le> snd s" "snd s \<le> length (fst s)" by (auto simp: merge_ok_def)
  note sp = splice_prefix [OF k, of grow ins]
  have "take (Suc gi) (take k (slice_list (splice grow s k ins))) = take (Suc gi) (take k (slice_list s))"
    using sp(1) by simp
  then show ?thesis using assms sp(2,3) by (auto simp: merge_ok_def)
qed

lemma merge_triggers_ok:
  assumes "merge_ok gi st"
  shows "merge_ok gi (merge_triggers fe grow fg gi st) \<and>
    take (Suc gi) (slice_list (fst (merge_triggers fe grow fg gi st))) = take (Suc gi) (slice_list (fst st))"
proof -
  obtain s ge where st: "st = (s, ge)" by (cases st)
  let ?ins = "concat (map (trigger_lines fe) (rg_triggers fg))"
  have len: "ge + Suc (length ?ins) = ge + length (''  on:'' # ?ins)" by simp
  show ?thesis
    using assms st triggers_end_bounds [of "slice_list s" gi ge]
      splice_step [of gi s ge "Suc gi" grow "''  on:'' # ?ins"] splice_step [of gi s ge ge grow ?ins]
      splice_step [of gi s ge _ grow ?ins]
    by (auto simp: merge_triggers_def Let_def merge_ok_def split: option.splits)
qed

lemma merge_actions_prefix:
  assumes "merge_ok gi st"
  shows "take (Suc gi) (slice_list (merge_actions fe grow fg gi st)) = take (Suc gi) (slice_list (fst st))"
proof -
  obtain s ge where st: "st = (s, ge)" by (cases st)
  let ?ins = "concat (map (action_lines fe) (rg_actions fg))"
  have "take (Suc gi) (slice_list (splice grow s (do_end (slice_list s) i ge) ?ins)) =
      take (Suc gi) (slice_list s)" if "do_line (slice_list s) gi ge = Some i" for i
    using splice_step [of gi s ge "do_end (slice_list s) i ge" grow ?ins] assms st do_end_bounds [OF that] by simp
  moreover have "take (Suc gi) (slice_list (splice grow s ge (''  do:'' # ?ins))) = take (Suc gi) (slice_list s)"
    using splice_step [of gi s ge ge grow "''  do:'' # ?ins"] assms st by (simp add: merge_ok_def)
  ultimately show ?thesis
    by (auto simp: merge_actions_def Let_def st split: option.splits)
qed

lemma str_join_append_prefix: "has_prefix (str_join sep (xs @ ys)) (str_join sep xs)"
proof (induction xs)
  case (Cons x xs)
  have "\<exists>r. str_join sep (x # xs @ ys) = str_join sep (x # xs) @ r"
  proof (cases xs)
    case Nil
    then show ?thesis by (cases ys) auto
  next
    case (Cons y zs)
    with Cons.IH show ?thesis by (auto simp: has_prefix_iff)
  qed
  then show ?case by (simp add: has_prefix_iff)
qed simp

text \<open>
  merging a group into the text of a recurfile keeps everything up to and including the
  group's header line, byte for byte, whatever is inserted below it.
\<close>

theorem merge_group_keeps_prefix:
  assumes "find_index (\<lambda>l. trim_space l = rg_name fg @ '':'') (str_split CHR 0x0A existing) = Some gi"
  shows "has_prefix (merge_group_into_yaml fe grow existing fg)
           (str_join nl (take (Suc gi) (str_split CHR 0x0A existing)))"
proof -
  let ?ls = "str_split CHR 0x0A existing"
  have gi: "gi < length ?ls" using find_index_Some [OF assms] by simp
  define st where "st = merge_triggers fe grow fg gi (slice_of ?ls, group_end ?ls gi)"
  define s where "s = merge_actions fe grow fg gi st"
  have "merge_ok gi (slice_of ?ls, group_end ?ls gi)"
    using group_end_bounds [OF gi] by (simp add: merge_ok_def slice_of_def)
  from merge_triggers_ok [OF this, of fe grow fg] merge_actions_prefix [of gi st fe grow fg]
  have p: "take (Suc gi) (slice_list s) = take (Suc gi) ?ls"
    by (simp add: s_def st_def slice_of_def slice_list_def)
  have pre: "has_prefix (str_join nl xs) (str_join nl (take (Suc gi) xs))" for xs
    using str_join_append_prefix [of nl "take (Suc gi) xs" "drop (Suc gi) xs"] by simp
  show ?thesis
    using pre [of ?ls] pre [of "slice_list s"] p assms
    by (auto simp: merge_group_into_yaml_def Let_def st_def [symmetric] s_def [symmetric])
qed

text \<open>
  C15: what happens when triggers are merged into a group that has both \<open>on:\<close> and \<open>do:\<close>.
  The new lines go before \<open>do:\<close>. When the text has fewer lines from there on than are
  inserted, the result is the old text with the new lines inserted; otherwise the splice
  works in place and as many old lines, \<open>do:\<close> first, are lost, the new lines standing twice.
\<close>

theorem merge_triggers_before_do:
  assumes gi: "find_index (\<lambda>l. trim_space l = rg_name fg @ '':'') (str_split CHR 0x0A existing) = Some gi"
    and ls: "ls = str_split CHR 0x0A existing"
    and fg: "rg_triggers fg \<noteq> []" "rg_actions fg = []"
    and k: "triggers_end ls gi (group_end ls gi) = Some k"
    and ins: "ins = concat (map (trigger_lines fe) (rg_triggers fg))"
  shows "merge_group_into_yaml fe grow existing fg = str_join nl
    (if length ls < k + length ins then take k ls @ ins @ drop k ls
     else take k ls @ ins @ ins @ drop (k + length ins) ls)"
proof -
  have "ins \<noteq> []" using fg(1) unfolding ins by (cases "rg_triggers fg") (auto simp: trigger_lines_def)
  have gl: "gi < length ls" using find_index_Some [OF gi] ls by simp
  have kb: "k \<le> length ls" using triggers_end_bounds [OF k] group_end_bounds [OF gl] by simp
  have on: "on_line ls gi (group_end ls gi) \<noteq> None" using k by (auto simp: triggers_end_def split: option.splits)
  have sl: "slice_list (slice_of ls) = ls" by (simp add: slice_list_def slice_of_def)
  have mt: "fst (merge_triggers fe grow fg gi (slice_of ls, group_end ls gi)) = splice grow (slice_of ls) k ins"
    using fg(1) on k by (auto simp: merge_triggers_def Let_def sl ins)
  have "slice_list (splice grow (slice_of ls) k ins) =
     (if length ls < k + length ins then take k ls @ ins @ drop k ls
      else take k ls @ ins @ ins @ drop (k + length ins) ls)"
    using splice_fresh [of k "slice_of ls" ins grow] splice_in_place [of "slice_of ls" k ins grow]
      kb \<open>ins \<noteq> []\<close> sl by (simp add: slice_of_def not_less)
  then show ?thesis
    using gi fg mt by (simp add: merge_group_into_yaml_def ls [symmetric] Let_def merge_actions_def split_beta)
qed

text \<open>
  the branches of \<open>Merge\<close>. A blank file becomes the fragment, an invalid file or fragment
  is reported as such and nothing is written, and a fragment that shares no group name with
  the file is appended after a blank line, so that both texts survive whole.
\<close>

theorem merge_branches:
  "(trim_space existing = [] \<longrightarrow> merge parse fe grow existing fragment = Inr fragment) \<and>
   (trim_space existing \<noteq> [] \<longrightarrow> parse existing = Inl e \<longrightarrow>
      merge parse fe grow existing fragment = Inl (''existing recurfile is invalid: '' @ e)) \<and>
   (trim_space existing \<noteq> [] \<longrightarrow> parse existing = Inr ef \<longrightarrow> parse fragment = Inl e \<longrightarrow>
      merge parse fe grow existing fragment = Inl (''fragment is invalid: '' @ e)) \<and>
   (trim_space existing \<noteq> [] \<longrightarrow> parse existing = Inr ef \<longrightarrow> parse fragment = Inr ff \<longrightarrow>
      rg_name ` set (rf_groups ef) \<inter> rg_name ` set (rf_groups ff) = {} \<longrightarrow>
      (\<exists>sep \<in> {nl, nl @ nl}. merge parse fe grow existing fragment = Inr (existing @ sep @ fragment)))"
proof -
  have "find (\<lambda>g. rg_name g \<in> rg_name ` set (rf_groups ef)) (rf_groups ff) = None"
    if "rg_name ` set (rf_groups ef) \<inter> rg_name ` set (rf_groups ff) = {}"
    using that by (auto simp: find_None_iff)
  then show ?thesis by (auto simp: merge_def)
qed

section \<open>A file with one group\<close>

definition sample_lines :: "string list" where
  "sample_lines = [''g:'', ''  on:'', ''    - type: A'', ''  do:'', ''    - shell: x'', []]"

definition sample_text :: string where
  "sample_text = str_join nl sample_lines"

definition sample_fragment :: raw_group where
  "sample_fragment = \<lparr>rg_name = ''g'', rg_aliases = [], rg_options = None,
     rg_triggers = [\<lparr>rt_type = ''B'', rt_name = [], rt_options = None, rt_actions = []\<rparr>],
     rg_actions = []\<rparr>"

lemma sample_split: "str_split CHR 0x0A sample_text = sample_lines"
  by (simp add: sample_text_def sample_lines_def)

lemma sample_header:
  "find_index (\<lambda>l. trim_space l = rg_name sample_fragment @ '':'') (str_split CHR 0x0A sample_text) = Some 0"
  by (simp add: sample_split) (simp add: sample_lines_def sample_fragment_def find_index_def trim_space_def is_space_def)

lemma sample_places: "group_end sample_lines 0 = 6" "triggers_end sample_lines 0 6 = Some 3"
  by (simp_all add: sample_lines_def group_end_def triggers_end_def on_line_def first_in_def
      top_level_line_def upt_rec numeral_eq_Suc trim_space_def is_space_def)

text \<open>A formatter of floats and durations, and a growth policy, for the concrete runs.\<close>

definition sample_fe :: fmt_env where
  "sample_fe = \<lparr>fmt_float = (\<lambda>m e. itoa m), fmt_dur = itoa\<rparr>"

definition double_cap :: "nat \<Rightarrow> nat \<Rightarrow> nat" where
  "double_cap c n = max n (2 * c)"

theorem merge_group_keeps_prefix_witness:
  "has_prefix (merge_group_into_yaml sample_fe double_cap sample_text sample_fragment) ''g:''"
  using merge_group_keeps_prefix [OF sample_header, of sample_fe double_cap]
  by (simp add: sample_split) (simp add: sample_lines_def)

text \<open>The line \<open>do:\<close> is gone from the result, and the trigger \<open>B\<close> stands twice.\<close>

theorem merge_triggers_before_do_witness:
  "merge_group_into_yaml sample_fe double_cap sample_text sample_fragment =
     str_join nl [''g:'', ''  on:'', ''    - type: A'', ''    - type: B'', ''    - type: B'', ''    - shell: x'', []]"
proof -
  have ins: "concat (map (trigger_lines sample_fe) (rg_triggers sample_fragment)) = [''    - type: B'']"
    by (simp add: sample_fragment_def trigger_lines_def option_lines_def opt_gmap_def)
  have "merge_group_into_yaml sample_fe double_cap sample_text sample_fragment = str_join nl
    (if length sample_lines < 3 + length [''    - type: B''] then take 3 sample_lines @ [''    - type: B''] @ drop 3 sample_lines
     else take 3 sample_lines @ [''    - type: B''] @ [''    - type: B''] @ drop (3 + length [''    - type: B'']) sample_lines)"
    by (rule merge_triggers_before_do [OF sample_header])
      (simp_all only: sample_split sample_places ins, simp_all add: sample_fragment_def)
  then show ?thesis by (simp add: sample_lines_def)
qed

theorem merge_branches_witness:
  "merge (\<lambda>s. Inl ''bad'') sample_fe double_cap ''x'' ''y'' = Inl ''existing recurfile is invalid: bad''"
  using merge_branches [of "''x''" "\<lambda>s. Inl ''bad''" sample_fe double_cap "''y''" "''bad''"]
  by (simp add: trim_space_def is_space_def)

end
