(* ===== verification/Yaml_Parse.thy ===== *)
theory Yaml_Parse
  imports Recurfile_Domain
begin

text \<open>
  \<open>infra/yaml/recurfile/parse.go\<close> and \<open>name.go\<close>: from the node tree of a YAML document to a
  parsed recurfile. The YAML library is outside the repository: \<open>unmarshal\<close> gives the node
  tree of a text and \<open>decode\<close> is \<open>Node.Decode\<close> into a \<open>map[string]any\<close>.
\<close>

section \<open>YAML nodes\<close>

text \<open>
  \<open>yaml.Node\<close> by kind. The content of a mapping is the flat list of its keys and values. The
  value of an alias node is the name of its anchor. \<open>YNone\<close> is the zero node.
\<close>

datatype ynode =
    YNone
  | YDoc "ynode list"
  | YSeq "ynode list"
  | YMapping "ynode list"
  | YScalar string string
  | YAlias string "ynode option"

fun node_value :: "ynode \<Rightarrow> string" where
  "node_value (YScalar tag v) = v"
| "node_value (YAlias v _) = v"
| "node_value _ = []"

fun node_kind :: "ynode \<Rightarrow> nat" where
  "node_kind YNone = 0"
| "node_kind (YDoc _) = 1"
| "node_kind (YSeq _) = 2"
| "node_kind (YMapping _) = 4"
| "node_kind (YScalar _ _) = 8"
| "node_kind (YAlias _ _) = 16"

definition node_kind_name :: "nat \<Rightarrow> string" where
  "node_kind_name k =
     (if k = 1 then ''document'' else if k = 2 then ''sequence'' else if k = 4 then ''mapping''
      else if k = 8 then ''scalar'' else if k = 16 then ''alias''
      else ''unknown('' @ itoa (int k) @ '')'')"

fun resolve_node :: "ynode \<Rightarrow> ynode" where
  "resolve_node (YAlias v (Some n)) = resolve_node n"
| "resolve_node n = n"

text \<open>The pairs the loop \<open>for i := 0; i < len(Content)-1; i += 2\<close> visits.\<close>

fun node_pairs :: "ynode list \<Rightarrow> (ynode \<times> ynode) list" where
  "node_pairs (k # v # r) = (k, v) # node_pairs r"
| "node_pairs _ = []"

definition raw_map :: "ynode list \<Rightarrow> (string, ynode) amap" where
  "raw_map ns = foldl (\<lambda>m (k, v). AList.update (node_value k) v m) [] (node_pairs ns)"

section \<open>Aliases and options\<close>

fun alias_pairs :: "(ynode \<times> ynode) list \<Rightarrow> (string, string) amap \<Rightarrow> (string, string) amap result" where
  "alias_pairs [] m = Inr m"
| "alias_pairs ((k, v) # r) m =
     (if node_value k = [] \<or> node_value v = []
      then Inl ''alias key and value must be non-empty strings''
      else alias_pairs r (AList.update (node_value k) (node_value v) m))"

definition parse_aliases :: "ynode \<Rightarrow> (string, string) amap result" where
  "parse_aliases n =
     (case n of YMapping ns \<Rightarrow> alias_pairs (node_pairs ns) [] | _ \<Rightarrow> Inl ''expected mapping'')"

text \<open>The optional \<open>options\<close> key: the decoded map and the errors.\<close>

definition parse_options :: "(ynode \<Rightarrow> gmap option result) \<Rightarrow> (string, ynode) amap \<Rightarrow>
    gmap option \<times> string list" where
  "parse_options decode raw =
     (case map_of raw ''options'' of
        None \<Rightarrow> (None, [])
      | Some n \<Rightarrow> (case decode n of Inl e \<Rightarrow> (None, [''options: '' @ e]) | Inr m \<Rightarrow> (m, [])))"

definition opt_value :: "(string, ynode) amap \<Rightarrow> string \<Rightarrow> string" where
  "opt_value raw k = (case map_of raw k of None \<Rightarrow> [] | Some n \<Rightarrow> node_value n)"

definition type_errs :: "string \<Rightarrow> string list" where
  "type_errs ty = (if ty = [] then [''type must be a non-empty string''] else [])"

definition unknown_keys :: "string list \<Rightarrow> (string, ynode) amap \<Rightarrow> string list" where
  "unknown_keys known raw =
     map (\<lambda>k. ''unknown key: '' @ go_quote k) (filter (\<lambda>k. k \<notin> set known) (amap_keys raw))"

section \<open>Actions\<close>

definition parse_detailed_action :: "(ynode \<Rightarrow> gmap option result) \<Rightarrow> (string, ynode) amap \<Rightarrow>
    raw_action option \<times> string list" where
  "parse_detailed_action decode raw =
     (let ty = opt_value raw ''type'';
          (opts, oerrs) = parse_options decode raw;
          extra = map (\<lambda>k. ''unknown key '' @ go_quote k @
                      '' in detailed action (has both 'type' and other keys)'')
                    (filter (\<lambda>k. k \<notin> set [''type'', ''name'', ''options'']) (amap_keys raw))
      in (Some \<lparr>ra_type = ty, ra_name = opt_value raw ''name'', ra_options = opts\<rparr>,
          type_errs ty @ oerrs @ extra))"

definition reserved_action_keys :: "string list" where
  "reserved_action_keys = [''type'', ''name'', ''options'']"

definition parse_shorthand_action :: "(ynode \<Rightarrow> gmap option result) \<Rightarrow> (string, ynode) amap \<Rightarrow>
    raw_action option \<times> string list" where
  "parse_shorthand_action decode raw =
     (case raw of
        [] \<Rightarrow> (None, [''empty action entry''])
      | (k, v) # [] \<Rightarrow>
          if k \<in> set reserved_action_keys
          then (None, [go_quote k @ '' is a reserved key and cannot be used as a plugin name''])
          else (case v of
              YScalar tag val \<Rightarrow>
                (Some \<lparr>ra_type = k, ra_name = [], ra_options = Some [(''_shorthand'', VStr val)]\<rparr>, [])
            | YMapping ns \<Rightarrow>
                (case decode v of
                   Inl e \<Rightarrow> (None, [''options: '' @ e])
                 | Inr opts \<Rightarrow> (Some \<lparr>ra_type = k, ra_name = [], ra_options = opts\<rparr>, []))
            | _ \<Rightarrow> (None, [''shorthand action value must be a scalar or mapping, got '' @
                           itoa (int (node_kind v))]))
      | _ \<Rightarrow> (None, [''shorthand action must have exactly one key, got: '' @
                     str_join '', '' (amap_keys raw)]))"

definition parse_action :: "(ynode \<Rightarrow> gmap option result) \<Rightarrow> ynode \<Rightarrow> raw_action option \<times> string list" where
  "parse_action decode n =
     (case resolve_node n of
        YMapping ns \<Rightarrow>
          let raw = raw_map ns in
          if amap_has raw ''type'' then parse_detailed_action decode raw
          else parse_shorthand_action decode raw
      | _ \<Rightarrow> (None, [''expected mapping'']))"

text \<open>Parsing the items of a list: the entries that came out, the errors with their index.\<close>

definition parse_items :: "string \<Rightarrow> (ynode \<Rightarrow> 'a option \<times> string list) \<Rightarrow> ynode list \<Rightarrow>
    'a list \<times> string list" where
  "parse_items label p ns =
     (let rs = map p ns in
      (List.map_filter fst rs,
       concat (map (\<lambda>(i, r). map (\<lambda>e. label @ ''['' @ itoa (int i) @ '']: '' @ e) (snd r))
                 (zip [0..<length rs] rs))))"

definition parse_actions :: "(ynode \<Rightarrow> gmap option result) \<Rightarrow> ynode \<Rightarrow> raw_action list \<times> string list" where
  "parse_actions decode n =
     (case n of
        YSeq ns \<Rightarrow> parse_items ''do'' (parse_action decode) ns
      | _ \<Rightarrow> ([], [''do: expected list'']))"

definition parse_do :: "(ynode \<Rightarrow> gmap option result) \<Rightarrow> (string, ynode) amap \<Rightarrow>
    raw_action list \<times> string list" where
  "parse_do decode raw =
     (case map_of raw ''do'' of None \<Rightarrow> ([], []) | Some n \<Rightarrow> parse_actions decode n)"

section \<open>Triggers\<close>

definition parse_trigger :: "(ynode \<Rightarrow> gmap option result) \<Rightarrow> ynode \<Rightarrow> raw_trigger option \<times> string list" where
  "parse_trigger decode n =
     (case resolve_node n of
        YMapping ns \<Rightarrow>
          let raw = raw_map ns;
              terrs = (case map_of raw ''type'' of
                         None \<Rightarrow> [''missing required key: type'']
                       | Some t \<Rightarrow> type_errs (node_value t));
              (opts, oerrs) = parse_options decode raw;
              (acts, aerrs) = parse_do decode raw
          in (Some \<lparr>rt_type = opt_value raw ''type'', rt_name = opt_value raw ''name'',
                    rt_options = opts, rt_actions = acts\<rparr>,
              terrs @ oerrs @ aerrs @ unknown_keys [''type'', ''name'', ''options'', ''do''] raw)
      | _ \<Rightarrow> (None, [''expected mapping'']))"

definition parse_triggers :: "(ynode \<Rightarrow> gmap option result) \<Rightarrow> ynode \<Rightarrow> raw_trigger list \<times> string list" where
  "parse_triggers decode n =
     (case n of
        YSeq ns \<Rightarrow>
          if ns = [] then ([], [''on: must not be empty''])
          else parse_items ''trigger'' (parse_trigger decode) ns
      | _ \<Rightarrow> ([], [''on: expected list'']))"

section \<open>Groups\<close>

definition parse_group :: "(ynode \<Rightarrow> gmap option result) \<Rightarrow> string \<Rightarrow> ynode \<Rightarrow>
    raw_group option \<times> string list" where
  "parse_group decode name n =
     (case n of
        YMapping ns \<Rightarrow>
          let raw = raw_map ns;
              (al, alerrs) = (case map_of raw ''aliases'' of
                 None \<Rightarrow> ([], [])
               | Some a \<Rightarrow> (case parse_aliases a of Inl e \<Rightarrow> ([], [''aliases: '' @ e]) | Inr m \<Rightarrow> (m, [])));
              (opts, oerrs) = parse_options decode raw;
              (trigs, terrs) = (case map_of raw ''on'' of
                 Some t \<Rightarrow> parse_triggers decode t
               | None \<Rightarrow> (case map_of raw ''triggers'' of
                            Some t \<Rightarrow> parse_triggers decode t
                          | None \<Rightarrow> ([], [''missing required key: on''])));
              (acts, aerrs) = parse_do decode raw
          in (Some \<lparr>rg_name = name, rg_aliases = al, rg_options = opts, rg_triggers = trigs, rg_actions = acts\<rparr>,
              alerrs @ oerrs @ terrs @ aerrs @
              unknown_keys [''aliases'', ''options'', ''on'', ''triggers'', ''do''] raw)
      | _ \<Rightarrow> (None, [''expected mapping'']))"

section \<open>Secrets\<close>

definition secret_ident_start :: "char \<Rightarrow> bool" where
  "secret_ident_start c \<longleftrightarrow> (65 \<le> ord c \<and> ord c \<le> 90) \<or> (97 \<le> ord c \<and> ord c \<le> 122) \<or> c = CHR ''_''"

text \<open>
  The regular expression \<open>^\$\{([A-Za-z_][A-Za-z0-9_]*)(?:(:[-?])(.+?))?\}$\<close> as a function: the
  variable, the operator (empty when absent) and its argument.
\<close>

definition env_ref_match :: "string \<Rightarrow> (string \<times> string \<times> string) option" where
  "env_ref_match s =
     (case s of
        d # b # c # r \<Rightarrow>
          if d = CHR 0x24 \<and> b = CHR 0x7B \<and> secret_ident_start c then
            (let ident = (\<lambda>x. secret_ident_start x \<or> is_digit x);
                 name = c # takeWhile ident r;
                 rest = dropWhile ident r
             in if rest = [CHR 0x7D] then Some (name, [], [])
                else (case rest of
                  x # y # z \<Rightarrow>
                    if x = CHR '':'' \<and> (y = CHR ''-'' \<or> y = CHR ''?'') \<and> 2 \<le> length z \<and>
                       last z = CHR 0x7D \<and> CHR 0x0A \<notin> set z
                    then Some (name, [x, y], butlast z) else None
                | _ \<Rightarrow> None))
          else None
      | _ \<Rightarrow> None)"

definition plain_secret :: "string \<Rightarrow> string \<Rightarrow> string \<Rightarrow> secret_def" where
  "plain_secret name src ref =
     \<lparr>sd_name = name, sd_source = src, sd_ref = ref, sd_default = [], sd_required = False, sd_error_msg = []\<rparr>"

text \<open>The em dash of the last message, as its UTF-8 bytes.\<close>

definition secret_format_msg :: "string \<Rightarrow> string" where
  "secret_format_msg val = ''unrecognized secret format '' @ go_quote val @ '' '' @
     [CHR 0xE2, CHR 0x80, CHR 0x94] @
     '' expected ${VAR}, ${VAR:-default}, ${VAR:?error}, !file path, or !keyring service/key''"

definition parse_secret_def :: "string \<Rightarrow> ynode \<Rightarrow> secret_def result" where
  "parse_secret_def name n =
     (case n of
        YScalar tag v \<Rightarrow>
          if tag = ''!file'' then
            (let ref = trim_space v in
             if ref = [] then Inl ''!file requires a file path''
             else Inr (plain_secret name ''file'' ref))
          else if tag = ''!keyring'' then
            (let ref = trim_space v in
             if ref = [] then Inl ''!keyring requires a service/key reference''
             else if \<not> str_contains ref ''/''
             then Inl (''!keyring value must be in service/key format, got '' @ go_quote ref)
             else Inr (plain_secret name ''keyring'' ref))
          else
            (let val = trim_space v in
             case env_ref_match val of
               None \<Rightarrow> Inl (secret_format_msg val)
             | Some (var, op, arg) \<Rightarrow>
                 let d = plain_secret name ''env'' var in
                 Inr (if op = '':-'' then d\<lparr>sd_default := arg\<rparr>
                      else if op = '':?'' then d\<lparr>sd_required := True, sd_error_msg := arg\<rparr>
                      else d))
      | _ \<Rightarrow> Inl ''expected scalar value'')"

fun secret_pairs :: "(ynode \<times> ynode) list \<Rightarrow> secret_def list \<times> string list" where
  "secret_pairs [] = ([], [])"
| "secret_pairs ((k, v) # r) =
     (case secret_pairs r of (ss, es) \<Rightarrow>
        if node_value k = [] then (ss, ''secret name must be non-empty'' # es)
        else case parse_secret_def (node_value k) v of
          Inl e \<Rightarrow> (ss, (go_quote (node_value k) @ '': '' @ e) # es)
        | Inr d \<Rightarrow> (d # ss, es))"

definition parse_secrets :: "ynode \<Rightarrow> secret_def list \<times> string list" where
  "parse_secrets n =
     (case n of YMapping ns \<Rightarrow> secret_pairs (node_pairs ns) | _ \<Rightarrow> ([], [''expected mapping'']))"

section \<open>Documents\<close>

definition parse_entry :: "(ynode \<Rightarrow> gmap option result) \<Rightarrow> raw_file \<times> string list \<Rightarrow>
    ynode \<times> ynode \<Rightarrow> raw_file \<times> string list" where
  "parse_entry decode st kv =
     (let (f, errs) = st; key = node_value (fst kv); v = snd kv in
      if key = ''aliases'' then
        (case parse_aliases v of
           Inl e \<Rightarrow> (f, errs @ [''aliases: '' @ e])
         | Inr a \<Rightarrow> (f\<lparr>rf_aliases := a\<rparr>, errs))
      else if key = ''secrets'' then
        (case parse_secrets v of (ss, es) \<Rightarrow>
           (f\<lparr>rf_secrets := ss\<rparr>, errs @ map (\<lambda>e. ''secrets: '' @ e) es))
      else
        (case parse_group decode key v of (g, es) \<Rightarrow>
           (case g of None \<Rightarrow> f | Some g \<Rightarrow> f\<lparr>rf_groups := rf_groups f @ [g]\<rparr>,
            errs @ map (\<lambda>e. ''group '' @ go_quote key @ '': '' @ e) es)))"

definition empty_file :: raw_file where
  "empty_file = \<lparr>rf_path = [], rf_aliases = [], rf_secrets = [], rf_groups = []\<rparr>"

definition parse_node :: "(ynode \<Rightarrow> gmap option result) \<Rightarrow> ynode \<Rightarrow> raw_file result" where
  "parse_node decode root =
     (case root of
        YDoc (m # _) \<Rightarrow>
          (case m of
             YMapping ns \<Rightarrow>
               (case foldl (parse_entry decode) (empty_file, []) (node_pairs ns) of (f, errs) \<Rightarrow>
                  let errs = (if rf_groups f = [] \<and> errs = []
                              then [''recurfile must define at least one group''] else errs)
                  in if errs \<noteq> []
                     then Inl (''validation errors:'' @ nl @ ''  - '' @ str_join (nl @ ''  - '') errs)
                     else Inr f)
           | _ \<Rightarrow> Inl (''expected top-level mapping, got '' @ node_kind_name (node_kind m)))
      | _ \<Rightarrow> Inl ''expected YAML document'')"

definition parse_recurfile :: "(string \<Rightarrow> ynode result) \<Rightarrow> (ynode \<Rightarrow> gmap option result) \<Rightarrow> string \<Rightarrow> raw_file result" where
  "parse_recurfile unmarshal decode data =
     (case unmarshal data of Inl e \<Rightarrow> Inl (''invalid YAML: '' @ e) | Inr root \<Rightarrow> parse_node decode root)"

definition load_recurfile :: "(string \<Rightarrow> string result) \<Rightarrow> (string \<Rightarrow> raw_file result) \<Rightarrow> string \<Rightarrow>
    raw_file result" where
  "load_recurfile read parse path =
     (case read path of
        Inl e \<Rightarrow> Inl (''could not read recurfile: '' @ e)
      | Inr data \<Rightarrow>
          (case parse data of
             Inl e \<Rightarrow> Inl (''recurfile '' @ path @ '': '' @ e)
           | Inr f \<Rightarrow>
               Inr (f\<lparr>rf_path := path,
                      rf_secrets := map (\<lambda>s. if sd_source s = ''file'' \<and> \<not> is_abs (sd_ref s)
                                             then s\<lparr>sd_ref := path_join (path_dir path) (sd_ref s)\<rparr>
                                             else s) (rf_secrets f)\<rparr>)))"

definition is_recurfile_name :: "string \<Rightarrow> bool" where
  "is_recurfile_name base =
     (let n = to_lower base in n = ''recurfile'' \<or> n = ''recurfile.yaml'' \<or> n = ''recurfile.yml'')"

section \<open>What an accepted recurfile looks like\<close>

definition raw_action_ok :: "raw_action \<Rightarrow> bool" where
  "raw_action_ok a \<longleftrightarrow> ra_type a \<noteq> [] \<or> ra_name a = []"

definition raw_trigger_ok :: "raw_trigger \<Rightarrow> bool" where
  "raw_trigger_ok t \<longleftrightarrow> rt_type t \<noteq> [] \<and> list_all raw_action_ok (rt_actions t)"

definition raw_group_ok :: "raw_group \<Rightarrow> bool" where
  "raw_group_ok g \<longleftrightarrow> rg_name g \<noteq> ''aliases'' \<and> rg_name g \<noteq> ''secrets'' \<and> rg_triggers g \<noteq> [] \<and>
     list_all raw_trigger_ok (rg_triggers g) \<and> list_all raw_action_ok (rg_actions g)"

definition secret_ok :: "secret_def \<Rightarrow> bool" where
  "secret_ok s \<longleftrightarrow> sd_name s \<noteq> [] \<and> sd_ref s \<noteq> [] \<and>
     (sd_source s = ''env'' \<or> sd_source s = ''file'' \<or>
      sd_source s = ''keyring'' \<and> str_contains (sd_ref s) ''/'') \<and>
     (sd_source s \<noteq> ''env'' \<longrightarrow> \<not> sd_required s \<and> sd_default s = []) \<and>
     (sd_required s \<longrightarrow> sd_error_msg s \<noteq> [])"

definition raw_file_ok :: "raw_file \<Rightarrow> bool" where
  "raw_file_ok f \<longleftrightarrow> rf_groups f \<noteq> [] \<and> list_all raw_group_ok (rf_groups f) \<and>
     list_all secret_ok (rf_secrets f)"

lemma parse_items_ok:
  assumes "parse_items label p ns = (xs, [])" and "\<And>n x. p n = (Some x, []) \<Longrightarrow> Q x"
    and "\<And>n r. p n = r \<Longrightarrow> fst r = None \<Longrightarrow> snd r \<noteq> []"
  shows "list_all Q xs \<and> length xs = length ns"
proof -
  have errs: "snd (p n) = []" if "n \<in> set ns" for n
  proof -
    from that obtain i where i: "i < length ns" "ns ! i = n" by (auto simp: in_set_conv_nth)
    then have "(i, p n) \<in> set (zip [0..<length (map p ns)] (map p ns))"
      by (auto simp: set_zip intro!: exI [of _ i])
    with assms(1) have "map (\<lambda>e. label @ ''['' @ itoa (int i) @ '']: '' @ e) (snd (p n)) = []"
      by (auto simp: parse_items_def Let_def)
    then show ?thesis by simp
  qed
  have some: "\<exists>x. p n = (Some x, []) \<and> Q x" if "n \<in> set ns" for n
  proof -
    obtain r es where pn: "p n = (r, es)" by fastforce
    with errs [OF that] have es: "es = []" by simp
    with assms(3) [OF pn] obtain x where "r = Some x" by (cases r) auto
    with pn es assms(2) show ?thesis by auto
  qed
  from assms(1) have xs: "xs = List.map_filter fst (map p ns)" by (simp add: parse_items_def Let_def)
  from some show ?thesis unfolding xs
  proof (induction ns)
    case (Cons n ns)
    from Cons.prems [of n] obtain x where "p n = (Some x, [])" "Q x" by auto
    with Cons show ?case by (auto simp: List.map_filter_def)
  qed (simp add: List.map_filter_def)
qed

lemma parse_action_some: "parse_action decode n = (Some a, []) \<Longrightarrow> raw_action_ok a"
  by (auto simp: parse_action_def parse_detailed_action_def parse_shorthand_action_def raw_action_ok_def
      type_errs_def Let_def split: ynode.splits if_splits prod.splits list.splits sum.splits)

lemma parse_action_none: "parse_action decode n = r \<Longrightarrow> fst r = None \<Longrightarrow> snd r \<noteq> []"
  by (auto simp: parse_action_def parse_detailed_action_def parse_shorthand_action_def
      Let_def split: ynode.splits if_splits prod.splits list.splits sum.splits)

lemma parse_actions_ok: "parse_actions decode n = (as, []) \<Longrightarrow> list_all raw_action_ok as"
  by (auto simp: parse_actions_def split: ynode.splits
      dest: parse_items_ok [OF _ parse_action_some parse_action_none])

lemma parse_do_ok: "parse_do decode raw = (as, []) \<Longrightarrow> list_all raw_action_ok as"
  by (auto simp: parse_do_def split: option.splits dest: parse_actions_ok)

lemma parse_trigger_some: "parse_trigger decode n = (Some t, []) \<Longrightarrow> raw_trigger_ok t"
  by (auto simp: parse_trigger_def raw_trigger_ok_def type_errs_def opt_value_def Let_def dest: parse_do_ok
      split: ynode.splits if_splits prod.splits option.splits)

lemma parse_trigger_none: "parse_trigger decode n = r \<Longrightarrow> fst r = None \<Longrightarrow> snd r \<noteq> []"
  by (auto simp: parse_trigger_def Let_def split: ynode.splits prod.splits)

lemma parse_triggers_ok:
  assumes "parse_triggers decode n = (ts, [])"
  shows "ts \<noteq> [] \<and> list_all raw_trigger_ok ts"
proof -
  from assms obtain ns where ns: "ns \<noteq> []" "parse_items ''trigger'' (parse_trigger decode) ns = (ts, [])"
    by (auto simp: parse_triggers_def split: ynode.splits if_splits)
  from parse_items_ok [OF ns(2), where Q = raw_trigger_ok] parse_trigger_some parse_trigger_none
  have "list_all raw_trigger_ok ts \<and> length ts = length ns" by blast
  with ns(1) show ?thesis by auto
qed

lemma parse_group_ok:
  assumes "parse_group decode name n = (Some g, [])" "name \<noteq> ''aliases''" "name \<noteq> ''secrets''"
  shows "raw_group_ok g"
  using assms
  by (auto simp: parse_group_def raw_group_ok_def Let_def
      dest!: parse_do_ok parse_triggers_ok split: ynode.splits prod.splits option.splits)

lemma env_ref_match_ok:
  "env_ref_match s = Some (var, op, arg) \<Longrightarrow> var \<noteq> [] \<and> (op \<noteq> [] \<longrightarrow> arg \<noteq> [])"
  by (auto simp: env_ref_match_def Let_def split: list.splits if_splits
      dest!: arg_cong [where f = length and y = "[]"])

lemma parse_secret_def_ok: "name \<noteq> [] \<Longrightarrow> parse_secret_def name n = Inr d \<Longrightarrow> secret_ok d"
  using env_ref_match_ok
  by (fastforce simp: parse_secret_def_def secret_ok_def plain_secret_def Let_def
      split: ynode.splits if_splits option.splits)

lemma secret_pairs_ok: "list_all secret_ok (fst (secret_pairs kvs))"
  by (induction kvs rule: secret_pairs.induct)
    (auto split: prod.splits sum.splits dest: parse_secret_def_ok)

lemma parse_entry_ok:
  assumes "parse_entry decode (f, errs) kv = (f', [])" "list_all raw_group_ok (rf_groups f)"
    "list_all secret_ok (rf_secrets f)"
  shows "errs = [] \<and> list_all raw_group_ok (rf_groups f') \<and> list_all secret_ok (rf_secrets f')"
proof -
  have "list_all secret_ok (fst (parse_secrets n))" for n
    by (auto simp: parse_secrets_def secret_pairs_ok split: ynode.splits)
  then show ?thesis
    using assms by (auto simp: parse_entry_def Let_def dest: parse_group_ok
      split: if_splits sum.splits prod.splits option.splits) (metis fst_conv)+
qed

lemma parse_entries_ok:
  assumes "foldl (parse_entry decode) (f, errs) kvs = (f', [])" "list_all raw_group_ok (rf_groups f)"
    "list_all secret_ok (rf_secrets f)"
  shows "errs = [] \<and> list_all raw_group_ok (rf_groups f') \<and> list_all secret_ok (rf_secrets f')"
  using assms
proof (induction kvs arbitrary: f' rule: rev_induct)
  case (snoc kv kvs)
  obtain f1 e1 where f1: "foldl (parse_entry decode) (f, errs) kvs = (f1, e1)" by fastforce
  with snoc.prems have "parse_entry decode (f1, e1) kv = (f', [])" by simp
  moreover have "e1 = []"
    using calculation by (auto simp: parse_entry_def Let_def split: if_splits sum.splits prod.splits)
  ultimately show ?case
    using snoc.IH [of f1] f1 snoc.prems parse_entry_ok [of decode f1 e1 kv f'] by auto
qed simp

text \<open>
  C14: what an accepted recurfile guarantees to the rest of the daemon, for any YAML library:
  it has at least one group, every group has at least one trigger, no trigger has an empty
  type, and every secret names a source the resolvers know, with a usable reference.
\<close>

theorem parse_recurfile_ok:
  assumes "parse_recurfile unmarshal decode data = Inr f"
  shows "raw_file_ok f"
proof -
  from assms obtain ns ms f' errs where
    r: "foldl (parse_entry decode) (empty_file, []) (node_pairs ns) = (f', errs)" and
    f: "f' = f" "errs = []" "rf_groups f \<noteq> []"
    by (auto simp: parse_recurfile_def parse_node_def Let_def
        split: sum.splits ynode.splits list.splits prod.splits if_splits)
  from parse_entries_ok [of decode empty_file "[]" "node_pairs ns" f] r f show ?thesis
    by (auto simp: raw_file_ok_def empty_file_def)
qed

section \<open>Secret references\<close>

text \<open>The language of the regular expression of \<open>parse.go\<close>, written as a grammar.\<close>

definition env_ref_grammar :: "string \<Rightarrow> string \<Rightarrow> string \<Rightarrow> bool" where
  "env_ref_grammar var op arg \<longleftrightarrow>
     var \<noteq> [] \<and> secret_ident_start (hd var) \<and> list_all (\<lambda>c. secret_ident_start c \<or> is_digit c) var \<and>
     (op = [] \<and> arg = [] \<or> (op = '':-'' \<or> op = '':?'') \<and> arg \<noteq> [] \<and> CHR 0x0A \<notin> set arg)"

lemma not_ident: "\<not> (secret_ident_start CHR 0x7D \<or> is_digit CHR 0x7D)"
  "\<not> (secret_ident_start CHR '':'' \<or> is_digit CHR '':'')"
  by (simp_all add: secret_ident_start_def is_digit_def)

text \<open>
  \<open>parseSecretDef\<close> reads exactly the references of that grammar and takes them apart as
  they were written: \<open>${VAR}\<close>, \<open>${VAR:-default}\<close> and \<open>${VAR:?message}\<close>.
\<close>

theorem env_ref_match_iff:
  "env_ref_match s = Some (var, op, arg) \<longleftrightarrow>
     s = [CHR 0x24, CHR 0x7B] @ var @ op @ arg @ [CHR 0x7D] \<and> env_ref_grammar var op arg"
proof
  assume m: "env_ref_match s = Some (var, op, arg)"
  let ?id = "\<lambda>x. secret_ident_start x \<or> is_digit x"
  from m obtain c r where s: "s = CHR 0x24 # CHR 0x7B # c # r" and c: "secret_ident_start c"
    by (auto simp: env_ref_match_def split: list.splits if_splits)
  have v: "var = c # takeWhile ?id r"
    using m unfolding s by (simp add: env_ref_match_def Let_def split: list.splits if_splits)
  have alt: "dropWhile ?id r = [CHR 0x7D] \<and> op = [] \<and> arg = [] \<or>
      (\<exists>y z. dropWhile ?id r = CHR '':'' # y # z \<and> (y = CHR ''-'' \<or> y = CHR ''?'') \<and> 2 \<le> length z \<and>
         last z = CHR 0x7D \<and> CHR 0x0A \<notin> set z \<and> op = [CHR '':'', y] \<and> arg = butlast z)"
    using m unfolding s by (auto simp: env_ref_match_def Let_def split: list.splits if_splits)
  have rr: "r = takeWhile ?id r @ dropWhile ?id r" by simp
  have va: "list_all ?id var" using c v by (auto simp: list_all_iff dest: set_takeWhileD)
  from alt show "s = [CHR 0x24, CHR 0x7B] @ var @ op @ arg @ [CHR 0x7D] \<and> env_ref_grammar var op arg"
  proof
    assume "dropWhile ?id r = [CHR 0x7D] \<and> op = [] \<and> arg = []"
    then show ?thesis using s c v va rr by (simp add: env_ref_grammar_def)
  next
    assume "\<exists>y z. dropWhile ?id r = CHR '':'' # y # z \<and> (y = CHR ''-'' \<or> y = CHR ''?'') \<and> 2 \<le> length z \<and>
         last z = CHR 0x7D \<and> CHR 0x0A \<notin> set z \<and> op = [CHR '':'', y] \<and> arg = butlast z"
    then obtain y z where yz: "dropWhile ?id r = CHR '':'' # y # z" "y = CHR ''-'' \<or> y = CHR ''?''"
      "2 \<le> length z" "last z = CHR 0x7D" "CHR 0x0A \<notin> set z" "op = [CHR '':'', y]" "arg = butlast z" by blast
    have z: "z = butlast z @ [CHR 0x7D]" using yz(3,4) by (metis append_butlast_last_id list.size(3) not_numeral_le_zero)
    have "butlast z \<noteq> []" using yz(3) by (auto dest!: arg_cong [where f = length and y = "[]"])
    moreover have "CHR 0x0A \<notin> set (butlast z)" using yz(5) by (auto dest: in_set_butlastD)
    moreover have "r = takeWhile ?id r @ CHR '':'' # y # butlast z @ [CHR 0x7D]" using rr yz(1) z by simp
    ultimately show ?thesis using s c v va yz by (auto simp: env_ref_grammar_def)
  qed
next
  assume a: "s = [CHR 0x24, CHR 0x7B] @ var @ op @ arg @ [CHR 0x7D] \<and> env_ref_grammar var op arg"
  then obtain c v where v: "var = c # v" "secret_ident_start c"
    "list_all (\<lambda>c. secret_ident_start c \<or> is_digit c) v"
    by (cases var) (auto simp: env_ref_grammar_def)
  have tw: "takeWhile (\<lambda>x. secret_ident_start x \<or> is_digit x) (v @ x # w) = v"
    "dropWhile (\<lambda>x. secret_ident_start x \<or> is_digit x) (v @ x # w) = x # w"
    if "\<not> (secret_ident_start x \<or> is_digit x)" for x w
    using v(3) that by (induction v) auto
  show "env_ref_match s = Some (var, op, arg)"
    using a v tw [OF not_ident(1)] tw [OF not_ident(2)]
    by (cases arg) (auto simp: env_ref_grammar_def env_ref_match_def Let_def)
qed

section \<open>Loading\<close>

lemma is_abs_clean: "is_abs p \<Longrightarrow> is_abs (path_clean p)"
  by (simp add: path_clean_def Let_def) (simp add: is_abs_def)

lemma is_abs_append: "is_abs p \<Longrightarrow> is_abs (p @ q)"
  by (auto simp: is_abs_def has_prefix_iff)

lemma is_abs_join: "is_abs p \<Longrightarrow> is_abs (path_join p q)"
  using is_abs_clean [OF is_abs_append, of p "''/'' @ q"]
  by (auto simp: path_join_def is_abs_def)

lemma is_abs_dir: "is_abs p \<Longrightarrow> is_abs (path_dir p)"
proof -
  assume "is_abs p"
  then obtain q where p: "p = CHR ''/'' # q" by (auto simp: is_abs_def has_prefix_iff)
  have "\<exists>r. dropWhile (\<lambda>c. c \<noteq> CHR ''/'') (x @ [CHR ''/'']) = r @ [CHR ''/'']" for x
    by (induction x) auto
  from this [of "rev q"] show ?thesis
    unfolding path_dir_def p by (intro is_abs_clean) (auto simp: is_abs_def)
qed

text \<open>
  loading a recurfile by its absolute path makes every \<open>!file\<close> secret an absolute path,
  so the daemon's working directory plays no part in looking it up; nothing else of the
  parsed file changes but its path.
\<close>

theorem load_recurfile_secrets:
  assumes "load_recurfile read parse path = Inr f" "is_abs path"
  shows "(\<forall>s \<in> set (rf_secrets f). sd_source s = ''file'' \<longrightarrow> is_abs (sd_ref s)) \<and> rf_path f = path \<and>
    (\<exists>data g. read path = Inr data \<and> parse data = Inr g \<and> rf_groups f = rf_groups g \<and>
       rf_aliases f = rf_aliases g \<and> map sd_name (rf_secrets f) = map sd_name (rf_secrets g))"
  using assms is_abs_join [OF is_abs_dir [OF assms(2)]]
  by (auto simp: load_recurfile_def split: sum.splits if_splits)

section \<open>A small document\<close>

text \<open>\<open>secrets: {T: !file tok}\<close> and a group \<open>g\<close> with one trigger and one shorthand action.\<close>

definition sample_doc :: ynode where
  "sample_doc = YDoc [YMapping [
     YScalar [] ''secrets'', YMapping [YScalar [] ''T'', YScalar ''!file'' ''tok''],
     YScalar [] ''g'', YMapping [
       YScalar [] ''on'', YSeq [YMapping [YScalar [] ''type'', YScalar [] ''Cron'']],
       YScalar [] ''do'', YSeq [YMapping [YScalar [] ''shell'', YScalar [] ''ls'']]]]]"

definition sample_file :: raw_file where
  "sample_file = \<lparr>rf_path = [], rf_aliases = [], rf_secrets = [plain_secret ''T'' ''file'' ''tok''],
     rf_groups = [\<lparr>rg_name = ''g'', rg_aliases = [], rg_options = None,
       rg_triggers = [\<lparr>rt_type = ''Cron'', rt_name = [], rt_options = None, rt_actions = []\<rparr>],
       rg_actions = [\<lparr>ra_type = ''shell'', ra_name = [],
          ra_options = Some [(''_shorthand'', VStr ''ls'')]\<rparr>]\<rparr>]\<rparr>"

lemma sample_parse: "parse_recurfile (\<lambda>d. Inr sample_doc) (\<lambda>n. Inr None) [] = Inr sample_file"
  by (simp add: parse_recurfile_def sample_doc_def parse_node_def parse_entry_def empty_file_def
      parse_secrets_def parse_secret_def_def parse_group_def raw_map_def parse_triggers_def
      parse_trigger_def parse_options_def parse_do_def parse_actions_def parse_action_def
      parse_shorthand_action_def parse_items_def opt_value_def type_errs_def unknown_keys_def
      amap_keys_def amap_has_def trim_space_def is_space_def List.map_filter_def reserved_action_keys_def
      sample_file_def)

theorem parse_recurfile_ok_witness: "raw_file_ok sample_file"
  by (rule parse_recurfile_ok [OF sample_parse])

theorem env_ref_match_iff_witness:
  "env_ref_match ([CHR 0x24, CHR 0x7B] @ ''TOKEN:-none'' @ [CHR 0x7D]) = Some (''TOKEN'', '':-'', ''none'')"
  using env_ref_match_iff [of "[CHR 0x24, CHR 0x7B] @ ''TOKEN:-none'' @ [CHR 0x7D]" "''TOKEN''" "'':-''" "''none''"]
  by (simp add: env_ref_grammar_def secret_ident_start_def)

theorem load_recurfile_secrets_witness:
  "\<exists>f. load_recurfile (\<lambda>p. Inr []) (parse_recurfile (\<lambda>d. Inr sample_doc) (\<lambda>n. Inr None)) ''/etc/recurfile'' = Inr f \<and>
     (\<forall>s \<in> set (rf_secrets f). sd_source s = ''file'' \<longrightarrow> is_abs (sd_ref s))"
proof -
  let ?l = "load_recurfile (\<lambda>p. Inr []) (parse_recurfile (\<lambda>d. Inr sample_doc) (\<lambda>n. Inr None)) ''/etc/recurfile''"
  have "\<exists>f. ?l = Inr f" by (simp add: load_recurfile_def sample_parse)
  then obtain f where f: "?l = Inr f" ..
  from load_recurfile_secrets [OF f] f show ?thesis by (simp add: is_abs_def)
qed

end
