(* ===== verification/Plugins.thy ===== *)
theory Plugins
  imports Go_Time Sha256 "HOL-Library.Multiset"
begin

text \<open>
  Plugin manifests and lookups: \<open>infra/yaml/manifest\<close> (validation), \<open>infra/fs/plugin/discovery.go\<close>
  (discovery, lookups, conflicts) and \<open>domain/plugin\<close> (the projection the domain works on).
\<close>

section \<open>Manifests\<close>

record option_def =
  od_name :: string
  od_type :: string
  od_default :: gval
  od_description :: string
  od_shorthand :: bool
  od_sensitive :: bool

record context_def =
  cd_name :: string
  cd_type :: string
  cd_description :: string

record trigger_def =
  td_name :: string
  td_description :: string
  td_options :: "option_def list"
  td_context :: "context_def list"
  td_defaults :: gmap

record action_def =
  ad_name :: string
  ad_description :: string
  ad_options :: "option_def list"

record config_entry =
  ce_key :: string
  ce_type :: string
  ce_default :: gval
  ce_description :: string

record manifest =
  mf_name :: string
  mf_namespace :: string
  mf_version :: string
  mf_description :: string
  mf_dependencies :: "string list"
  mf_configuration :: "config_entry list"
  mf_triggers :: "trigger_def list"
  mf_actions :: "action_def list"

definition trigger_defaults_keys :: "(string, string) amap" where
  "trigger_defaults_keys =
     [(''debounce'', ''string''), (''concurrency_mode'', ''string''),
      (''max_queue_size'', ''number''), (''error_threshold'', ''number'')]"

definition valid_types :: "string list" where
  "valid_types = [''string'', ''bool'', ''number'', ''list'', ''map'']"

text \<open>The text of \<open>%T\<close> for a decoded YAML value.\<close>

fun type_name :: "gval \<Rightarrow> string" where
  "type_name VNil = ''<nil>''"
| "type_name (VStr _) = ''string''"
| "type_name (VBool _) = ''bool''"
| "type_name (VInt _) = ''int''"
| "type_name (VFloat _ _) = ''float64''"
| "type_name (VDur _) = ''time.Duration''"
| "type_name (VList _) = ''[]interface {}''"
| "type_name (VMap _) = ''map[string]interface {}''"

definition check_default_type :: "string \<Rightarrow> gval \<Rightarrow> string option" where
  "check_default_type typ v =
     (if typ = ''string'' then
        (case v of VStr _ \<Rightarrow> None | _ \<Rightarrow> Some (''default value must be a string, got '' @ type_name v))
      else if typ = ''bool'' then
        (case v of VBool _ \<Rightarrow> None | _ \<Rightarrow> Some (''default value must be a bool, got '' @ type_name v))
      else if typ = ''number'' then
        (case v of VInt _ \<Rightarrow> None | VFloat _ _ \<Rightarrow> None
         | _ \<Rightarrow> Some (''default value must be a number, got '' @ type_name v))
      else if typ = ''list'' then
        (case v of VList _ \<Rightarrow> None | _ \<Rightarrow> Some (''default value must be a list, got '' @ type_name v))
      else if typ = ''map'' then
        (case v of VMap _ \<Rightarrow> None | _ \<Rightarrow> Some (''default value must be a map, got '' @ type_name v))
      else None)"

text \<open>The loop over a list with its index.\<close>

definition indexed :: "'a list \<Rightarrow> (nat \<times> 'a) list" where
  "indexed xs = zip [0..<length xs] xs"

definition at_index :: "string \<Rightarrow> nat \<Rightarrow> string" where
  "at_index p i = p @ ''['' @ itoa (int i) @ '']''"

definition default_errs :: "string \<Rightarrow> string \<Rightarrow> gval \<Rightarrow> string list" where
  "default_errs pfx typ v =
     (if v = VNil then []
      else case check_default_type typ v of None \<Rightarrow> [] | Some e \<Rightarrow> [pfx @ '': '' @ e])"

definition validate_options :: "option_def list \<Rightarrow> string \<Rightarrow> bool \<Rightarrow> string list" where
  "validate_options opts pfx allow =
     concat (map (\<lambda>(j, opt).
        let p = at_index (pfx @ ''.options'') j in
        (if od_name opt = [] then [p @ '': name is required''] else []) @
        (if od_type opt \<in> set valid_types then [] else [p @ '': invalid type '' @ go_quote (od_type opt)]) @
        (if od_shorthand opt \<and> \<not> allow then [p @ '': shorthand is only valid on action options''] else []) @
        default_errs p (od_type opt) (od_default opt)) (indexed opts)) @
     (if allow \<and> 1 < length (filter od_shorthand opts)
      then [pfx @ '': at most one option may be marked shorthand''] else [])"

definition defaults_errs :: "string \<Rightarrow> gmap \<Rightarrow> string list" where
  "defaults_errs pfx m =
     concat (map (\<lambda>(k, v).
        case map_of trigger_defaults_keys k of
          None \<Rightarrow> [pfx @ ''.defaults: unknown key '' @ go_quote k]
        | Some typ \<Rightarrow>
            (case check_default_type typ v of
               None \<Rightarrow> [] | Some e \<Rightarrow> [pfx @ ''.defaults.'' @ k @ '': '' @ e])) m)"

definition context_errs :: "string \<Rightarrow> context_def list \<Rightarrow> string list" where
  "context_errs pfx cs =
     concat (map (\<lambda>(j, c).
        let p = at_index (pfx @ ''.context'') j in
        (if cd_name c = [] then [p @ '': name is required''] else []) @
        (if cd_type c \<in> set valid_types then [] else [p @ '': invalid type '' @ go_quote (cd_type c)]))
       (indexed cs))"

definition config_errs :: "config_entry list \<Rightarrow> string list" where
  "config_errs cs =
     concat (map (\<lambda>(i, c).
        let p = at_index ''configuration'' i in
        (if ce_key c = [] then [p @ '': key is required''] else []) @
        (if ce_type c \<in> set valid_types then [] else [p @ '': invalid type '' @ go_quote (ce_type c)]) @
        default_errs p (ce_type c) (ce_default c)) (indexed cs))"

definition trigger_def_errs :: "nat \<Rightarrow> trigger_def \<Rightarrow> string list" where
  "trigger_def_errs i t =
     (let p = at_index ''triggers'' i in
      (if td_name t = [] then [p @ '': name is required''] else []) @
      validate_options (td_options t) p False @
      defaults_errs p (td_defaults t) @ context_errs p (td_context t))"

definition action_def_errs :: "nat \<Rightarrow> action_def \<Rightarrow> string list" where
  "action_def_errs i a =
     (let p = at_index ''actions'' i in
      (if ad_name a = [] then [p @ '': name is required''] else []) @
      validate_options (ad_options a) p True)"

definition manifest_errs :: "manifest \<Rightarrow> string list" where
  "manifest_errs m =
     (if mf_name m = [] then [''name is required''] else []) @
     (if mf_namespace m = [] then [''namespace is required''] else []) @
     (if mf_version m = [] then [''version is required''] else []) @
     (if mf_triggers m = [] \<and> mf_actions m = []
      then [''at least one trigger or action is required''] else []) @
     config_errs (mf_configuration m) @
     concat (map (\<lambda>(i, t). trigger_def_errs i t) (indexed (mf_triggers m))) @
     concat (map (\<lambda>(i, a). action_def_errs i a) (indexed (mf_actions m)))"

definition validate_manifest :: "manifest \<Rightarrow> string option" where
  "validate_manifest m =
     (if manifest_errs m = [] then None
      else Some (''invalid manifest:'' @ nl @ ''  - '' @ str_join (nl @ ''  - '') (manifest_errs m)))"

text \<open>\<open>unmarshal\<close> is the YAML decoder into the manifest struct.\<close>

definition parse_manifest :: "(string \<Rightarrow> manifest result) \<Rightarrow> string \<Rightarrow> manifest result" where
  "parse_manifest unmarshal data =
     (case unmarshal data of
        Inl e \<Rightarrow> Inl (''could not parse manifest: '' @ e)
      | Inr m \<Rightarrow> (case validate_manifest m of Some e \<Rightarrow> Inl e | None \<Rightarrow> Inr m))"

section \<open>Installed plugins\<close>

record installed_plugin =
  ip_id :: string
  ip_dir :: string
  ip_manifest :: manifest

definition generate_id :: "string \<Rightarrow> string" where
  "generate_id ns = hex_encode (take 4 (sha256 ns))"

definition load_plugin :: "(string \<Rightarrow> manifest result) \<Rightarrow> string \<Rightarrow> installed_plugin result" where
  "load_plugin load dir =
     (case load (path_join dir ''manifest.yaml'') of
        Inl e \<Rightarrow> Inl e
      | Inr m \<Rightarrow> Inr \<lparr>ip_id = generate_id (mf_namespace m), ip_dir = dir, ip_manifest = m\<rparr>)"

record dir_entry =
  de_name :: string
  de_is_dir :: bool
  de_is_symlink :: bool

text \<open>
  \<open>DiscoverIn\<close>: \<open>entries\<close> is what reading the directory gives, \<open>None\<close> when it does not exist.
  The source's sort may leave plugins of the same name in any order; here they keep theirs.
\<close>

definition discover_in :: "(string \<Rightarrow> manifest result) \<Rightarrow> string \<Rightarrow> dir_entry list option result \<Rightarrow>
    installed_plugin list \<times> string list" where
  "discover_in load dir entries =
     (case entries of
        Inl e \<Rightarrow> ([], [''could not read plugins directory: '' @ e])
      | Inr None \<Rightarrow> ([], [])
      | Inr (Some es) \<Rightarrow>
          let rs = map (\<lambda>e. (de_name e, load_plugin load (path_join dir (de_name e))))
                     (filter (\<lambda>e. de_is_dir e \<or> de_is_symlink e) es)
          in (sort_key (\<lambda>p. mf_name (ip_manifest p))
                (List.map_filter (\<lambda>(n, r). case r of Inl _ \<Rightarrow> None | Inr p \<Rightarrow> Some p) rs),
              List.map_filter (\<lambda>(n, r). case r of
                  Inl e \<Rightarrow> Some (''plugin '' @ go_quote n @ '': '' @ e) | Inr _ \<Rightarrow> None) rs))"

text \<open>\<open>exists_path\<close> is whether \<open>os.Stat\<close> succeeds (not on Windows).\<close>

definition binary_path :: "(string \<Rightarrow> bool) \<Rightarrow> installed_plugin \<Rightarrow> string" where
  "binary_path exists_path p =
     (let a = path_join (ip_dir p) (mf_name (ip_manifest p));
          b = path_join (ip_dir p) (mf_name (ip_manifest p) @ ''.exe'')
      in case find exists_path [a, b] of Some x \<Rightarrow> x | None \<Rightarrow> a)"

definition find_trigger_definition :: "installed_plugin \<Rightarrow> string \<Rightarrow> trigger_def option" where
  "find_trigger_definition p ty = find (\<lambda>t. equal_fold (td_name t) ty) (mf_triggers (ip_manifest p))"

definition find_action_definition :: "installed_plugin \<Rightarrow> string \<Rightarrow> action_def option" where
  "find_action_definition p n = find (\<lambda>a. equal_fold (ad_name a) n) (mf_actions (ip_manifest p))"

definition find_shorthand_option :: "installed_plugin \<Rightarrow> string \<Rightarrow> string \<times> bool" where
  "find_shorthand_option p n =
     (case find_action_definition p n of
        None \<Rightarrow> ([], False)
      | Some d \<Rightarrow>
          (case find od_shorthand (ad_options d) of
             Some opt \<Rightarrow> (od_name opt, False)
           | None \<Rightarrow> (case ad_options d of o1 # _ \<Rightarrow> (od_name o1, True) | [] \<Rightarrow> ([], False))))"

definition resolve_plugin_for_trigger :: "installed_plugin list \<Rightarrow> string \<Rightarrow> string" where
  "resolve_plugin_for_trigger ps ty =
     (case find (\<lambda>p. find_trigger_definition p ty \<noteq> None) ps of
        Some p \<Rightarrow> mf_namespace (ip_manifest p) | None \<Rightarrow> [])"

definition resolve_plugin_for_action :: "installed_plugin list \<Rightarrow> string \<Rightarrow> string" where
  "resolve_plugin_for_action ps n =
     (case find (\<lambda>p. find_action_definition p n \<noteq> None) ps of
        Some p \<Rightarrow> mf_namespace (ip_manifest p) | None \<Rightarrow> [])"

definition add_owner :: "(string, string list) amap \<Rightarrow> string \<times> string \<Rightarrow> (string, string list) amap" where
  "add_owner m nv =
     AList.update (fst nv) ((case map_of m (fst nv) of None \<Rightarrow> [] | Some os \<Rightarrow> os) @ [snd nv]) m"

definition owners :: "(string \<times> string) list \<Rightarrow> (string, string list) amap" where
  "owners nvs = foldl add_owner [] nvs"

definition trigger_claims :: "installed_plugin list \<Rightarrow> (string \<times> string) list" where
  "trigger_claims ps =
     concat (map (\<lambda>p. map (\<lambda>t. (td_name t, mf_namespace (ip_manifest p))) (mf_triggers (ip_manifest p))) ps)"

definition action_claims :: "installed_plugin list \<Rightarrow> (string \<times> string) list" where
  "action_claims ps =
     concat (map (\<lambda>p. map (\<lambda>a. (ad_name a, mf_namespace (ip_manifest p))) (mf_actions (ip_manifest p))) ps)"

definition conflict_warnings :: "string \<Rightarrow> (string, string list) amap \<Rightarrow> string list" where
  "conflict_warnings what m =
     map (\<lambda>(n, os). what @ '' '' @ go_quote n @ '' declared by multiple plugins: '' @ str_join '', '' os)
       (filter (\<lambda>(n, os). 1 < length os) m)"

definition check_conflicts :: "installed_plugin list \<Rightarrow> string list" where
  "check_conflicts ps =
     conflict_warnings ''trigger'' (owners (trigger_claims ps)) @
     conflict_warnings ''action'' (owners (action_claims ps))"

definition find_by_identifier :: "installed_plugin list \<Rightarrow> string \<Rightarrow> installed_plugin option" where
  "find_by_identifier ps ident =
     (case find (\<lambda>p. ip_id p = ident \<or> equal_fold (mf_name (ip_manifest p)) ident \<or>
                  equal_fold (mf_namespace (ip_manifest p)) ident) ps of
        Some p \<Rightarrow> Some p
      | None \<Rightarrow> find (\<lambda>p. 3 \<le> length ident \<and> length ident \<le> length (ip_id p) \<and>
                        take (length ident) (ip_id p) = ident) ps)"

section \<open>The domain projection\<close>

record dplugin =
  dp_id :: string
  dp_name :: string
  dp_namespace :: string
  dp_version :: string
  dp_description :: string
  dp_triggers :: "(string \<times> gmap) list"
  dp_actions :: "string list"

definition domain_plugin :: "installed_plugin \<Rightarrow> dplugin" where
  "domain_plugin p =
     (let m = ip_manifest p in
      \<lparr>dp_id = ip_id p, dp_name = mf_name m, dp_namespace = mf_namespace m, dp_version = mf_version m,
       dp_description = mf_description m,
       dp_triggers = map (\<lambda>t. (td_name t, td_defaults t)) (mf_triggers m),
       dp_actions = map ad_name (mf_actions m)\<rparr>)"

text \<open>The helpers accept nil entries and skip them.\<close>

definition domain_all :: "installed_plugin list \<Rightarrow> dplugin option list" where
  "domain_all ps = map (\<lambda>p. Some (domain_plugin p)) ps"

fun trigger_defaults_for :: "dplugin option list \<Rightarrow> string \<Rightarrow> string \<times> gmap option" where
  "trigger_defaults_for [] ty = ([], None)"
| "trigger_defaults_for (None # ps) ty = trigger_defaults_for ps ty"
| "trigger_defaults_for (Some p # ps) ty =
     (case find (\<lambda>(n, d). n = ty) (dp_triggers p) of
        Some (n, d) \<Rightarrow> (dp_namespace p, if d = [] then None else Some d)
      | None \<Rightarrow> trigger_defaults_for ps ty)"

definition builtin_action_names :: "string list" where
  "builtin_action_names = [''shell'']"

definition known_trigger_names :: "dplugin option list \<Rightarrow> string list" where
  "known_trigger_names ps =
     concat (map (\<lambda>p. case p of None \<Rightarrow> [] | Some p \<Rightarrow> map fst (dp_triggers p)) ps)"

definition known_action_names :: "dplugin option list \<Rightarrow> string list" where
  "known_action_names ps = builtin_action_names @
     concat (map (\<lambda>p. case p of None \<Rightarrow> [] | Some p \<Rightarrow> dp_actions p) ps)"

definition unknown_types :: "dplugin option list \<Rightarrow> string list \<Rightarrow> string list \<Rightarrow>
    string list \<times> string list" where
  "unknown_types ps trigs acts =
     (filter (\<lambda>t. \<not> list_ex (\<lambda>h. equal_fold h t) (known_trigger_names ps)) trigs,
      filter (\<lambda>a. \<not> list_ex (\<lambda>h. equal_fold h a) (known_action_names ps)) acts)"

section \<open>Valid manifests\<close>

definition type_matches :: "string \<Rightarrow> gval \<Rightarrow> bool" where
  "type_matches typ v \<longleftrightarrow>
     (typ = ''string'' \<longrightarrow> (\<exists>s. v = VStr s)) \<and> (typ = ''bool'' \<longrightarrow> (\<exists>b. v = VBool b)) \<and>
     (typ = ''number'' \<longrightarrow> (\<exists>i. v = VInt i) \<or> (\<exists>m e. v = VFloat m e)) \<and>
     (typ = ''list'' \<longrightarrow> (\<exists>vs. v = VList vs)) \<and> (typ = ''map'' \<longrightarrow> (\<exists>m. v = VMap m))"

lemma check_default_type_None: "check_default_type typ v = None \<longleftrightarrow> type_matches typ v"
  by (cases v) (auto simp: check_default_type_def type_matches_def)

definition option_ok :: "bool \<Rightarrow> option_def \<Rightarrow> bool" where
  "option_ok allow opt \<longleftrightarrow> od_name opt \<noteq> [] \<and> od_type opt \<in> set valid_types \<and>
     (od_shorthand opt \<longrightarrow> allow) \<and> (od_default opt = VNil \<or> type_matches (od_type opt) (od_default opt))"

definition config_ok :: "config_entry \<Rightarrow> bool" where
  "config_ok c \<longleftrightarrow> ce_key c \<noteq> [] \<and> ce_type c \<in> set valid_types \<and>
     (ce_default c = VNil \<or> type_matches (ce_type c) (ce_default c))"

definition trigger_def_ok :: "trigger_def \<Rightarrow> bool" where
  "trigger_def_ok t \<longleftrightarrow> td_name t \<noteq> [] \<and> (\<forall>opt \<in> set (td_options t). option_ok False opt) \<and>
     (\<forall>(k, v) \<in> set (td_defaults t). \<exists>typ. map_of trigger_defaults_keys k = Some typ \<and> type_matches typ v) \<and>
     (\<forall>c \<in> set (td_context t). cd_name c \<noteq> [] \<and> cd_type c \<in> set valid_types)"

definition action_def_ok :: "action_def \<Rightarrow> bool" where
  "action_def_ok a \<longleftrightarrow> ad_name a \<noteq> [] \<and> (\<forall>opt \<in> set (ad_options a). option_ok True opt) \<and>
     length (filter od_shorthand (ad_options a)) \<le> 1"

definition manifest_ok :: "manifest \<Rightarrow> bool" where
  "manifest_ok m \<longleftrightarrow> mf_name m \<noteq> [] \<and> mf_namespace m \<noteq> [] \<and> mf_version m \<noteq> [] \<and>
     (mf_triggers m \<noteq> [] \<or> mf_actions m \<noteq> []) \<and>
     list_all config_ok (mf_configuration m) \<and> list_all trigger_def_ok (mf_triggers m) \<and>
     list_all action_def_ok (mf_actions m)"

lemma ball_indexed: "(\<forall>p \<in> set (indexed xs). P p) \<longleftrightarrow> (\<forall>i < length xs. P (i, xs ! i))"
  by (fastforce simp: indexed_def set_zip)

lemma default_errs_Nil: "default_errs p typ v = [] \<longleftrightarrow> v = VNil \<or> type_matches typ v"
  by (auto simp: default_errs_def check_default_type_None [symmetric] split: option.splits)

lemma validate_options_Nil:
  "validate_options opts p allow = [] \<longleftrightarrow>
     (\<forall>opt \<in> set opts. option_ok allow opt) \<and> (allow \<longrightarrow> length (filter od_shorthand opts) \<le> 1)"
  unfolding all_set_conv_all_nth [of opts]
  by (auto simp: validate_options_def ball_indexed Let_def default_errs_Nil option_ok_def)

lemma defaults_errs_Nil:
  "defaults_errs p m = [] \<longleftrightarrow>
     (\<forall>(k, v) \<in> set m. \<exists>typ. map_of trigger_defaults_keys k = Some typ \<and> type_matches typ v)"
  by (auto simp: defaults_errs_def check_default_type_None [symmetric] split: option.splits)

lemma context_errs_Nil:
  "context_errs p cs = [] \<longleftrightarrow> (\<forall>c \<in> set cs. cd_name c \<noteq> [] \<and> cd_type c \<in> set valid_types)"
  unfolding all_set_conv_all_nth [of cs] by (auto simp: context_errs_def ball_indexed Let_def)

lemma config_errs_Nil: "config_errs cs = [] \<longleftrightarrow> list_all config_ok cs"
  unfolding list_all_iff all_set_conv_all_nth [of cs]
  by (auto simp: config_errs_def ball_indexed Let_def default_errs_Nil config_ok_def)

lemma trigger_def_errs_Nil: "trigger_def_errs i t = [] \<longleftrightarrow> trigger_def_ok t"
  by (simp add: trigger_def_errs_def trigger_def_ok_def Let_def validate_options_Nil
      defaults_errs_Nil context_errs_Nil)

lemma action_def_errs_Nil: "action_def_errs i a = [] \<longleftrightarrow> action_def_ok a"
  by (simp add: action_def_errs_def action_def_ok_def Let_def validate_options_Nil)

text \<open>
  manifest validation accepts exactly the well-formed manifests: the required names are
  there, every type is one of the five, every default has its declared type, engine
  defaults use the four known keys, and at most one action option is the shorthand.
\<close>

theorem validate_manifest_iff: "validate_manifest m = None \<longleftrightarrow> manifest_ok m"
proof -
  have "manifest_errs m = [] \<longleftrightarrow> manifest_ok m"
    by (simp add: manifest_errs_def manifest_ok_def ball_indexed config_errs_Nil
      trigger_def_errs_Nil action_def_errs_Nil list_all_length)
  then show ?thesis by (simp add: validate_manifest_def)
qed

lemma mset_eq_short: "mset xs = mset ys \<Longrightarrow> length xs \<le> 1 \<Longrightarrow> xs = ys"
  by (cases xs) (auto dest: sym)

section \<open>Conflicts and lookups\<close>

lemma owners_snoc: "owners (nvs @ [nv]) = add_owner (owners nvs) nv"
  by (simp add: owners_def)

lemma owners_ok: "amap_ok (owners nvs)"
  by (induction nvs rule: rev_induct) (simp_all add: owners_snoc add_owner_def owners_def [of "[]"])

lemma owners_lookup:
  "map_of (owners nvs) n =
     (if n \<in> fst ` set nvs then Some (map snd (filter (\<lambda>nv. fst nv = n) nvs)) else None)"
proof (induction nvs rule: rev_induct)
  case Nil
  then show ?case by (simp add: owners_def)
next
  case (snoc nv nvs)
  show ?case unfolding owners_snoc add_owner_def using snoc by (fastforce simp: image_iff filter_empty_conv)
qed

lemma distinct_count_list: "distinct xs \<longleftrightarrow> (\<forall>x \<in> set xs. count_list xs x \<le> 1)"
proof (induction xs)
  case (Cons a xs)
  have "(\<forall>x \<in> set (a # xs). count_list (a # xs) x \<le> 1) \<longleftrightarrow>
      count_list xs a = 0 \<and> (\<forall>x \<in> set xs. x \<noteq> a \<longrightarrow> count_list xs x \<le> 1)"
    by auto
  also have "\<dots> \<longleftrightarrow> a \<notin> set xs \<and> (\<forall>x \<in> set xs. count_list xs x \<le> 1)"
    by (auto simp: count_list_0_iff)
  finally show ?case using Cons by simp
qed simp

lemma conflict_warnings_Nil: "conflict_warnings what (owners nvs) = [] \<longleftrightarrow> distinct (map fst nvs)"
proof -
  have one: "length (filter (\<lambda>nv. fst nv = n) nvs) = count_list (map fst nvs) n" for n
    by (induction nvs) auto
  have "conflict_warnings what (owners nvs) = [] \<longleftrightarrow> (\<forall>(n, os) \<in> set (owners nvs). length os \<le> 1)"
    by (auto simp: conflict_warnings_def filter_empty_conv not_less split: prod.splits)
  also have "\<dots> \<longleftrightarrow> (\<forall>n os. map_of (owners nvs) n = Some os \<longrightarrow> length os \<le> 1)"
    by (auto simp: amap_in_iff [OF owners_ok])
  also have "\<dots> \<longleftrightarrow> (\<forall>n \<in> fst ` set nvs. count_list (map fst nvs) n \<le> 1)"
    by (auto simp: owners_lookup one split: if_splits)
  also have "\<dots> \<longleftrightarrow> distinct (map fst nvs)"
    by (simp add: distinct_count_list)
  finally show ?thesis .
qed

text \<open>
  \<open>CheckConflicts\<close> is silent exactly when no trigger name and no action name is declared
  twice, by any plugins.
\<close>

theorem check_conflicts_iff:
  "check_conflicts ps = [] \<longleftrightarrow>
     distinct (concat (map (\<lambda>p. map td_name (mf_triggers (ip_manifest p))) ps)) \<and>
     distinct (concat (map (\<lambda>p. map ad_name (mf_actions (ip_manifest p))) ps))"
proof -
  have "map fst (trigger_claims ps) = concat (map (\<lambda>p. map td_name (mf_triggers (ip_manifest p))) ps)"
    "map fst (action_claims ps) = concat (map (\<lambda>p. map ad_name (mf_actions (ip_manifest p))) ps)"
    by (induction ps) (simp_all add: trigger_claims_def action_claims_def)
  then show ?thesis by (simp add: check_conflicts_def conflict_warnings_Nil)
qed

lemma trigger_defaults_for_find:
  "trigger_defaults_for (domain_all ps) ty =
     (case find (\<lambda>p. ty \<in> td_name ` set (mf_triggers (ip_manifest p))) ps of
        None \<Rightarrow> ([], None)
      | Some p \<Rightarrow> (mf_namespace (ip_manifest p),
          case find (\<lambda>t. td_name t = ty) (mf_triggers (ip_manifest p)) of
            None \<Rightarrow> None | Some t \<Rightarrow> if td_defaults t = [] then None else Some (td_defaults t)))"
proof (induction ps)
  case Nil
  then show ?case by (simp add: domain_all_def)
next
  case (Cons p ps)
  have f: "find (\<lambda>(n, d). n = ty) (map (\<lambda>t. (td_name t, td_defaults t)) ts) =
     map_option (\<lambda>t. (td_name t, td_defaults t)) (find (\<lambda>t. td_name t = ty) ts)" for ts
    by (induction ts) auto
  have g: "find (\<lambda>t. td_name t = ty) ts = None \<longleftrightarrow> ty \<notin> td_name ` set ts" for ts
    by (auto simp: find_None_iff)
  show ?case
    using Cons g [of "mf_triggers (ip_manifest p)"]
    by (auto simp: domain_all_def domain_plugin_def Let_def f split: option.splits)
qed

text \<open>
  plugins without conflicts can be listed in any order: the owner and the engine defaults
  of a trigger type are the same whatever order discovery returns the plugins in.
\<close>

theorem trigger_defaults_order_independent:
  assumes nc: "check_conflicts ps = []" and perm: "mset ps = mset qs"
  shows "trigger_defaults_for (domain_all ps) ty = trigger_defaults_for (domain_all qs) ty"
proof -
  let ?P = "\<lambda>p. ty \<in> td_name ` set (mf_triggers (ip_manifest p))"
  have d: "distinct (concat (map (\<lambda>p. map td_name (mf_triggers (ip_manifest p))) ps))"
    using nc by (simp add: check_conflicts_iff)
  then have one: "length (filter ?P ps) \<le> 1"
  proof (induction ps)
    case (Cons p ps)
    show ?case
    proof (cases "?P p")
      case True
      with Cons.prems have "filter ?P ps = []"
        by (fastforce simp: filter_empty_conv)
      with True show ?thesis by simp
    next
      case False
      with Cons show ?thesis by simp
    qed
  qed simp
  have fi: "find ?P xs = (case filter ?P xs of [] \<Rightarrow> None | x # _ \<Rightarrow> Some x)" for xs
    by (induction xs) auto
  have "mset (filter ?P ps) = mset (filter ?P qs)" using perm by simp
  from mset_eq_short [OF this one] have "filter ?P ps = filter ?P qs" .
  then show ?thesis by (simp add: trigger_defaults_for_find fi)
qed

text \<open>
  the two ways to ask whether a trigger type is known agree: \<open>UnknownTypes\<close> reports a type
  exactly when no installed plugin has a definition for it, both ignoring case.
\<close>

theorem unknown_types_iff:
  "t \<in> set (fst (unknown_types (domain_all ps) trigs acts)) \<longleftrightarrow>
     t \<in> set trigs \<and> (\<forall>p \<in> set ps. find_trigger_definition p t = None)"
  by (auto simp: unknown_types_def known_trigger_names_def domain_all_def domain_plugin_def Let_def
      list_ex_iff find_trigger_definition_def find_None_iff)

text \<open>
  \<open>TriggerDefaultsFor\<close> compares exactly where \<open>ResolvePluginForTrigger\<close> ignores case: a type in
  another case has an owner but no defaults.
\<close>

definition sample_trigger :: trigger_def where
  "sample_trigger = \<lparr>td_name = ''Cron'', td_description = [], td_options = [], td_context = [],
     td_defaults = [(''debounce'', VStr ''1s'')]\<rparr>"

definition sample_manifest :: manifest where
  "sample_manifest = \<lparr>mf_name = ''timer'', mf_namespace = ''core.timer'', mf_version = ''1'',
     mf_description = [], mf_dependencies = [], mf_configuration = [],
     mf_triggers = [sample_trigger], mf_actions = []\<rparr>"

definition sample_plugin :: installed_plugin where
  "sample_plugin = \<lparr>ip_id = ''abc'', ip_dir = ''/p'', ip_manifest = sample_manifest\<rparr>"

lemma trigger_defaults_case_mismatch:
  "resolve_plugin_for_trigger [sample_plugin] ''cron'' = ''core.timer''"
  "trigger_defaults_for (domain_all [sample_plugin]) ''cron'' = ([], None)"
  by (simp_all add: resolve_plugin_for_trigger_def find_trigger_definition_def sample_plugin_def
      sample_manifest_def sample_trigger_def domain_all_def domain_plugin_def equal_fold_def
      to_lower_def lower_char_def char_of_eq_iff)

lemma sample_manifest_ok: "validate_manifest sample_manifest = None"
  by (simp add: validate_manifest_iff manifest_ok_def)
    (simp add: sample_manifest_def sample_trigger_def trigger_def_ok_def trigger_defaults_keys_def
      type_matches_def)

theorem trigger_defaults_order_independent_witness:
  "trigger_defaults_for (domain_all [sample_plugin]) ''Cron'' = (''core.timer'', Some [(''debounce'', VStr ''1s'')])"
proof -
  have "check_conflicts [sample_plugin] = []"
    by (simp add: check_conflicts_iff sample_plugin_def sample_manifest_def)
  from trigger_defaults_order_independent [OF this, of "[sample_plugin]" "''Cron''"]
  show ?thesis
    by (simp add: domain_all_def domain_plugin_def sample_plugin_def sample_manifest_def sample_trigger_def)
qed

theorem unknown_types_iff_witness:
  "''Nope'' \<in> set (fst (unknown_types (domain_all [sample_plugin]) [''Nope''] []))"
  unfolding unknown_types_iff
  by (simp add: find_trigger_definition_def sample_plugin_def sample_manifest_def sample_trigger_def
      equal_fold_def to_lower_def lower_char_def char_of_eq_iff)

end
