(* ===== verification/Entities.thy ===== *)
theory Entities
  imports Recurfile_Domain
begin

text \<open>
  The domain entities: recurfiles, groups, triggers and actions (\<open>domain/recurfile/recurfile.go\<close>,
  \<open>domain/group\<close>, \<open>domain/trigger\<close>, \<open>domain/action\<close>). Times are whole seconds, 0 the zero time.
\<close>

record recurfile =
  rc_id :: string
  rc_path :: string
  rc_groups :: "string list"
  rc_secrets :: "secret_def list"

record grp =
  gp_id :: string
  gp_name :: string
  gp_recurfile_id :: string
  gp_trigger_ids :: "string list"
  gp_action_ids :: "string list"
  gp_options :: "gmap option"
  gp_aliases :: "(string, string) amap"

record trigger =
  tr_id :: string
  tr_type :: string
  tr_name :: string
  tr_group_id :: string
  tr_group_name :: string
  tr_recurfile_id :: string
  tr_recurfile_path :: string
  tr_plugin_id :: string
  tr_options :: "gmap option"
  tr_status :: string
  tr_error_count :: int
  tr_error_threshold :: int
  tr_last_fired :: int
  tr_concurrency_mode :: string
  tr_max_queue_size :: int
  tr_debounce :: int

record action =
  ac_id :: string
  ac_type :: string
  ac_name :: string
  ac_group_id :: string
  ac_group_name :: string
  ac_trigger_id :: string
  ac_recurfile_id :: string
  ac_recurfile_path :: string
  ac_plugin_id :: string
  ac_options :: "gmap option"
  ac_status :: string
  ac_error_count :: int
  ac_error_threshold :: int
  ac_last_executed :: int

abbreviation st_active :: string where "st_active \<equiv> ''active''"
abbreviation st_suspended :: string where "st_suspended \<equiv> ''suspended''"
abbreviation st_error :: string where "st_error \<equiv> ''error''"

end
