(* ===== verification/Machines.thy ===== *)
theory Machines
  imports Prelude
begin

text \<open>
  Components as machines: a state, the operations on it, a guard that says which operation a state
  allows, and an invariant. Each component proves its law for one operation and gets it for every
  history; \<open>refining_machine\<close> adds an abstract machine that the operations follow.
\<close>

fun permitted :: "('s \<Rightarrow> 'o \<Rightarrow> 's) \<Rightarrow> ('s \<Rightarrow> 'o \<Rightarrow> bool) \<Rightarrow> 's \<Rightarrow> 'o list \<Rightarrow> bool" where
  "permitted step guard s [] = True"
| "permitted step guard s (p # ps) = (guard s p \<and> permitted step guard (step s p) ps)"

lemma permitted_stateless [simp]: "permitted step (\<lambda>_. guard) s ps = list_all guard ps"
  by (induction ps arbitrary: s) simp_all

lemma permitted_mono:
  "(\<And>s p. guard s p \<Longrightarrow> guard' s p) \<Longrightarrow> permitted step guard s ps \<Longrightarrow> permitted step guard' s ps"
  by (induction ps arbitrary: s) auto

locale machine =
  fixes step :: "'s \<Rightarrow> 'o \<Rightarrow> 's"
    and guard :: "'s \<Rightarrow> 'o \<Rightarrow> bool"
    and inv :: "'s \<Rightarrow> bool"
  assumes step_inv: "inv s \<Longrightarrow> guard s p \<Longrightarrow> inv (step s p)"
begin

lemma run_inv: "inv s \<Longrightarrow> permitted step guard s ps \<Longrightarrow> inv (foldl step s ps)"
  by (induction ps arbitrary: s) (simp_all add: step_inv)

text \<open>A property that no allowed operation can end holds from then on.\<close>

lemma run_stable:
  assumes "\<And>s p. inv s \<Longrightarrow> guard s p \<Longrightarrow> P s \<Longrightarrow> P (step s p)" "inv s" "P s" "permitted step guard s ps"
  shows "P (foldl step s ps)"
  using assms(2-4)
proof (induction ps arbitrary: s)
  case (Cons p ps)
  then show ?case using assms(1) [of s p] step_inv [of s p] by simp
qed simp

end

locale refining_machine = machine +
  fixes abs :: "'s \<Rightarrow> 'a"
    and astep :: "'a \<Rightarrow> 'o \<Rightarrow> 'a"
    and aguard :: "'a \<Rightarrow> 'o \<Rightarrow> bool"
  assumes step_abs: "inv s \<Longrightarrow> guard s p \<Longrightarrow> abs (step s p) = astep (abs s) p"
    and guard_abs: "inv s \<Longrightarrow> guard s p = aguard (abs s) p"
begin

lemma run_allowed: "inv s \<Longrightarrow> permitted step guard s ps = permitted astep aguard (abs s) ps"
proof (induction ps arbitrary: s)
  case (Cons p ps)
  then show ?case using step_inv [of s p] step_abs [of s p] by (auto simp: guard_abs)
qed simp

lemma run_abs: "inv s \<Longrightarrow> permitted step guard s ps \<Longrightarrow> abs (foldl step s ps) = foldl astep (abs s) ps"
  by (induction ps arbitrary: s) (simp_all add: step_inv step_abs)

end

end
