(* ===== verification/Entity_Index.thy ===== *)
theory Entity_Index
  imports Go_Strings Machines
begin

text \<open>
  \<open>daemon/entity_index.go\<close>: the index from identifiers to entity references. Deleted entries
  stay in place until \<open>flushAt\<close> of them have gathered, then the index is rebuilt. The file's
  mutex makes every operation one step of the state.
\<close>

record entity_ref =
  er_type :: string
  er_id :: string
  er_name :: string

record entity_index =
  ix_entries :: "entity_ref list"
  ix_by_id :: "(string, nat) amap"
  ix_by_name :: "(string, nat list) amap"
  ix_deleted :: "nat list"
  ix_flush_at :: nat

definition new_entity_index :: entity_index where
  "new_entity_index =
     \<lparr>ix_entries = [], ix_by_id = [], ix_by_name = [], ix_deleted = [], ix_flush_at = 50\<rparr>"

definition push_name :: "string \<Rightarrow> nat \<Rightarrow> (string, nat list) amap \<Rightarrow> (string, nat list) amap" where
  "push_name k i m = AList.update k ((case map_of m k of None \<Rightarrow> [] | Some is \<Rightarrow> is) @ [i]) m"

definition ix_add :: "entity_index \<Rightarrow> entity_ref \<Rightarrow> entity_index" where
  "ix_add s r =
     (let i = length (ix_entries s) in
      s\<lparr>ix_entries := ix_entries s @ [r],
        ix_by_id := AList.update (er_id r) i (ix_by_id s),
        ix_by_name := push_name (to_lower (er_name r)) i (ix_by_name s)\<rparr>)"

definition ix_lookup :: "entity_index \<Rightarrow> string \<Rightarrow> entity_ref list" where
  "ix_lookup s ident =
     (let live = (\<lambda>i. i \<notin> set (ix_deleted s));
          by_prefix =
            (if 3 \<le> length ident
             then map (\<lambda>(eid, i). ix_entries s ! i)
                    (filter (\<lambda>(eid, i). live i \<and> length ident \<le> length eid \<and> take (length ident) eid = ident)
                      (ix_by_id s))
             else []);
          by_name =
            (case map_of (ix_by_name s) (to_lower ident) of
               None \<Rightarrow> [] | Some is \<Rightarrow> map (\<lambda>i. ix_entries s ! i) (filter live is))
      in case map_of (ix_by_id s) ident of
           Some i \<Rightarrow> if live i then [ix_entries s ! i] else if by_name \<noteq> [] then by_name else by_prefix
         | None \<Rightarrow> if by_name \<noteq> [] then by_name else by_prefix)"

text \<open>
  The loop of \<open>flush\<close>: the entries kept so far with the two maps rebuilt over them.
\<close>

fun flush_loop :: "entity_index \<Rightarrow> nat \<Rightarrow> entity_ref list \<Rightarrow> entity_index \<Rightarrow> entity_index" where
  "flush_loop s i [] acc = acc"
| "flush_loop s i (r # rs) acc =
     (if i \<in> set (ix_deleted s) then flush_loop s (Suc i) rs acc
      else flush_loop s (Suc i) rs (ix_add acc r))"

definition ix_flush :: "entity_index \<Rightarrow> entity_index" where
  "ix_flush s =
     flush_loop s 0 (ix_entries s)
       (s\<lparr>ix_entries := [], ix_by_id := [], ix_by_name := [], ix_deleted := []\<rparr>)"

definition ix_remove :: "entity_index \<Rightarrow> string \<Rightarrow> entity_index" where
  "ix_remove s eid =
     (case map_of (ix_by_id s) eid of
        None \<Rightarrow> s
      | Some i \<Rightarrow>
          let s' = s\<lparr>ix_deleted := List.insert i (ix_deleted s)\<rparr>
          in if ix_flush_at s' \<le> length (ix_deleted s') then ix_flush s' else s')"

section \<open>The contract of the index\<close>

text \<open>
  What the registry relies on: an index holds references in the order they were added, one
  per identifier; an identifier resolves to the reference that has it, else to those of that
  name whatever the case, else (from three characters on) to those whose identifier starts
  so.
\<close>

locale entity_lookup =
  fixes refs :: "'s \<Rightarrow> entity_ref list"
    and add :: "'s \<Rightarrow> entity_ref \<Rightarrow> 's"
    and remove :: "'s \<Rightarrow> string \<Rightarrow> 's"
    and look :: "'s \<Rightarrow> string \<Rightarrow> entity_ref list"
    and ok :: "'s \<Rightarrow> bool"
  assumes refs_distinct: "ok s \<Longrightarrow> distinct (map er_id (refs s))"
    and add_ok: "ok s \<Longrightarrow> er_id r \<notin> er_id ` set (refs s) \<Longrightarrow> ok (add s r)"
    and add_refs: "ok s \<Longrightarrow> er_id r \<notin> er_id ` set (refs s) \<Longrightarrow> refs (add s r) = refs s @ [r]"
    and remove_ok: "ok s \<Longrightarrow> ok (remove s eid)"
    and remove_refs: "ok s \<Longrightarrow> refs (remove s eid) = filter (\<lambda>r. er_id r \<noteq> eid) (refs s)"
    and look_id: "ok s \<Longrightarrow> r \<in> set (refs s) \<Longrightarrow> look s (er_id r) = [r]"
    and look_name: "ok s \<Longrightarrow> ident \<notin> er_id ` set (refs s) \<Longrightarrow>
       \<exists>r \<in> set (refs s). equal_fold (er_name r) ident \<Longrightarrow>
       look s ident = filter (\<lambda>r. equal_fold (er_name r) ident) (refs s)"
    and look_prefix: "ok s \<Longrightarrow> ident \<notin> er_id ` set (refs s) \<Longrightarrow>
       \<forall>r \<in> set (refs s). \<not> equal_fold (er_name r) ident \<Longrightarrow>
       set (look s ident) = {r \<in> set (refs s). 3 \<le> length ident \<and> has_prefix (er_id r) ident}"
begin

lemma look_sound:
  assumes "ok s"
  shows "set (look s ident) \<subseteq> set (refs s)"
proof (cases "ident \<in> er_id ` set (refs s)")
  case True
  then obtain r where "r \<in> set (refs s)" "ident = er_id r" by auto
  with look_id [OF assms this(1)] show ?thesis by simp
next
  case False
  then show ?thesis
    using look_name [OF assms False] look_prefix [OF assms False]
    by (cases "\<exists>r \<in> set (refs s). equal_fold (er_name r) ident") auto
qed

lemma look_after_add:
  assumes "ok s" "er_id r \<notin> er_id ` set (refs s)"
  shows "look (add s r) (er_id r) = [r]"
  using assms by (intro look_id) (simp_all add: add_ok add_refs)

lemma remove_add:
  assumes "ok s" "er_id r \<notin> er_id ` set (refs s)"
  shows "refs (remove (add s r) (er_id r)) = refs s"
proof -
  have "refs (remove (add s r) (er_id r)) = filter (\<lambda>x. er_id x \<noteq> er_id r) (refs s @ [r])"
    using assms by (simp add: remove_refs add_ok add_refs)
  also have "\<dots> = refs s" using assms(2) by (auto simp: filter_id_conv image_iff)
  finally show ?thesis .
qed

lemma look_after_remove:
  assumes "ok s"
  shows "r \<in> set (look (remove s eid) ident) \<Longrightarrow> er_id r \<noteq> eid \<and> r \<in> set (refs s)"
  using look_sound [OF remove_ok [OF assms], of eid ident] by (auto simp: remove_refs [OF assms])

text \<open>Adding and removing a whole batch, as registering and deregistering a recurfile does.\<close>

lemma adds:
  assumes "ok s" "distinct (map er_id rs)" "er_id ` set rs \<inter> er_id ` set (refs s) = {}"
  shows "ok (foldl add s rs) \<and> refs (foldl add s rs) = refs s @ rs"
  using assms
proof (induction rs arbitrary: s)
  case (Cons r rs)
  then have f: "er_id r \<notin> er_id ` set (refs s)" by auto
  have "er_id ` set rs \<inter> er_id ` set (refs (add s r)) = {}"
    using Cons.prems f by (auto simp: add_refs)
  with Cons f show ?case by (simp add: add_ok add_refs)
qed simp

lemma removes:
  assumes "ok s"
  shows "ok (foldl remove s ids) \<and> refs (foldl remove s ids) = filter (\<lambda>r. er_id r \<notin> set ids) (refs s)"
  using assms
proof (induction ids arbitrary: s)
  case (Cons eid ids)
  then show ?case by (simp add: remove_ok remove_refs)
qed simp

end

section \<open>The index fulfils it\<close>

definition live_ix :: "entity_index \<Rightarrow> nat list" where
  "live_ix s = filter (\<lambda>i. i \<notin> set (ix_deleted s)) [0..<length (ix_entries s)]"

definition ix_refs :: "entity_index \<Rightarrow> entity_ref list" where
  "ix_refs s = map (\<lambda>i. ix_entries s ! i) (live_ix s)"

text \<open>
  The maps agree with the entries: each name lists, in order, the entries of that name, dead
  ones included; each identifier points at an entry that has it, and a live entry is the one
  its identifier points at.
\<close>

definition ix_ok :: "entity_index \<Rightarrow> bool" where
  "ix_ok s \<longleftrightarrow> amap_ok (ix_by_id s) \<and>
     (\<forall>eid i. map_of (ix_by_id s) eid = Some i \<longrightarrow> i < length (ix_entries s) \<and> er_id (ix_entries s ! i) = eid) \<and>
     (\<forall>i < length (ix_entries s). i \<notin> set (ix_deleted s) \<longrightarrow>
        map_of (ix_by_id s) (er_id (ix_entries s ! i)) = Some i) \<and>
     (\<forall>k. (case map_of (ix_by_name s) k of None \<Rightarrow> [] | Some is \<Rightarrow> is) =
        filter (\<lambda>i. to_lower (er_name (ix_entries s ! i)) = k) [0..<length (ix_entries s)]) \<and>
     set (ix_deleted s) \<subseteq> {..<length (ix_entries s)}"

lemma live_ix_mem: "i \<in> set (live_ix s) \<longleftrightarrow> i < length (ix_entries s) \<and> i \<notin> set (ix_deleted s)"
  by (auto simp: live_ix_def)

lemma ix_refs_mem:
  "r \<in> set (ix_refs s) \<longleftrightarrow> (\<exists>i < length (ix_entries s). i \<notin> set (ix_deleted s) \<and> ix_entries s ! i = r)"
  by (auto simp: ix_refs_def live_ix_mem)

lemma ix_okD:
  assumes "ix_ok s"
  shows "amap_ok (ix_by_id s)"
    and "map_of (ix_by_id s) eid = Some i \<Longrightarrow> i < length (ix_entries s) \<and> er_id (ix_entries s ! i) = eid"
    and "i < length (ix_entries s) \<Longrightarrow> i \<notin> set (ix_deleted s) \<Longrightarrow>
      map_of (ix_by_id s) (er_id (ix_entries s ! i)) = Some i"
    and "(case map_of (ix_by_name s) k of None \<Rightarrow> [] | Some is \<Rightarrow> is) =
        filter (\<lambda>i. to_lower (er_name (ix_entries s ! i)) = k) [0..<length (ix_entries s)]"
    and "i \<in> set (ix_deleted s) \<Longrightarrow> i < length (ix_entries s)"
  using assms by (auto simp: ix_ok_def)

lemma new_entity_index_ok [simp]: "ix_ok new_entity_index" "ix_refs new_entity_index = []"
  by (simp_all add: ix_ok_def new_entity_index_def ix_refs_def live_ix_def)

lemma ix_refs_distinct: "ix_ok s \<Longrightarrow> distinct (map er_id (ix_refs s))"
proof -
  assume ok: "ix_ok s"
  have "inj_on (\<lambda>i. er_id (ix_entries s ! i)) (set (live_ix s))"
    by (rule inj_onI) (metis ok ix_okD(3) live_ix_mem option.inject)
  moreover have "distinct (live_ix s)" by (simp add: live_ix_def)
  ultimately show ?thesis by (simp add: ix_refs_def distinct_map comp_def)
qed

lemma ix_add_facts [simp]:
  "ix_entries (ix_add s r) = ix_entries s @ [r]"
  "ix_deleted (ix_add s r) = ix_deleted s"
  "ix_flush_at (ix_add s r) = ix_flush_at s"
  "ix_by_id (ix_add s r) = AList.update (er_id r) (length (ix_entries s)) (ix_by_id s)"
  by (simp_all add: ix_add_def Let_def)

lemma ix_add_refs:
  assumes "ix_ok s"
  shows "ix_refs (ix_add s r) = ix_refs s @ [r]"
proof -
  have "length (ix_entries s) \<notin> set (ix_deleted s)" using ix_okD(5) [OF assms] by blast
  then show ?thesis
    by (auto simp: ix_refs_def live_ix_def nth_append intro!: map_cong)
qed

lemma ix_add_ok:
  assumes ok: "ix_ok s" and fresh: "er_id r \<notin> er_id ` set (ix_refs s)"
  shows "ix_ok (ix_add s r)"
proof -
  let ?n = "length (ix_entries s)"
  have n: "?n \<notin> set (ix_deleted s)" using ix_okD(5) [OF ok] by blast
  have fr: "er_id (ix_entries s ! i) \<noteq> er_id r" if "i < ?n" "i \<notin> set (ix_deleted s)" for i
    using fresh that by (metis image_eqI ix_refs_mem)
  have names: "(case map_of (ix_by_name (ix_add s r)) k of None \<Rightarrow> [] | Some is \<Rightarrow> is) =
      filter (\<lambda>i. to_lower (er_name ((ix_entries s @ [r]) ! i)) = k) [0..<Suc ?n]" for k
  proof -
    have "filter (\<lambda>i. to_lower (er_name ((ix_entries s @ [r]) ! i)) = k) [0..<?n] =
        filter (\<lambda>i. to_lower (er_name (ix_entries s ! i)) = k) [0..<?n]"
      by (rule filter_cong) (auto simp: nth_append)
    then show ?thesis
      using ix_okD(4) [OF ok, of k] by (auto simp: ix_add_def Let_def push_name_def)
  qed
  show ?thesis
    unfolding ix_ok_def
    using ix_okD(1,2,3,5) [OF ok] names fr n
    by (auto simp: nth_append less_Suc_eq split: if_splits)
qed

fun live_from :: "nat set \<Rightarrow> nat \<Rightarrow> 'a list \<Rightarrow> 'a list" where
  "live_from D i [] = []"
| "live_from D i (r # rs) = (if i \<in> D then [] else [r]) @ live_from D (Suc i) rs"

lemma live_from_zip: "live_from D i rs = map snd (filter (\<lambda>p. fst p \<notin> D) (zip [i..<i + length rs] rs))"
proof (induction rs arbitrary: i)
  case (Cons r rs)
  have "[i..<i + length (r # rs)] = i # [Suc i..<Suc i + length rs]" by (simp add: upt_conv_Cons del: upt_Suc)
  with Cons show ?case by (simp del: upt_Suc)
qed simp

lemma ix_refs_live: "ix_refs s = live_from (set (ix_deleted s)) 0 (ix_entries s)"
proof -
  have "zip [0..<length (ix_entries s)] (ix_entries s) =
      map (\<lambda>i. (i, ix_entries s ! i)) [0..<length (ix_entries s)]"
    by (rule nth_equalityI) auto
  then show ?thesis by (simp add: ix_refs_def live_ix_def live_from_zip filter_map comp_def)
qed

lemma flush_loop_ok:
  assumes "ix_ok acc" "ix_deleted acc = []"
    and "distinct (map er_id (ix_refs acc @ live_from (set (ix_deleted s)) i rs))"
  shows "ix_ok (flush_loop s i rs acc) \<and>
    ix_refs (flush_loop s i rs acc) = ix_refs acc @ live_from (set (ix_deleted s)) i rs"
  using assms
proof (induction rs arbitrary: i acc)
  case (Cons r rs)
  show ?case
  proof (cases "i \<in> set (ix_deleted s)")
    case True
    with Cons.IH [of acc "Suc i"] Cons.prems show ?thesis by simp
  next
    case False
    with Cons.prems have d: "er_id r \<notin> er_id ` set (ix_refs acc)" by auto
    have "ix_refs (ix_add acc r) = ix_refs acc @ [r]" by (rule ix_add_refs [OF Cons.prems(1)])
    with Cons.IH [of "ix_add acc r" "Suc i"] Cons.prems False ix_add_ok [OF Cons.prems(1) d]
    show ?thesis by simp
  qed
qed simp

lemma ix_flush_ok:
  assumes "distinct (map er_id (ix_refs s))"
  shows "ix_ok (ix_flush s) \<and> ix_refs (ix_flush s) = ix_refs s"
proof -
  let ?e = "s\<lparr>ix_entries := [], ix_by_id := [], ix_by_name := [], ix_deleted := []\<rparr>"
  have "ix_ok ?e" "ix_refs ?e = []" by (simp_all add: ix_ok_def ix_refs_def live_ix_def)
  with flush_loop_ok [of ?e s 0 "ix_entries s"] assms show ?thesis
    by (simp add: ix_flush_def ix_refs_live)
qed

lemma ix_remove_ok:
  assumes ok: "ix_ok s"
  shows "ix_ok (ix_remove s eid)"
    and "ix_refs (ix_remove s eid) = filter (\<lambda>r. er_id r \<noteq> eid) (ix_refs s)"
proof -
  have "ix_ok (ix_remove s eid) \<and> ix_refs (ix_remove s eid) = filter (\<lambda>r. er_id r \<noteq> eid) (ix_refs s)"
  proof (cases "map_of (ix_by_id s) eid")
    case None
    have "er_id r \<noteq> eid" if "r \<in> set (ix_refs s)" for r
    proof -
      from that obtain i where "i < length (ix_entries s)" "i \<notin> set (ix_deleted s)" "ix_entries s ! i = r"
        by (auto simp: ix_refs_mem)
      with ix_okD(3) [OF ok, of i] None show ?thesis by auto
    qed
    with None ok show ?thesis by (simp add: ix_remove_def filter_id_conv)
  next
    case (Some i)
    define s1 where "s1 = s\<lparr>ix_deleted := List.insert i (ix_deleted s)\<rparr>"
    from ix_okD(2) [OF ok Some] have i: "i < length (ix_entries s)" "er_id (ix_entries s ! i) = eid" by auto
    have ok1: "ix_ok s1"
      using ok i(1) unfolding ix_ok_def s1_def by simp
    have live: "er_id (ix_entries s ! j) = eid \<longleftrightarrow> j = i" if "j < length (ix_entries s)" "j \<notin> set (ix_deleted s)" for j
      using ix_okD(3) [OF ok that] Some i(2) by (metis option.inject)
    have "ix_refs s1 = map (\<lambda>j. ix_entries s ! j) (filter (\<lambda>j. j \<noteq> i) (live_ix s))"
      by (simp add: ix_refs_def live_ix_def s1_def conj_commute)
    also have "\<dots> = filter (\<lambda>r. er_id r \<noteq> eid) (ix_refs s)"
      unfolding ix_refs_def filter_map comp_def
      by (rule arg_cong [where f = "map _"], rule filter_cong [OF refl]) (auto simp: live_ix_mem live)
    finally have r1: "ix_refs s1 = filter (\<lambda>r. er_id r \<noteq> eid) (ix_refs s)" .
    from ix_flush_ok [OF ix_refs_distinct [OF ok1]] ok1 r1 Some
    show ?thesis by (simp add: ix_remove_def Let_def s1_def [symmetric])
  qed
  then show "ix_ok (ix_remove s eid)"
    "ix_refs (ix_remove s eid) = filter (\<lambda>r. er_id r \<noteq> eid) (ix_refs s)" by auto
qed

lemma ix_by_id_refs:
  assumes ok: "ix_ok s" and "ident \<notin> er_id ` set (ix_refs s)" "map_of (ix_by_id s) ident = Some i"
  shows "i \<in> set (ix_deleted s)"
  using ix_okD(2) [OF ok assms(3)] assms(2) by (metis image_eqI ix_refs_mem)

lemma ix_names:
  assumes ok: "ix_ok s"
  shows "(case map_of (ix_by_name s) (to_lower ident) of
            None \<Rightarrow> [] | Some is \<Rightarrow> map (\<lambda>i. ix_entries s ! i) (filter (\<lambda>i. i \<notin> set (ix_deleted s)) is)) =
         filter (\<lambda>r. equal_fold (er_name r) ident) (ix_refs s)"
proof -
  have "(case map_of (ix_by_name s) (to_lower ident) of
            None \<Rightarrow> [] | Some is \<Rightarrow> map (\<lambda>i. ix_entries s ! i) (filter (\<lambda>i. i \<notin> set (ix_deleted s)) is)) =
      map (\<lambda>i. ix_entries s ! i) (filter (\<lambda>i. i \<notin> set (ix_deleted s))
        (case map_of (ix_by_name s) (to_lower ident) of None \<Rightarrow> [] | Some is \<Rightarrow> is))"
    by (simp split: option.splits)
  also have "\<dots> = filter (\<lambda>r. equal_fold (er_name r) ident) (ix_refs s)"
    unfolding ix_okD(4) [OF ok] ix_refs_def live_ix_def filter_map comp_def equal_fold_def
    by (simp add: conj_commute)
  finally show ?thesis .
qed

lemma ix_lookup_id:
  assumes ok: "ix_ok s" and r: "r \<in> set (ix_refs s)"
  shows "ix_lookup s (er_id r) = [r]"
proof -
  from r obtain i where i: "i < length (ix_entries s)" "i \<notin> set (ix_deleted s)" "ix_entries s ! i = r"
    by (auto simp: ix_refs_mem)
  with ix_okD(3) [OF ok i(1,2)] show ?thesis by (simp add: ix_lookup_def Let_def)
qed

lemma ix_lookup_not_id:
  assumes ok: "ix_ok s" and n: "ident \<notin> er_id ` set (ix_refs s)"
  shows "ix_lookup s ident =
    (let by_name = filter (\<lambda>r. equal_fold (er_name r) ident) (ix_refs s) in
     if by_name \<noteq> [] then by_name
     else if 3 \<le> length ident
     then map (\<lambda>(eid, i). ix_entries s ! i)
            (filter (\<lambda>(eid, i). i \<notin> set (ix_deleted s) \<and> length ident \<le> length eid \<and> take (length ident) eid = ident)
              (ix_by_id s))
     else [])"
  using ix_by_id_refs [OF ok n]
  by (simp add: ix_lookup_def Let_def ix_names [OF ok] split: option.splits)

lemma ix_prefix_set:
  assumes ok: "ix_ok s"
  shows "(\<lambda>(eid, i). ix_entries s ! i) `
     {p \<in> set (ix_by_id s). case p of (eid, i) \<Rightarrow>
        i \<notin> set (ix_deleted s) \<and> length ident \<le> length eid \<and> take (length ident) eid = ident} =
   {r \<in> set (ix_refs s). has_prefix (er_id r) ident}" (is "?L = ?R")
proof
  show "?L \<subseteq> ?R"
    using ix_okD(2) [OF ok]
    by (auto simp: amap_in_iff [OF ix_okD(1) [OF ok]] ix_refs_mem has_prefix_take) blast+
  show "?R \<subseteq> ?L"
  proof
    fix r assume r: "r \<in> ?R"
    then obtain i where i: "i < length (ix_entries s)" "i \<notin> set (ix_deleted s)" "ix_entries s ! i = r"
      by (auto simp: ix_refs_mem)
    from ix_okD(3) [OF ok i(1,2)] i have "(er_id r, i) \<in> set (ix_by_id s)"
      by (simp add: amap_in_iff [OF ix_okD(1) [OF ok]])
    with i r show "r \<in> ?L" by (force simp: has_prefix_take)
  qed
qed

interpretation eix: entity_lookup ix_refs ix_add ix_remove ix_lookup ix_ok
proof unfold_locales
  fix s r eid ident assume ok: "ix_ok s"
  show "distinct (map er_id (ix_refs s))" by (rule ix_refs_distinct [OF ok])
  show "ix_ok (ix_remove s eid)" by (rule ix_remove_ok(1) [OF ok])
  show "ix_refs (ix_remove s eid) = filter (\<lambda>r. er_id r \<noteq> eid) (ix_refs s)" by (rule ix_remove_ok(2) [OF ok])
  show "er_id r \<notin> er_id ` set (ix_refs s) \<Longrightarrow> ix_ok (ix_add s r)" by (rule ix_add_ok [OF ok])
  show "er_id r \<notin> er_id ` set (ix_refs s) \<Longrightarrow> ix_refs (ix_add s r) = ix_refs s @ [r]"
    by (rule ix_add_refs [OF ok])
  show "r \<in> set (ix_refs s) \<Longrightarrow> ix_lookup s (er_id r) = [r]" by (rule ix_lookup_id [OF ok])
  assume n: "ident \<notin> er_id ` set (ix_refs s)"
  show "\<exists>r \<in> set (ix_refs s). equal_fold (er_name r) ident \<Longrightarrow>
      ix_lookup s ident = filter (\<lambda>r. equal_fold (er_name r) ident) (ix_refs s)"
    by (auto simp: ix_lookup_not_id [OF ok n] Let_def filter_empty_conv)
  assume "\<forall>r \<in> set (ix_refs s). \<not> equal_fold (er_name r) ident"
  then have "filter (\<lambda>r. equal_fold (er_name r) ident) (ix_refs s) = []" by (simp add: filter_empty_conv)
  then show "set (ix_lookup s ident) = {r \<in> set (ix_refs s). 3 \<le> length ident \<and> has_prefix (er_id r) ident}"
    using ix_prefix_set [OF ok, of ident] by (auto simp: ix_lookup_not_id [OF ok n] Let_def image_iff)
qed

section \<open>Refinement\<close>

text \<open>
  A history of the index: additions and removals. On the abstract side it acts on the list of
  the live references; an addition is fresh when its identifier is not live.
\<close>

datatype ix_op = IAdd entity_ref | IRemove string

fun ix_step :: "entity_index \<Rightarrow> ix_op \<Rightarrow> entity_index" where
  "ix_step s (IAdd r) = ix_add s r"
| "ix_step s (IRemove eid) = ix_remove s eid"

fun refs_step :: "entity_ref list \<Rightarrow> ix_op \<Rightarrow> entity_ref list" where
  "refs_step rs (IAdd r) = rs @ [r]"
| "refs_step rs (IRemove eid) = filter (\<lambda>r. er_id r \<noteq> eid) rs"

fun fresh_ref :: "entity_ref list \<Rightarrow> ix_op \<Rightarrow> bool" where
  "fresh_ref rs (IAdd r) = (er_id r \<notin> er_id ` set rs)"
| "fresh_ref rs (IRemove eid) = True"

abbreviation fresh_ops :: "entity_ref list \<Rightarrow> ix_op list \<Rightarrow> bool" where
  "fresh_ops \<equiv> permitted refs_step fresh_ref"

interpretation ixm: refining_machine ix_step "\<lambda>s. fresh_ref (ix_refs s)" ix_ok ix_refs refs_step fresh_ref
proof
  fix s p
  assume "ix_ok s" "fresh_ref (ix_refs s) p"
  then show "ix_ok (ix_step s p)" "ix_refs (ix_step s p) = refs_step (ix_refs s) p"
    by (cases p; simp add: eix.add_ok eix.add_refs eix.remove_ok eix.remove_refs)+
qed simp

definition find_refs :: "entity_ref list \<Rightarrow> string \<Rightarrow> entity_ref set" where
  "find_refs rs ident =
     (if ident \<in> er_id ` set rs then {r \<in> set rs. er_id r = ident}
      else if \<exists>r \<in> set rs. equal_fold (er_name r) ident then {r \<in> set rs. equal_fold (er_name r) ident}
      else {r \<in> set rs. 3 \<le> length ident \<and> has_prefix (er_id r) ident})"

lemma ix_lookup_find_refs:
  assumes ok: "ix_ok s"
  shows "set (ix_lookup s ident) = find_refs (ix_refs s) ident"
proof (cases "ident \<in> er_id ` set (ix_refs s)")
  case True
  then obtain r where r: "r \<in> set (ix_refs s)" "er_id r = ident" by auto
  have one: "{x \<in> set (ix_refs s). er_id x = ident} = {r}"
  proof -
    have "inj_on er_id (set (ix_refs s))" using eix.refs_distinct [OF ok] by (simp add: distinct_map)
    then have "x = r" if "x \<in> set (ix_refs s)" "er_id x = ident" for x
      using that r by (metis inj_onD)
    with r show ?thesis by blast
  qed
  have "ix_lookup s ident = [r]" using eix.look_id [OF ok r(1)] unfolding r(2) .
  moreover have "find_refs (ix_refs s) ident = {r}" using True one unfolding find_refs_def by (simp only: if_True)
  ultimately show ?thesis by simp
next
  case False
  show ?thesis
  proof (cases "\<exists>r \<in> set (ix_refs s). equal_fold (er_name r) ident")
    case True
    with False show ?thesis by (simp add: find_refs_def eix.look_name [OF ok False])
  next
    case none: False
    with False show ?thesis by (simp add: find_refs_def eix.look_prefix [OF ok False])
  qed
qed

text \<open>
  C11: the entity index refines a plain list of references. After any history of additions
  with fresh identifiers and removals, compactions included, looking an identifier up finds
  exactly the references the list has for it: by identifier, else by name whatever the case,
  else by a prefix of the identifier.
\<close>

theorem entity_index_refines:
  assumes "fresh_ops [] ops"
  shows "set (ix_lookup (foldl ix_step new_entity_index ops) ident) =
    find_refs (foldl refs_step [] ops) ident"
proof -
  have new: "ix_ok new_entity_index" "ix_refs new_entity_index = []" by simp_all
  have "permitted ix_step (\<lambda>s. fresh_ref (ix_refs s)) new_entity_index ops"
    using assms by (simp add: ixm.run_allowed [OF new(1)] new(2))
  from ixm.run_inv [OF new(1) this] ixm.run_abs [OF new(1) this] new(2) show ?thesis
    by (simp add: ix_lookup_find_refs)
qed

definition ref1 :: entity_ref where "ref1 = \<lparr>er_type = ''trigger'', er_id = ''aabbcc'', er_name = ''Cron''\<rparr>"
definition ref2 :: entity_ref where "ref2 = \<lparr>er_type = ''trigger'', er_id = ''aaddee'', er_name = ''Cron''\<rparr>"

theorem entity_index_refines_witness:
  "set (ix_lookup (foldl ix_step new_entity_index [IAdd ref1, IAdd ref2, IRemove ''aabbcc'']) ''cron'') = {ref2}"
proof -
  have "fresh_ops [] [IAdd ref1, IAdd ref2, IRemove ''aabbcc'']" by (simp add: ref1_def ref2_def)
  note look = entity_index_refines [OF this, of "''cron''"]
  have "foldl refs_step [] [IAdd ref1, IAdd ref2, IRemove ''aabbcc''] = [ref2]"
    by (simp add: ref1_def ref2_def)
  moreover have "equal_fold (er_name ref2) ''cron''"
    by (simp add: ref2_def equal_fold_def to_lower_def lower_char_def char_eval)
  moreover have "er_id ref2 \<noteq> ''cron''" by (simp add: ref2_def)
  then have "find_refs [ref2] ''cron'' = {ref2}"
    using calculation(2) by (auto simp: find_refs_def)
  ultimately show ?thesis using look by (simp only:)
qed

text \<open>
  Without freshness the index forgets to hide an entry: after adding an identifier twice and
  removing it, its name still resolves.
\<close>

lemma duplicate_add_survives_remove:
  "ix_lookup (ix_remove (ix_add (ix_add new_entity_index ref1) ref1) ''aabbcc'') ''cron'' = [ref1]"
  by (simp add: ix_lookup_def ix_remove_def ix_add_def new_entity_index_def push_name_def ref1_def Let_def
      to_lower_def lower_char_def char_eval)

end
