(* ===== verification/Registry.thy ===== *)
theory Registry
  imports Entities Entity_Index Plugins
begin

text \<open>
  \<open>daemon/registry.go\<close>: the registered recurfiles, groups, triggers and actions with the index
  over them. Every method holds the registry's mutex, so each is one step of the state; the
  pointers its maps hold are shared with no one who writes outside that mutex but the
  executor callback (\<open>Daemon\<close>). Maps are association lists; a \<open>range\<close> loop visits them in
  the order of the list.
\<close>

record registry =
  re_recurfiles :: "(string, recurfile) amap"
  re_groups :: "(string, grp) amap"
  re_triggers :: "(string, trigger) amap"
  re_actions :: "(string, action) amap"
  re_index :: entity_index

definition new_registry :: registry where
  "new_registry = \<lparr>re_recurfiles = [], re_groups = [], re_triggers = [], re_actions = [],
     re_index = new_entity_index\<rparr>"

text \<open>
  The operating system as the registry sees it: whether two paths name one file (both can be
  statted and \<open>os.SameFile\<close> holds), and the working directory if it can be read.
\<close>

record reg_env =
  os_same_file :: "string \<Rightarrow> string \<Rightarrow> bool"
  os_cwd :: "string option"

definition same_recurfile_path :: "reg_env \<Rightarrow> string \<Rightarrow> string \<Rightarrow> bool" where
  "same_recurfile_path env a b \<longleftrightarrow> a = b \<or> os_same_file env a b"

definition has_recurfile_path :: "reg_env \<Rightarrow> registry \<Rightarrow> string \<Rightarrow> bool" where
  "has_recurfile_path env r path \<longleftrightarrow>
     list_ex (\<lambda>rc. same_recurfile_path env (rc_path rc) path) (amap_vals (re_recurfiles r))"

definition normalize_path :: "reg_env \<Rightarrow> string \<Rightarrow> string" where
  "normalize_path env p =
     (if is_abs p then path_clean (path_clean p)
      else case os_cwd env of None \<Rightarrow> p | Some d \<Rightarrow> path_clean (path_abs d p))"

section \<open>Registration\<close>

record reg_input =
  ri_plugins :: "installed_plugin list"
  ri_defaults :: "gmap option"
  ri_overrides :: "(string, gmap) amap"

record register_result =
  rr_recurfile_id :: string
  rr_trigger_count :: nat
  rr_action_count :: nat
  rr_warnings :: "string list"
  rr_reloaded :: bool
  rr_old_trigger_ids :: "string list"

definition settings_for :: "reg_input \<Rightarrow> raw_group \<Rightarrow> raw_trigger \<Rightarrow> trigger_settings" where
  "settings_for inp g t =
     (case trigger_defaults_for (domain_all (ri_plugins inp)) (rt_type t) of (ns, defs) \<Rightarrow>
        build_trigger_settings (ri_defaults inp) defs (map_of (ri_overrides inp) ns)
          (rg_options g) (rt_options t))"

definition make_trigger :: "reg_input \<Rightarrow> string \<Rightarrow> string \<Rightarrow> string \<Rightarrow> raw_group \<Rightarrow> nat \<Rightarrow>
    raw_trigger \<Rightarrow> trigger" where
  "make_trigger inp path wid gid g n t =
     (let s = settings_for inp g t in
      \<lparr>tr_id = entity_id ''trigger'' (trigger_seed gid (rt_type t) n), tr_type = rt_type t,
       tr_name = rt_name t, tr_group_id = gid, tr_group_name = rg_name g, tr_recurfile_id = wid,
       tr_recurfile_path = path, tr_plugin_id = resolve_plugin_for_trigger (ri_plugins inp) (rt_type t),
       tr_options = rt_options t, tr_status = st_active, tr_error_count = 0,
       tr_error_threshold = ts_error_threshold s, tr_last_fired = 0,
       tr_concurrency_mode = ts_concurrency_mode s, tr_max_queue_size = ts_max_queue_size s,
       tr_debounce = ts_debounce s\<rparr>)"

definition make_action :: "reg_input \<Rightarrow> string \<Rightarrow> string \<Rightarrow> string \<Rightarrow> raw_group \<Rightarrow> string \<Rightarrow> int \<Rightarrow>
    nat \<Rightarrow> raw_action \<Rightarrow> action" where
  "make_action inp path wid gid g tid aet n a =
     \<lparr>ac_id = entity_id ''action'' (action_seed tid (ra_type a) n), ac_type = ra_type a,
      ac_name = ra_name a, ac_group_id = gid, ac_group_name = rg_name g, ac_trigger_id = tid,
      ac_recurfile_id = wid, ac_recurfile_path = path,
      ac_plugin_id = resolve_plugin_for_action (ri_plugins inp) (ra_type a),
      ac_options = ra_options a, ac_status = st_active, ac_error_count = 0,
      ac_error_threshold = aet, ac_last_executed = 0\<rparr>"

definition trigger_ref :: "trigger \<Rightarrow> entity_ref" where
  "trigger_ref t = \<lparr>er_type = ''trigger'', er_id = tr_id t,
     er_name = (if tr_name t \<noteq> [] then tr_name t else tr_type t)\<rparr>"

definition action_ref :: "action \<Rightarrow> entity_ref" where
  "action_ref a = \<lparr>er_type = ''action'', er_id = ac_id a,
     er_name = (if ac_name a \<noteq> [] then ac_name a else ac_type a)\<rparr>"

definition group_ref :: "grp \<Rightarrow> entity_ref" where
  "group_ref g = \<lparr>er_type = ''group'', er_id = gp_id g, er_name = gp_name g\<rparr>"

definition recurfile_ref :: "recurfile \<Rightarrow> entity_ref" where
  "recurfile_ref rc = \<lparr>er_type = ''recurfile'', er_id = rc_id rc, er_name = rc_path rc\<rparr>"

definition occ :: "(string, nat) amap \<Rightarrow> string \<Rightarrow> nat" where
  "occ m k = (case map_of m k of None \<Rightarrow> 0 | Some n \<Rightarrow> n)"

text \<open>The body of the inner loop over the actions of a trigger.\<close>

definition register_action :: "reg_input \<Rightarrow> string \<Rightarrow> string \<Rightarrow> string \<Rightarrow> raw_group \<Rightarrow> string \<Rightarrow> int \<Rightarrow>
    registry \<times> grp \<times> (string, nat) amap \<times> nat \<Rightarrow> raw_action \<Rightarrow>
    registry \<times> grp \<times> (string, nat) amap \<times> nat" where
  "register_action inp path wid gid g tid aet st ra =
     (let (r, gr, cnt, n) = st;
          oc = occ cnt (ra_type ra);
          a = make_action inp path wid gid g tid aet oc ra
      in (r\<lparr>re_actions := AList.update (ac_id a) a (re_actions r),
            re_index := ix_add (re_index r) (action_ref a)\<rparr>,
          gr\<lparr>gp_action_ids := gp_action_ids gr @ [ac_id a]\<rparr>,
          AList.update (ra_type ra) (Suc oc) cnt, Suc n))"

definition register_trigger :: "reg_input \<Rightarrow> string \<Rightarrow> string \<Rightarrow> string \<Rightarrow> raw_group \<Rightarrow>
    registry \<times> grp \<times> (string, nat) amap \<times> nat \<times> nat \<Rightarrow> raw_trigger \<Rightarrow>
    registry \<times> grp \<times> (string, nat) amap \<times> nat \<times> nat" where
  "register_trigger inp path wid gid g st rt =
     (let (r, gr, cnt, tn, an) = st;
          oc = occ cnt (rt_type rt);
          t = make_trigger inp path wid gid g oc rt;
          r1 = r\<lparr>re_triggers := AList.update (tr_id t) t (re_triggers r),
                 re_index := ix_add (re_index r) (trigger_ref t)\<rparr>;
          gr1 = gr\<lparr>gp_trigger_ids := gp_trigger_ids gr @ [tr_id t]\<rparr>;
          (r2, gr2, cnt2, an2) =
            foldl (register_action inp path wid gid g (tr_id t)
                     (ts_action_error_threshold (settings_for inp g rt)))
              (r1, gr1, [], an) (rt_actions rt)
      in (r2, gr2, AList.update (rt_type rt) (Suc oc) cnt, Suc tn, an2))"

definition register_group :: "reg_input \<Rightarrow> string \<Rightarrow> string \<Rightarrow>
    registry \<times> recurfile \<times> nat \<times> nat \<Rightarrow> raw_group \<Rightarrow> registry \<times> recurfile \<times> nat \<times> nat" where
  "register_group inp path wid st g =
     (let (r, rc, tn, an) = st;
          gid = entity_id ''group'' (group_seed wid (rg_name g));
          gr = \<lparr>gp_id = gid, gp_name = rg_name g, gp_recurfile_id = wid, gp_trigger_ids = [],
                gp_action_ids = [], gp_options = rg_options g, gp_aliases = rg_aliases g\<rparr>;
          (r1, gr1, cnt, tn1, an1) = foldl (register_trigger inp path wid gid g) (r, gr, [], tn, an) (rg_triggers g)
      in (r1\<lparr>re_groups := AList.update gid gr1 (re_groups r1),
             re_index := ix_add (re_index r1) (group_ref gr1)\<rparr>,
          rc\<lparr>rc_groups := rc_groups rc @ [gid]\<rparr>, tn1, an1))"

section \<open>Deregistration\<close>

definition trigger_ids_of :: "registry \<Rightarrow> recurfile \<Rightarrow> string list" where
  "trigger_ids_of r rc =
     concat (map (\<lambda>gid. case map_of (re_groups r) gid of None \<Rightarrow> [] | Some g \<Rightarrow> gp_trigger_ids g) (rc_groups rc))"

definition drop_trigger :: "registry \<Rightarrow> string \<Rightarrow> registry" where
  "drop_trigger r tid = r\<lparr>re_triggers := AList.delete tid (re_triggers r),
     re_index := ix_remove (re_index r) tid\<rparr>"

definition drop_action :: "registry \<Rightarrow> string \<Rightarrow> registry" where
  "drop_action r aid = r\<lparr>re_actions := AList.delete aid (re_actions r),
     re_index := ix_remove (re_index r) aid\<rparr>"

definition drop_group :: "registry \<times> nat \<times> nat \<Rightarrow> string \<Rightarrow> registry \<times> nat \<times> nat" where
  "drop_group st gid =
     (let (r, tn, an) = st in
      case map_of (re_groups r) gid of
        None \<Rightarrow> st
      | Some g \<Rightarrow>
          let r1 = foldl drop_trigger r (gp_trigger_ids g);
              r2 = foldl drop_action r1 (gp_action_ids g)
          in (r2\<lparr>re_groups := AList.delete gid (re_groups r2),
                 re_index := ix_remove (re_index r2) gid\<rparr>,
              tn + length (gp_trigger_ids g), an + length (gp_action_ids g)))"

definition unlocked_deregister :: "registry \<Rightarrow> recurfile \<Rightarrow> registry \<times> nat \<times> nat" where
  "unlocked_deregister r rc =
     (case foldl drop_group (r, 0, 0) (rc_groups rc) of (r1, tn, an) \<Rightarrow>
        (r1\<lparr>re_recurfiles := AList.delete (rc_id rc) (re_recurfiles r1),
            re_index := ix_remove (re_index r1) (rc_id rc)\<rparr>, tn, an))"

definition register_resolved :: "reg_env \<Rightarrow> reg_input \<Rightarrow> registry \<Rightarrow> raw_file \<Rightarrow> string list \<Rightarrow>
    registry \<times> register_result" where
  "register_resolved env inp r f warnings =
     (let path = normalize_path env (rf_path f);
          old = find (\<lambda>rc. same_recurfile_path env (rc_path rc) path) (amap_vals (re_recurfiles r));
          (r0, old_ids) = (case old of
              None \<Rightarrow> (r, [])
            | Some rc \<Rightarrow> (fst (unlocked_deregister r rc), trigger_ids_of r rc));
          wid = entity_id ''recurfile'' path;
          rc0 = \<lparr>rc_id = wid, rc_path = path, rc_groups = [], rc_secrets = rf_secrets f\<rparr>;
          (r1, rc1, tn, an) = foldl (register_group inp path wid) (r0, rc0, 0, 0) (rf_groups f)
      in (r1\<lparr>re_recurfiles := AList.update wid rc1 (re_recurfiles r1),
             re_index := ix_add (re_index r1) (recurfile_ref rc1)\<rparr>,
          \<lparr>rr_recurfile_id = wid, rr_trigger_count = tn, rr_action_count = an, rr_warnings = warnings,
           rr_reloaded = (old \<noteq> None), rr_old_trigger_ids = old_ids\<rparr>))"

definition register_recurfile :: "reg_env \<Rightarrow> reg_input \<Rightarrow> registry \<Rightarrow> raw_file \<Rightarrow>
    registry \<times> register_result" where
  "register_recurfile env inp r f =
     (let f' = resolve f in register_resolved env inp r f' (validate f'))"

section \<open>Resolving identifiers\<close>

definition resolve_entity :: "registry \<Rightarrow> string \<Rightarrow> string list \<Rightarrow> entity_ref list" where
  "resolve_entity r ident allowed =
     (let refs = ix_lookup (re_index r) ident in
      if allowed = [] then refs else filter (\<lambda>x. er_type x \<in> set allowed) refs)"

definition find_entity_by_type :: "registry \<Rightarrow> string \<Rightarrow> string \<Rightarrow> entity_ref option" where
  "find_entity_by_type r ident ty =
     (case resolve_entity r ident [ty] of [] \<Rightarrow> None | x # _ \<Rightarrow> Some x)"

definition find_in :: "registry \<Rightarrow> string \<Rightarrow> (string, 'a) amap \<Rightarrow> string \<Rightarrow> 'a option" where
  "find_in r ty m ident =
     (case find_entity_by_type r ident ty of None \<Rightarrow> None | Some x \<Rightarrow> map_of m (er_id x))"

definition find_recurfile :: "registry \<Rightarrow> string \<Rightarrow> recurfile option" where
  "find_recurfile r ident = find_in r ''recurfile'' (re_recurfiles r) ident"

definition find_trigger :: "registry \<Rightarrow> string \<Rightarrow> trigger option" where
  "find_trigger r ident = find_in r ''trigger'' (re_triggers r) ident"

definition find_action :: "registry \<Rightarrow> string \<Rightarrow> action option" where
  "find_action r ident = find_in r ''action'' (re_actions r) ident"

definition find_group :: "registry \<Rightarrow> string \<Rightarrow> grp option" where
  "find_group r ident = find_in r ''group'' (re_groups r) ident"

definition deregister_recurfile :: "registry \<Rightarrow> string \<Rightarrow> (recurfile \<times> nat \<times> nat) result \<times> registry" where
  "deregister_recurfile r ident =
     (case find_recurfile r ident of
        None \<Rightarrow> (Inl (''recurfile not found: '' @ ident), r)
      | Some rc \<Rightarrow> (case unlocked_deregister r rc of (r', tn, an) \<Rightarrow> (Inr (rc, tn, an), r')))"

section \<open>Queries\<close>

definition get_action :: "registry \<Rightarrow> string \<Rightarrow> action option" where
  "get_action r aid = map_of (re_actions r) aid"

definition get_group :: "registry \<Rightarrow> string \<Rightarrow> grp option" where
  "get_group r gid = map_of (re_groups r) gid"

definition get_recurfile :: "registry \<Rightarrow> string \<Rightarrow> recurfile option" where
  "get_recurfile r rid = map_of (re_recurfiles r) rid"

definition get_trigger :: "registry \<Rightarrow> string \<Rightarrow> trigger option" where
  "get_trigger r tid = map_of (re_triggers r) tid"

definition list_recurfiles :: "registry \<Rightarrow> recurfile list" where
  "list_recurfiles r = amap_vals (re_recurfiles r)"

definition list_groups :: "registry \<Rightarrow> grp list" where
  "list_groups r = amap_vals (re_groups r)"

definition list_triggers :: "registry \<Rightarrow> trigger list" where
  "list_triggers r = amap_vals (re_triggers r)"

definition list_actions :: "registry \<Rightarrow> action list" where
  "list_actions r = amap_vals (re_actions r)"

definition get_actions_for_trigger :: "registry \<Rightarrow> string \<Rightarrow> action list" where
  "get_actions_for_trigger r tid =
     (case map_of (re_triggers r) tid of
        None \<Rightarrow> []
      | Some t \<Rightarrow>
          (case map_of (re_groups r) (tr_group_id t) of
             None \<Rightarrow> []
           | Some g \<Rightarrow>
               filter (\<lambda>a. ac_trigger_id a = tid) (List.map_filter (map_of (re_actions r)) (gp_action_ids g))))"

definition trigger_ids_for_recurfile :: "registry \<Rightarrow> string \<Rightarrow> string list" where
  "trigger_ids_for_recurfile r ident =
     (case find_recurfile r ident of None \<Rightarrow> [] | Some rc \<Rightarrow> trigger_ids_of r rc)"

definition groups_for_recurfile :: "registry \<Rightarrow> string \<Rightarrow> grp list" where
  "groups_for_recurfile r wid =
     (case map_of (re_recurfiles r) wid of
        None \<Rightarrow> [] | Some rc \<Rightarrow> List.map_filter (map_of (re_groups r)) (rc_groups rc))"

definition get_recurfile_counts :: "registry \<Rightarrow> string \<Rightarrow> nat \<times> nat" where
  "get_recurfile_counts r wid =
     foldl (\<lambda>(tn, an) g. (tn + length (gp_trigger_ids g), an + length (gp_action_ids g))) (0, 0)
       (groups_for_recurfile r wid)"

definition group_triggers :: "registry \<Rightarrow> string \<Rightarrow> trigger list" where
  "group_triggers r gid =
     (case map_of (re_groups r) gid of
        None \<Rightarrow> [] | Some g \<Rightarrow> List.map_filter (map_of (re_triggers r)) (gp_trigger_ids g))"

definition group_actions :: "registry \<Rightarrow> string \<Rightarrow> action list" where
  "group_actions r gid =
     (case map_of (re_groups r) gid of
        None \<Rightarrow> [] | Some g \<Rightarrow> List.map_filter (map_of (re_actions r)) (gp_action_ids g))"

definition trigger_action_ids :: "registry \<Rightarrow> string \<Rightarrow> string list" where
  "trigger_action_ids r tid = map ac_id (filter (\<lambda>a. ac_trigger_id a = tid) (amap_vals (re_actions r)))"

definition recurfile_triggers :: "registry \<Rightarrow> string \<Rightarrow> trigger list" where
  "recurfile_triggers r wid = filter (\<lambda>t. tr_recurfile_id t = wid) (amap_vals (re_triggers r))"

definition recurfile_actions :: "registry \<Rightarrow> string \<Rightarrow> action list" where
  "recurfile_actions r wid = filter (\<lambda>a. ac_recurfile_id a = wid) (amap_vals (re_actions r))"

definition recurfile_path_for_group :: "registry \<Rightarrow> string \<Rightarrow> string" where
  "recurfile_path_for_group r wid =
     (case map_of (re_recurfiles r) wid of None \<Rightarrow> [] | Some rc \<Rightarrow> rc_path rc)"

definition secret_defs_for_recurfile :: "registry \<Rightarrow> string \<Rightarrow> secret_def list" where
  "secret_defs_for_recurfile r wid =
     (case map_of (re_recurfiles r) wid of None \<Rightarrow> [] | Some rc \<Rightarrow> rc_secrets rc)"

section \<open>Suspending and resuming\<close>

definition set_trigger_status :: "registry \<Rightarrow> string \<Rightarrow> string \<Rightarrow> registry" where
  "set_trigger_status r tid s =
     r\<lparr>re_triggers := amap_map (\<lambda>k t. if k = tid then t\<lparr>tr_status := s\<rparr> else t) (re_triggers r)\<rparr>"

definition set_action_status :: "registry \<Rightarrow> string \<Rightarrow> string \<Rightarrow> registry" where
  "set_action_status r aid s =
     r\<lparr>re_actions := amap_map (\<lambda>k a. if k = aid then a\<lparr>ac_status := s\<rparr> else a) (re_actions r)\<rparr>"

text \<open>\<open>change_trigger s\<close> is \<open>suspendTrigger\<close> and \<open>resumeTrigger\<close>: both report whether the status was already \<open>s\<close>.\<close>

definition change_trigger :: "string \<Rightarrow> registry \<Rightarrow> string \<Rightarrow> (string \<times> string \<times> bool) result \<times> registry" where
  "change_trigger s r ident =
     (case find_entity_by_type r ident ''trigger'' of
        None \<Rightarrow> (Inl (''trigger not found: '' @ ident), r)
      | Some x \<Rightarrow>
          (case map_of (re_triggers r) (er_id x) of
             None \<Rightarrow> (Inl (''trigger not found: '' @ ident), r)
           | Some t \<Rightarrow> (Inr (tr_id t, tr_type t, tr_status t = s), set_trigger_status r (er_id x) s)))"

definition change_action :: "string \<Rightarrow> registry \<Rightarrow> string \<Rightarrow> (string \<times> string \<times> bool) result \<times> registry" where
  "change_action s r ident =
     (case find_entity_by_type r ident ''action'' of
        None \<Rightarrow> (Inl (''action not found: '' @ ident), r)
      | Some x \<Rightarrow>
          (case map_of (re_actions r) (er_id x) of
             None \<Rightarrow> (Inl (''action not found: '' @ ident), r)
           | Some a \<Rightarrow> (Inr (ac_id a, ac_type a, ac_status a = s), set_action_status r (er_id x) s)))"

definition suspend_trigger where "suspend_trigger = change_trigger st_suspended"
definition resume_trigger where "resume_trigger = change_trigger st_active"
definition suspend_action where "suspend_action = change_action st_suspended"
definition resume_action where "resume_action = change_action st_active"

definition suspend_by_plugin_id :: "registry \<Rightarrow> string \<Rightarrow> (string list \<times> string list) \<times> registry" where
  "suspend_by_plugin_id r pid =
     (let pt = (\<lambda>t. tr_plugin_id t = pid \<and> tr_status t \<noteq> st_suspended);
          pa = (\<lambda>a. ac_plugin_id a = pid \<and> ac_status a \<noteq> st_suspended)
      in ((map tr_id (filter pt (amap_vals (re_triggers r))),
           map ac_id (filter pa (amap_vals (re_actions r)))),
          r\<lparr>re_triggers := amap_map (\<lambda>k t. if pt t then t\<lparr>tr_status := st_suspended\<rparr> else t) (re_triggers r),
            re_actions := amap_map (\<lambda>k a. if pa a then a\<lparr>ac_status := st_suspended\<rparr> else a) (re_actions r)\<rparr>))"

section \<open>Snapshot and restore\<close>

record entity_snapshot =
  es_id :: string
  es_status :: string
  es_error_count :: int
  es_last_activity :: string

record recurfile_snapshot =
  rs_id :: string
  rs_path :: string
  rs_triggers :: "entity_snapshot list"
  rs_actions :: "entity_snapshot list"

definition format_activity :: "int \<Rightarrow> string" where
  "format_activity t = (if t = 0 then [] else rfc3339_format (nat t))"

definition snap_trigger :: "trigger \<Rightarrow> entity_snapshot" where
  "snap_trigger t = \<lparr>es_id = tr_id t, es_status = tr_status t, es_error_count = tr_error_count t,
     es_last_activity = format_activity (tr_last_fired t)\<rparr>"

definition snap_action :: "action \<Rightarrow> entity_snapshot" where
  "snap_action a = \<lparr>es_id = ac_id a, es_status = ac_status a, es_error_count = ac_error_count a,
     es_last_activity = format_activity (ac_last_executed a)\<rparr>"

definition snapshot :: "registry \<Rightarrow> recurfile_snapshot list" where
  "snapshot r =
     map (\<lambda>rc. let gs = List.map_filter (map_of (re_groups r)) (rc_groups rc) in
       \<lparr>rs_id = rc_id rc, rs_path = rc_path rc,
        rs_triggers = map snap_trigger (concat (map (\<lambda>g. List.map_filter (map_of (re_triggers r)) (gp_trigger_ids g)) gs)),
        rs_actions = map snap_action (concat (map (\<lambda>g. List.map_filter (map_of (re_actions r)) (gp_action_ids g)) gs))\<rparr>)
       (amap_vals (re_recurfiles r))"

definition parse_activity :: "string \<Rightarrow> int \<Rightarrow> int" where
  "parse_activity s old =
     (if s = [] then old else case rfc3339_parse s of None \<Rightarrow> old | Some t \<Rightarrow> t)"

definition restore_trigger :: "string \<Rightarrow> (string, entity_snapshot) amap \<Rightarrow> trigger \<Rightarrow> trigger" where
  "restore_trigger wid ss t =
     (if tr_recurfile_id t \<noteq> wid then t
      else case map_of ss (tr_id t) of
        None \<Rightarrow> t
      | Some e \<Rightarrow> t\<lparr>tr_status := es_status e, tr_error_count := es_error_count e,
                      tr_last_fired := parse_activity (es_last_activity e) (tr_last_fired t)\<rparr>)"

definition restore_action :: "string \<Rightarrow> (string, entity_snapshot) amap \<Rightarrow> action \<Rightarrow> action" where
  "restore_action wid ss a =
     (if ac_recurfile_id a \<noteq> wid then a
      else case map_of ss (ac_id a) of
        None \<Rightarrow> a
      | Some e \<Rightarrow> a\<lparr>ac_status := es_status e, ac_error_count := es_error_count e,
                      ac_last_executed := parse_activity (es_last_activity e) (ac_last_executed a)\<rparr>)"

definition restore_entity_states :: "registry \<Rightarrow> string \<Rightarrow> (string, entity_snapshot) amap \<Rightarrow>
    (string, entity_snapshot) amap \<Rightarrow> registry" where
  "restore_entity_states r wid ts as =
     r\<lparr>re_triggers := amap_map (\<lambda>k. restore_trigger wid ts) (re_triggers r),
       re_actions := amap_map (\<lambda>k. restore_action wid as) (re_actions r)\<rparr>"

end
