(* ===== verification/Registry_Facts.thy ===== *)
theory Registry_Facts
  imports Registry
begin

text \<open>
  The correctness of the registry. The nested loops of registration are flattened into the
  list of entities they put, those of deregistration into the list of identifiers they
  delete; both are then folds of one small step, about which the lemmas are proved.
\<close>

section \<open>Registration as a list of insertions\<close>

datatype reg_put = PutT trigger | PutA action | PutG grp

fun put_ref :: "reg_put \<Rightarrow> entity_ref" where
  "put_ref (PutT t) = trigger_ref t"
| "put_ref (PutA a) = action_ref a"
| "put_ref (PutG g) = group_ref g"

definition put_id :: "reg_put \<Rightarrow> string" where
  "put_id p = er_id (put_ref p)"

lemma put_id_simps [simp]:
  "put_id (PutT t) = tr_id t" "put_id (PutA a) = ac_id a" "put_id (PutG g) = gp_id g"
  by (simp_all add: put_id_def trigger_ref_def action_ref_def group_ref_def)

fun put1 :: "registry \<Rightarrow> reg_put \<Rightarrow> registry" where
  "put1 r (PutT t) = r\<lparr>re_triggers := AList.update (tr_id t) t (re_triggers r),
     re_index := ix_add (re_index r) (trigger_ref t)\<rparr>"
| "put1 r (PutA a) = r\<lparr>re_actions := AList.update (ac_id a) a (re_actions r),
     re_index := ix_add (re_index r) (action_ref a)\<rparr>"
| "put1 r (PutG g) = r\<lparr>re_groups := AList.update (gp_id g) g (re_groups r),
     re_index := ix_add (re_index r) (group_ref g)\<rparr>"

text \<open>Each element with the number of earlier elements of its key, as the loops count them.\<close>

fun with_occ :: "('a \<Rightarrow> string) \<Rightarrow> (string, nat) amap \<Rightarrow> 'a list \<Rightarrow> (nat \<times> 'a) list" where
  "with_occ key cnt [] = []"
| "with_occ key cnt (x # xs) =
     (occ cnt (key x), x) # with_occ key (AList.update (key x) (Suc (occ cnt (key x))) cnt) xs"

lemma with_occ_snd [simp]: "map snd (with_occ key cnt xs) = xs"
  by (induction xs arbitrary: cnt) auto

lemma length_with_occ [simp]: "length (with_occ key cnt xs) = length xs"
  by (induction xs arbitrary: cnt) auto

lemma occ_update [simp]: "occ (AList.update k n m) j = (if j = k then n else occ m j)"
  by (simp add: occ_def)

text \<open>Two elements of one key never get the same count.\<close>

lemma with_occ_ge: "(n, x) \<in> set (with_occ key cnt xs) \<Longrightarrow> occ cnt (key x) \<le> n"
  by (induction xs arbitrary: cnt) (force split: if_splits)+

lemma with_occ_distinct: "distinct (map (\<lambda>(n, x). (key x, n)) (with_occ key cnt xs))"
proof (induction xs arbitrary: cnt)
  case (Cons x xs)
  let ?c = "AList.update (key x) (Suc (occ cnt (key x))) cnt"
  have "(key x, occ cnt (key x)) \<noteq> (key y, n)" if "(n, y) \<in> set (with_occ key ?c xs)" for n y
    using with_occ_ge [OF that] by auto
  with Cons show ?case by auto blast
qed simp

definition plan_actions :: "reg_input \<Rightarrow> string \<Rightarrow> string \<Rightarrow> string \<Rightarrow> raw_group \<Rightarrow> string \<Rightarrow> int \<Rightarrow>
    (string, nat) amap \<Rightarrow> raw_action list \<Rightarrow> action list" where
  "plan_actions inp path wid gid g tid aet cnt ras =
     map (\<lambda>(n, ra). make_action inp path wid gid g tid aet n ra) (with_occ ra_type cnt ras)"

definition plan_trigger :: "reg_input \<Rightarrow> string \<Rightarrow> string \<Rightarrow> string \<Rightarrow> raw_group \<Rightarrow> nat \<times> raw_trigger \<Rightarrow>
    trigger \<times> action list" where
  "plan_trigger inp path wid gid g nt =
     (let t = make_trigger inp path wid gid g (fst nt) (snd nt)
      in (t, plan_actions inp path wid gid g (tr_id t)
               (ts_action_error_threshold (settings_for inp g (snd nt))) [] (rt_actions (snd nt))))"

definition trigger_puts :: "(trigger \<times> action list) list \<Rightarrow> reg_put list" where
  "trigger_puts tas = concat (map (\<lambda>(t, as). PutT t # map PutA as) tas)"

definition plan_group :: "reg_input \<Rightarrow> string \<Rightarrow> string \<Rightarrow> raw_group \<Rightarrow> grp \<times> (trigger \<times> action list) list" where
  "plan_group inp path wid g =
     (let gid = entity_id ''group'' (group_seed wid (rg_name g));
          tas = map (plan_trigger inp path wid gid g) (with_occ rt_type [] (rg_triggers g))
      in (\<lparr>gp_id = gid, gp_name = rg_name g, gp_recurfile_id = wid,
           gp_trigger_ids = map (tr_id \<circ> fst) tas,
           gp_action_ids = map ac_id (concat (map snd tas)),
           gp_options = rg_options g, gp_aliases = rg_aliases g\<rparr>, tas))"

definition group_puts :: "grp \<times> (trigger \<times> action list) list \<Rightarrow> reg_put list" where
  "group_puts p = trigger_puts (snd p) @ [PutG (fst p)]"

lemma register_actions:
  "foldl (register_action inp path wid gid g tid aet) (r, gr, cnt, n) ras =
     (let as = plan_actions inp path wid gid g tid aet cnt ras in
      (foldl put1 r (map PutA as), gr\<lparr>gp_action_ids := gp_action_ids gr @ map ac_id as\<rparr>,
       fst (snd (snd (foldl (register_action inp path wid gid g tid aet) (r, gr, cnt, n) ras))),
       n + length as))"
proof (induction ras arbitrary: r gr cnt n)
  case Nil
  then show ?case by (simp add: plan_actions_def)
next
  case (Cons ra ras)
  have st: "register_action inp path wid gid g tid aet (r, gr, cnt, n) ra =
     (put1 r (PutA (make_action inp path wid gid g tid aet (occ cnt (ra_type ra)) ra)),
      gr\<lparr>gp_action_ids := gp_action_ids gr @ [ac_id (make_action inp path wid gid g tid aet (occ cnt (ra_type ra)) ra)]\<rparr>,
      AList.update (ra_type ra) (Suc (occ cnt (ra_type ra))) cnt, Suc n)"
    by (simp add: register_action_def Let_def)
  show ?case
    unfolding foldl_Cons st
    by (subst Cons.IH) (simp add: plan_actions_def Let_def)
qed

lemma register_triggers:
  "\<exists>cnt'. foldl (register_trigger inp path wid gid g) (r, gr, cnt, tn, an) rts =
     (let tas = map (plan_trigger inp path wid gid g) (with_occ rt_type cnt rts) in
      (foldl put1 r (trigger_puts tas),
       gr\<lparr>gp_trigger_ids := gp_trigger_ids gr @ map (tr_id \<circ> fst) tas,
          gp_action_ids := gp_action_ids gr @ map ac_id (concat (map snd tas))\<rparr>,
       cnt', tn + length tas, an + length (concat (map snd tas))))"
proof (induction rts arbitrary: r gr cnt tn an)
  case Nil
  then show ?case by (simp add: trigger_puts_def)
next
  case (Cons rt rts)
  let ?t = "make_trigger inp path wid gid g (occ cnt (rt_type rt)) rt"
  let ?as = "plan_actions inp path wid gid g (tr_id ?t)
     (ts_action_error_threshold (settings_for inp g rt)) [] (rt_actions rt)"
  let ?c = "AList.update (rt_type rt) (Suc (occ cnt (rt_type rt))) cnt"
  have st: "register_trigger inp path wid gid g (r, gr, cnt, tn, an) rt =
     (foldl put1 r (PutT ?t # map PutA ?as),
      gr\<lparr>gp_trigger_ids := gp_trigger_ids gr @ [tr_id ?t], gp_action_ids := gp_action_ids gr @ map ac_id ?as\<rparr>,
      ?c, Suc tn, an + length ?as)"
    unfolding register_trigger_def Let_def prod.case
    by (subst register_actions) (simp add: Let_def)
  define gr1 where "gr1 = gr\<lparr>gp_trigger_ids := gp_trigger_ids gr @ [tr_id ?t],
     gp_action_ids := gp_action_ids gr @ map ac_id ?as\<rparr>"
  define tas where "tas = map (plan_trigger inp path wid gid g) (with_occ rt_type ?c rts)"
  have tas: "map (plan_trigger inp path wid gid g) (with_occ rt_type cnt (rt # rts)) = (?t, ?as) # tas"
    by (simp add: tas_def plan_trigger_def Let_def)
  have puts: "trigger_puts ((?t, ?as) # tas) = (PutT ?t # map PutA ?as) @ trigger_puts tas"
    by (simp add: trigger_puts_def)
  from Cons.IH [of "foldl put1 r (PutT ?t # map PutA ?as)" gr1 ?c "Suc tn" "an + length ?as"]
  obtain cnt' where IH: "foldl (register_trigger inp path wid gid g)
      (foldl put1 r (PutT ?t # map PutA ?as), gr1, ?c, Suc tn, an + length ?as) rts =
      (foldl put1 (foldl put1 r (PutT ?t # map PutA ?as)) (trigger_puts tas),
       gr1\<lparr>gp_trigger_ids := gp_trigger_ids gr1 @ map (tr_id \<circ> fst) tas,
          gp_action_ids := gp_action_ids gr1 @ map ac_id (concat (map snd tas))\<rparr>,
       cnt', Suc tn + length tas, an + length ?as + length (concat (map snd tas)))"
    unfolding Let_def tas_def by blast
  show ?case
    unfolding foldl.simps(2) [where f = "register_trigger inp path wid gid g"]
      st gr1_def [symmetric] IH tas Let_def puts foldl_append
    by (rule exI [of _ cnt']) (simp add: gr1_def)
qed

definition file_plan :: "reg_input \<Rightarrow> string \<Rightarrow> string \<Rightarrow> raw_group list \<Rightarrow>
    (grp \<times> (trigger \<times> action list) list) list" where
  "file_plan inp path wid gs = map (plan_group inp path wid) gs"

definition file_puts :: "(grp \<times> (trigger \<times> action list) list) list \<Rightarrow> reg_put list" where
  "file_puts pl = concat (map group_puts pl)"

lemma register_groups:
  "foldl (register_group inp path wid) (r, rc, tn, an) gs =
     (let pl = file_plan inp path wid gs in
      (foldl put1 r (file_puts pl), rc\<lparr>rc_groups := rc_groups rc @ map (gp_id \<circ> fst) pl\<rparr>,
       tn + length (concat (map snd pl)), an + length (concat (map snd (concat (map snd pl))))))"
proof (induction gs arbitrary: r rc tn an)
  case Nil
  then show ?case by (simp add: file_plan_def file_puts_def)
next
  case (Cons g gs)
  let ?p = "plan_group inp path wid g"
  let ?gid = "entity_id ''group'' (group_seed wid (rg_name g))"
  let ?gr = "\<lparr>gp_id = ?gid, gp_name = rg_name g, gp_recurfile_id = wid, gp_trigger_ids = [],
                gp_action_ids = [], gp_options = rg_options g, gp_aliases = rg_aliases g\<rparr>"
  obtain cnt' where rt: "foldl (register_trigger inp path wid ?gid g) (r, ?gr, [], tn, an) (rg_triggers g) =
     (let tas = map (plan_trigger inp path wid ?gid g) (with_occ rt_type [] (rg_triggers g)) in
      (foldl put1 r (trigger_puts tas),
       ?gr\<lparr>gp_trigger_ids := gp_trigger_ids ?gr @ map (tr_id \<circ> fst) tas,
          gp_action_ids := gp_action_ids ?gr @ map ac_id (concat (map snd tas))\<rparr>,
       cnt', tn + length tas, an + length (concat (map snd tas))))"
    using register_triggers by blast
  have st: "register_group inp path wid (r, rc, tn, an) g =
     (foldl put1 r (group_puts ?p), rc\<lparr>rc_groups := rc_groups rc @ [gp_id (fst ?p)]\<rparr>,
      tn + length (snd ?p), an + length (concat (map snd (snd ?p))))"
    unfolding register_group_def Let_def prod.case rt [unfolded Let_def]
    by (simp add: plan_group_def Let_def group_puts_def)
  show ?case
    unfolding foldl_Cons st
    by (subst Cons.IH) (simp add: file_plan_def file_puts_def Let_def)
qed

section \<open>Deregistration as a list of deletions\<close>

datatype reg_del = DelT string | DelA string | DelG string

fun del_id :: "reg_del \<Rightarrow> string" where
  "del_id (DelT i) = i" | "del_id (DelA i) = i" | "del_id (DelG i) = i"

fun del1 :: "registry \<Rightarrow> reg_del \<Rightarrow> registry" where
  "del1 r (DelT i) = drop_trigger r i"
| "del1 r (DelA i) = drop_action r i"
| "del1 r (DelG i) = r\<lparr>re_groups := AList.delete i (re_groups r), re_index := ix_remove (re_index r) i\<rparr>"

definition group_dels :: "grp \<Rightarrow> reg_del list" where
  "group_dels g = map DelT (gp_trigger_ids g) @ map DelA (gp_action_ids g) @ [DelG (gp_id g)]"

lemma foldl_del_map:
  "foldl drop_trigger r is = foldl del1 r (map DelT is)"
  "foldl drop_action r is = foldl del1 r (map DelA is)"
  by (induction "is" arbitrary: r) simp_all

lemma del1_fields [simp]:
  "re_recurfiles (del1 r d) = re_recurfiles r"
  "re_index (del1 r d) = ix_remove (re_index r) (del_id d)"
  "map_of (re_groups (del1 r d)) k = (if d = DelG k then None else map_of (re_groups r) k)"
  "map_of (re_triggers (del1 r d)) k = (if d = DelT k then None else map_of (re_triggers r) k)"
  "map_of (re_actions (del1 r d)) k = (if d = DelA k then None else map_of (re_actions r) k)"
  by (cases d; simp add: drop_trigger_def drop_action_def)+

lemma dels_fields:
  "re_recurfiles (foldl del1 r ds) = re_recurfiles r"
  "re_index (foldl del1 r ds) = foldl ix_remove (re_index r) (map del_id ds)"
  "map_of (re_groups (foldl del1 r ds)) k = (if DelG k \<in> set ds then None else map_of (re_groups r) k)"
  "map_of (re_triggers (foldl del1 r ds)) k = (if DelT k \<in> set ds then None else map_of (re_triggers r) k)"
  "map_of (re_actions (foldl del1 r ds)) k = (if DelA k \<in> set ds then None else map_of (re_actions r) k)"
  by (induction ds arbitrary: r) (auto simp: drop_trigger_def drop_action_def)

lemma drop_groups:
  assumes "distinct (map gp_id gs)" "\<And>g. g \<in> set gs \<Longrightarrow> map_of (re_groups r) (gp_id g) = Some g"
  shows "foldl drop_group (r, tn, an) (map gp_id gs) =
    (foldl del1 r (concat (map group_dels gs)),
     tn + length (concat (map gp_trigger_ids gs)), an + length (concat (map gp_action_ids gs)))"
  using assms
proof (induction gs arbitrary: r tn an)
  case (Cons g gs)
  have st: "drop_group (r, tn, an) (gp_id g) =
     (foldl del1 r (group_dels g), tn + length (gp_trigger_ids g), an + length (gp_action_ids g))"
    using Cons.prems(2) [of g]
    by (simp add: drop_group_def Let_def group_dels_def foldl_del_map)
  have "map_of (re_groups (foldl del1 r (group_dels g))) (gp_id h) = Some h" if "h \<in> set gs" for h
  proof -
    have "gp_id h \<noteq> gp_id g" using that Cons.prems(1) by (metis image_eqI list.set_map distinct.simps(2) list.simps(9))
    then show ?thesis using that Cons.prems(2) [of h] by (auto simp: dels_fields group_dels_def)
  qed
  from Cons.IH [OF _ this] Cons.prems(1) show ?case by (simp add: st)
qed simp

section \<open>What registration changes\<close>

lemma put1_fields [simp]:
  "re_recurfiles (put1 r p) = re_recurfiles r"
  "re_index (put1 r p) = ix_add (re_index r) (put_ref p)"
  by (cases p; simp)+

lemma puts_fields:
  "re_recurfiles (foldl put1 r ps) = re_recurfiles r"
  "re_index (foldl put1 r ps) = foldl ix_add (re_index r) (map put_ref ps)"
  by (induction ps arbitrary: r) auto

lemma puts_absent_group:
  "\<forall>g. PutG g \<in> set ps \<longrightarrow> gp_id g \<noteq> k \<Longrightarrow> map_of (re_groups (foldl put1 r ps)) k = map_of (re_groups r) k"
proof (induction ps arbitrary: r)
  case (Cons p ps)
  then show ?case by (cases p) auto
qed simp

lemma puts_absent_trigger:
  "\<forall>t. PutT t \<in> set ps \<longrightarrow> tr_id t \<noteq> k \<Longrightarrow> map_of (re_triggers (foldl put1 r ps)) k = map_of (re_triggers r) k"
proof (induction ps arbitrary: r)
  case (Cons p ps)
  then show ?case by (cases p) auto
qed simp

lemma puts_absent_action:
  "\<forall>a. PutA a \<in> set ps \<longrightarrow> ac_id a \<noteq> k \<Longrightarrow> map_of (re_actions (foldl put1 r ps)) k = map_of (re_actions r) k"
proof (induction ps arbitrary: r)
  case (Cons p ps)
  then show ?case by (cases p) auto
qed simp

lemmas puts_absent = puts_absent_group puts_absent_trigger puts_absent_action

lemma puts_present:
  assumes "distinct (map put_id ps)"
  shows "PutG g \<in> set ps \<Longrightarrow> map_of (re_groups (foldl put1 r ps)) (gp_id g) = Some g"
    and "PutT t \<in> set ps \<Longrightarrow> map_of (re_triggers (foldl put1 r ps)) (tr_id t) = Some t"
    and "PutA a \<in> set ps \<Longrightarrow> map_of (re_actions (foldl put1 r ps)) (ac_id a) = Some a"
proof -
  have "(PutG g \<in> set ps \<longrightarrow> map_of (re_groups (foldl put1 r ps)) (gp_id g) = Some g) \<and>
    (PutT t \<in> set ps \<longrightarrow> map_of (re_triggers (foldl put1 r ps)) (tr_id t) = Some t) \<and>
    (PutA a \<in> set ps \<longrightarrow> map_of (re_actions (foldl put1 r ps)) (ac_id a) = Some a)"
    using assms
  proof (induction ps arbitrary: r)
    case (Cons p ps)
    have d: "put_id p \<notin> put_id ` set ps" "distinct (map put_id ps)" using Cons.prems by auto
    have n: "q \<in> set ps \<Longrightarrow> put_id q \<noteq> put_id p" for q using d(1) by (metis image_eqI)
    have 1: "\<forall>h. PutG h \<in> set ps \<longrightarrow> gp_id h \<noteq> gp_id g" if "p = PutG g"
      using n that by fastforce
    have 2: "\<forall>h. PutT h \<in> set ps \<longrightarrow> tr_id h \<noteq> tr_id t" if "p = PutT t"
      using n that by fastforce
    have 3: "\<forall>h. PutA h \<in> set ps \<longrightarrow> ac_id h \<noteq> ac_id a" if "p = PutA a"
      using n that by fastforce
    show ?case
      using Cons.IH [OF d(2), of "put1 r p"] puts_absent_group [OF 1, of "put1 r p"]
        puts_absent_trigger [OF 2, of "put1 r p"] puts_absent_action [OF 3, of "put1 r p"]
      by auto
  qed simp
  then show "PutG g \<in> set ps \<Longrightarrow> map_of (re_groups (foldl put1 r ps)) (gp_id g) = Some g"
    "PutT t \<in> set ps \<Longrightarrow> map_of (re_triggers (foldl put1 r ps)) (tr_id t) = Some t"
    "PutA a \<in> set ps \<Longrightarrow> map_of (re_actions (foldl put1 r ps)) (ac_id a) = Some a" by auto
qed

text \<open>The plan of a file: its groups carry the identifiers of exactly what is put with them.\<close>

lemma plan_group_ids:
  "gp_trigger_ids (fst (plan_group inp path wid g)) = map (tr_id \<circ> fst) (snd (plan_group inp path wid g))"
  "gp_action_ids (fst (plan_group inp path wid g)) = map ac_id (concat (map snd (snd (plan_group inp path wid g))))"
  by (simp_all add: plan_group_def Let_def)

lemma trigger_puts_mem:
  "PutT t \<in> set (trigger_puts tas) \<longleftrightarrow> t \<in> fst ` set tas"
  "PutA a \<in> set (trigger_puts tas) \<longleftrightarrow> a \<in> set (concat (map snd tas))"
  "PutG g \<notin> set (trigger_puts tas)"
  by (auto simp: trigger_puts_def split_beta)

lemma group_dels_puts:
  assumes "gp_trigger_ids g = map (tr_id \<circ> fst) tas" "gp_action_ids g = map ac_id (concat (map snd tas))"
  shows "DelT k \<in> set (group_dels g) \<longleftrightarrow> k \<in> tr_id ` {t. PutT t \<in> set (group_puts (g, tas))}"
    and "DelA k \<in> set (group_dels g) \<longleftrightarrow> k \<in> ac_id ` {a. PutA a \<in> set (group_puts (g, tas))}"
    and "DelG k \<in> set (group_dels g) \<longleftrightarrow> k \<in> gp_id ` {h. PutG h \<in> set (group_puts (g, tas))}"
  using assms by (auto simp: group_dels_def group_puts_def trigger_puts_mem image_iff)

lemma del_ids_group: "set (map del_id (group_dels g)) =
   insert (gp_id g) (set (gp_trigger_ids g) \<union> set (gp_action_ids g))"
  by (auto simp: group_dels_def image_image)

lemma put_ids_group:
  assumes "gp_trigger_ids g = map (tr_id \<circ> fst) tas" "gp_action_ids g = map ac_id (concat (map snd tas))"
  shows "put_id ` set (group_puts (g, tas)) = set (map del_id (group_dels g))"
  using assms unfolding del_ids_group
  by (auto simp: group_puts_def trigger_puts_def split_beta image_Un image_UN image_image)

section \<open>The invariant of the registry\<close>

definition ref_ids :: "registry \<Rightarrow> string \<Rightarrow> string set" where
  "ref_ids r ty = er_id ` {x \<in> set (ix_refs (re_index r)). er_type x = ty}"

definition entity_types :: "string set" where
  "entity_types = {''recurfile'', ''group'', ''trigger'', ''action''}"

text \<open>The index refers to exactly the registered entities, each under its own type.\<close>

definition reg_index_ok :: "registry \<Rightarrow> bool" where
  "reg_index_ok r \<longleftrightarrow> ix_ok (re_index r) \<and>
     (\<forall>x \<in> set (ix_refs (re_index r)). er_type x \<in> entity_types) \<and>
     ref_ids r ''recurfile'' = dom (map_of (re_recurfiles r)) \<and>
     ref_ids r ''group'' = dom (map_of (re_groups r)) \<and>
     ref_ids r ''trigger'' = dom (map_of (re_triggers r)) \<and>
     ref_ids r ''action'' = dom (map_of (re_actions r))"

text \<open>
  Every entity is stored under its identifier; recurfiles list their groups and groups their
  triggers and actions, all of them registered and pointing back.
\<close>

definition reg_links_ok :: "registry \<Rightarrow> bool" where
  "reg_links_ok r \<longleftrightarrow>
     (\<forall>k rc. map_of (re_recurfiles r) k = Some rc \<longrightarrow> rc_id rc = k \<and> distinct (rc_groups rc) \<and>
        (\<forall>gid \<in> set (rc_groups rc). \<exists>g. map_of (re_groups r) gid = Some g \<and> gp_recurfile_id g = k)) \<and>
     (\<forall>k g. map_of (re_groups r) k = Some g \<longrightarrow> gp_id g = k \<and>
        (\<exists>rc. map_of (re_recurfiles r) (gp_recurfile_id g) = Some rc \<and> k \<in> set (rc_groups rc)) \<and>
        (\<forall>tid \<in> set (gp_trigger_ids g). \<exists>t. map_of (re_triggers r) tid = Some t \<and> tr_group_id t = k) \<and>
        (\<forall>aid \<in> set (gp_action_ids g). \<exists>a. map_of (re_actions r) aid = Some a \<and> ac_group_id a = k)) \<and>
     (\<forall>k t. map_of (re_triggers r) k = Some t \<longrightarrow> tr_id t = k \<and>
        (\<exists>g. map_of (re_groups r) (tr_group_id t) = Some g \<and> k \<in> set (gp_trigger_ids g) \<and>
             gp_recurfile_id g = tr_recurfile_id t)) \<and>
     (\<forall>k a. map_of (re_actions r) k = Some a \<longrightarrow> ac_id a = k \<and>
        (\<exists>g. map_of (re_groups r) (ac_group_id a) = Some g \<and> k \<in> set (gp_action_ids g) \<and>
             gp_recurfile_id g = ac_recurfile_id a) \<and>
        (\<exists>t. map_of (re_triggers r) (ac_trigger_id a) = Some t \<and> tr_group_id t = ac_group_id a))"

definition reg_ok :: "registry \<Rightarrow> bool" where
  "reg_ok r \<longleftrightarrow> reg_index_ok r \<and> reg_links_ok r"

lemma new_registry_ok: "reg_ok new_registry"
  by (simp add: reg_ok_def reg_index_ok_def reg_links_ok_def new_registry_def ref_ids_def)

lemma ref_ids_disjoint:
  assumes "ix_ok (re_index r)" "ty \<noteq> ty'"
  shows "ref_ids r ty \<inter> ref_ids r ty' = {}"
proof -
  have inj: "inj_on er_id (set (ix_refs (re_index r)))"
    using eix.refs_distinct [OF assms(1)] by (simp add: distinct_map)
  have "er_type x = er_type y" if "x \<in> set (ix_refs (re_index r))" "y \<in> set (ix_refs (re_index r))"
    "er_id x = er_id y" for x y
    using inj_onD [OF inj that(3,1,2)] by (rule arg_cong)
  with assms(2) show ?thesis unfolding ref_ids_def by fast
qed

lemma ref_ids_all:
  "reg_index_ok r \<Longrightarrow> er_id ` set (ix_refs (re_index r)) =
     dom (map_of (re_recurfiles r)) \<union> dom (map_of (re_groups r)) \<union>
     dom (map_of (re_triggers r)) \<union> dom (map_of (re_actions r))"
proof -
  assume ok: "reg_index_ok r"
  then have "\<forall>x \<in> set (ix_refs (re_index r)). er_type x \<in> entity_types" by (simp add: reg_index_ok_def)
  then have "er_id ` set (ix_refs (re_index r)) =
      ref_ids r ''recurfile'' \<union> ref_ids r ''group'' \<union> ref_ids r ''trigger'' \<union> ref_ids r ''action''"
    unfolding ref_ids_def image_Un [symmetric] entity_types_def by (intro arg_cong [where f = "image er_id"]) auto
  with ok show ?thesis by (simp add: reg_index_ok_def)
qed

section \<open>Deregistration keeps the invariant\<close>

text \<open>The groups of a registered file, and what deleting them deletes.\<close>

definition file_groups :: "registry \<Rightarrow> recurfile \<Rightarrow> grp list" where
  "file_groups r rc = map (\<lambda>gid. the (map_of (re_groups r) gid)) (rc_groups rc)"

definition file_dels :: "registry \<Rightarrow> recurfile \<Rightarrow> reg_del list" where
  "file_dels r rc = concat (map group_dels (file_groups r rc))"

lemma file_groups:
  assumes links: "reg_links_ok r" and rc: "map_of (re_recurfiles r) (rc_id rc) = Some rc"
  shows "map gp_id (file_groups r rc) = rc_groups rc" "distinct (map gp_id (file_groups r rc))"
    "h \<in> set (file_groups r rc) \<longleftrightarrow> map_of (re_groups r) (gp_id h) = Some h \<and> gp_id h \<in> set (rc_groups rc)"
proof -
  have g: "\<exists>g. map_of (re_groups r) gid = Some g \<and> gp_id g = gid" if "gid \<in> set (rc_groups rc)" for gid
    using links rc that unfolding reg_links_ok_def by blast
  show ids: "map gp_id (file_groups r rc) = rc_groups rc"
    unfolding file_groups_def map_map by (rule map_idI) (use g in fastforce)
  show "distinct (map gp_id (file_groups r rc))" using links rc unfolding ids reg_links_ok_def by blast
  have reg: "map_of (re_groups r) (gp_id h) = Some h \<and> gp_id h \<in> set (rc_groups rc)" if "h \<in> set (file_groups r rc)" for h
  proof -
    from that obtain gid where gid: "gid \<in> set (rc_groups rc)" "h = the (map_of (re_groups r) gid)"
      unfolding file_groups_def by auto
    with g [OF gid(1)] show ?thesis by auto
  qed
  show "h \<in> set (file_groups r rc) \<longleftrightarrow> map_of (re_groups r) (gp_id h) = Some h \<and> gp_id h \<in> set (rc_groups rc)"
  proof
    assume a: "map_of (re_groups r) (gp_id h) = Some h \<and> gp_id h \<in> set (rc_groups rc)"
    then have "the (map_of (re_groups r) (gp_id h)) \<in> set (file_groups r rc)" unfolding file_groups_def set_map by blast
    with a show "h \<in> set (file_groups r rc)" by simp
  qed (rule reg)
qed

lemma file_dels_triggers:
  assumes links: "reg_links_ok r" and rc: "map_of (re_recurfiles r) (rc_id rc) = Some rc"
  shows "DelT k \<in> set (file_dels r rc) \<longleftrightarrow> (\<exists>t. map_of (re_triggers r) k = Some t \<and> tr_group_id t \<in> set (rc_groups rc))"
proof
  note mem = file_groups(3) [OF links rc]
    assume "DelT k \<in> set (file_dels r rc)"
    then obtain h where h: "h \<in> set (file_groups r rc)" "k \<in> set (gp_trigger_ids h)" by (auto simp: file_dels_def group_dels_def)
    then have *: "map_of (re_groups r) (gp_id h) = Some h" "gp_id h \<in> set (rc_groups rc)" using mem by auto
    then obtain t where "map_of (re_triggers r) k = Some t" "tr_group_id t = gp_id h"
      using links h(2) unfolding reg_links_ok_def by blast
    with * show "\<exists>t. map_of (re_triggers r) k = Some t \<and> tr_group_id t \<in> set (rc_groups rc)" by auto
next
  note mem = file_groups(3) [OF links rc]
    assume "\<exists>t. map_of (re_triggers r) k = Some t \<and> tr_group_id t \<in> set (rc_groups rc)"
    then obtain t where t: "map_of (re_triggers r) k = Some t" "tr_group_id t \<in> set (rc_groups rc)" by blast
    then obtain h where h: "map_of (re_groups r) (tr_group_id t) = Some h" "k \<in> set (gp_trigger_ids h)"
      using links unfolding reg_links_ok_def by blast
    moreover have "gp_id h = tr_group_id t" using links h unfolding reg_links_ok_def by blast
    ultimately have "h \<in> set (file_groups r rc)" using mem t by simp
    with h show "DelT k \<in> set (file_dels r rc)" by (force simp: file_dels_def group_dels_def)
qed

lemma file_dels_actions:
  assumes links: "reg_links_ok r" and rc: "map_of (re_recurfiles r) (rc_id rc) = Some rc"
  shows "DelA k \<in> set (file_dels r rc) \<longleftrightarrow> (\<exists>a. map_of (re_actions r) k = Some a \<and> ac_group_id a \<in> set (rc_groups rc))"
proof
  note mem = file_groups(3) [OF links rc]
    assume "DelA k \<in> set (file_dels r rc)"
    then obtain h where h: "h \<in> set (file_groups r rc)" "k \<in> set (gp_action_ids h)" by (auto simp: file_dels_def group_dels_def)
    then have *: "map_of (re_groups r) (gp_id h) = Some h" "gp_id h \<in> set (rc_groups rc)" using mem by auto
    then obtain a where "map_of (re_actions r) k = Some a" "ac_group_id a = gp_id h"
      using links h(2) unfolding reg_links_ok_def by blast
    with * show "\<exists>a. map_of (re_actions r) k = Some a \<and> ac_group_id a \<in> set (rc_groups rc)" by auto
next
  note mem = file_groups(3) [OF links rc]
    assume "\<exists>a. map_of (re_actions r) k = Some a \<and> ac_group_id a \<in> set (rc_groups rc)"
    then obtain a where a: "map_of (re_actions r) k = Some a" "ac_group_id a \<in> set (rc_groups rc)" by blast
    then obtain h where h: "map_of (re_groups r) (ac_group_id a) = Some h" "k \<in> set (gp_action_ids h)"
      using links unfolding reg_links_ok_def by blast
    moreover have "gp_id h = ac_group_id a" using links h unfolding reg_links_ok_def by blast
    ultimately have "h \<in> set (file_groups r rc)" using mem a by simp
    with h show "DelA k \<in> set (file_dels r rc)" by (force simp: file_dels_def group_dels_def)
qed

lemma file_dels_mem:
  assumes links: "reg_links_ok r" and rc: "map_of (re_recurfiles r) (rc_id rc) = Some rc"
  shows "k \<in> del_id ` set (file_dels r rc) \<longleftrightarrow> k \<in> set (rc_groups rc) \<or>
     (\<exists>t. map_of (re_triggers r) k = Some t \<and> tr_group_id t \<in> set (rc_groups rc)) \<or>
     (\<exists>a. map_of (re_actions r) k = Some a \<and> ac_group_id a \<in> set (rc_groups rc))"
    and "DelG k \<in> set (file_dels r rc) \<longleftrightarrow> k \<in> set (rc_groups rc)"
proof -
  show dG: "DelG k \<in> set (file_dels r rc) \<longleftrightarrow> k \<in> set (rc_groups rc)"
    unfolding file_groups(1) [OF links rc, symmetric] by (auto simp: file_dels_def group_dels_def)
  have "del_id d = k \<longleftrightarrow> d = DelG k \<or> d = DelT k \<or> d = DelA k" for d by (cases d) auto
  then have "k \<in> del_id ` set (file_dels r rc) \<longleftrightarrow> DelG k \<in> set (file_dels r rc) \<or> DelT k \<in> set (file_dels r rc) \<or> DelA k \<in> set (file_dels r rc)"
    unfolding image_iff by metis
  then show "k \<in> del_id ` set (file_dels r rc) \<longleftrightarrow> k \<in> set (rc_groups rc) \<or>
     (\<exists>t. map_of (re_triggers r) k = Some t \<and> tr_group_id t \<in> set (rc_groups rc)) \<or>
     (\<exists>a. map_of (re_actions r) k = Some a \<and> ac_group_id a \<in> set (rc_groups rc))"
    unfolding dG file_dels_triggers [OF links rc] file_dels_actions [OF links rc] .
qed

lemma dereg_fields:
  assumes links: "reg_links_ok r" and ix: "reg_index_ok r"
    and rc: "map_of (re_recurfiles r) (rc_id rc) = Some rc"
    and r': "unlocked_deregister r rc = (r', tn, an)"
  shows "map_of (re_recurfiles r') k = (if k = rc_id rc then None else map_of (re_recurfiles r) k)"
    and "map_of (re_groups r') k = (if k \<in> set (rc_groups rc) then None else map_of (re_groups r) k)"
    and "map_of (re_triggers r') k = (case map_of (re_triggers r) k of None \<Rightarrow> None
      | Some t \<Rightarrow> if tr_group_id t \<in> set (rc_groups rc) then None else Some t)"
    and "map_of (re_actions r') k = (case map_of (re_actions r) k of None \<Rightarrow> None
      | Some a \<Rightarrow> if ac_group_id a \<in> set (rc_groups rc) then None else Some a)"
    and "ix_ok (re_index r')"
    and "ix_refs (re_index r') = filter (\<lambda>x. er_id x \<noteq> rc_id rc \<and> er_id x \<notin> set (rc_groups rc) \<and>
       (\<forall>t. map_of (re_triggers r) (er_id x) = Some t \<longrightarrow> tr_group_id t \<notin> set (rc_groups rc)) \<and>
       (\<forall>a. map_of (re_actions r) (er_id x) = Some a \<longrightarrow> ac_group_id a \<notin> set (rc_groups rc))) (ix_refs (re_index r))"
proof -
  let ?ds = "file_dels r rc"
  have reg: "h \<in> set (file_groups r rc) \<Longrightarrow> map_of (re_groups r) (gp_id h) = Some h" for h using file_groups(3) [OF links rc] by blast
  have fold: "foldl drop_group (r, 0, 0) (rc_groups rc) = (foldl del1 r ?ds,
     length (concat (map gp_trigger_ids (file_groups r rc))), length (concat (map gp_action_ids (file_groups r rc))))"
    using drop_groups [OF file_groups(2) [OF links rc], of r 0 0] reg unfolding file_groups(1) [OF links rc] file_dels_def by simp
  have r'_eq: "r' = (foldl del1 r ?ds)\<lparr>re_recurfiles := AList.delete (rc_id rc) (re_recurfiles (foldl del1 r ?ds)),
      re_index := ix_remove (re_index (foldl del1 r ?ds)) (rc_id rc)\<rparr>"
    using r' unfolding unlocked_deregister_def fold by simp
  note dG = file_dels_mem(2) [OF links rc] and dT = file_dels_triggers [OF links rc] and dA = file_dels_actions [OF links rc]
  show "map_of (re_recurfiles r') k = (if k = rc_id rc then None else map_of (re_recurfiles r) k)"
    by (simp add: r'_eq dels_fields)
  show "map_of (re_groups r') k = (if k \<in> set (rc_groups rc) then None else map_of (re_groups r) k)"
    by (simp add: r'_eq dels_fields dG)
  show "map_of (re_triggers r') k = (case map_of (re_triggers r) k of None \<Rightarrow> None
      | Some t \<Rightarrow> if tr_group_id t \<in> set (rc_groups rc) then None else Some t)"
    by (simp add: r'_eq dels_fields dT split: option.splits)
  show "map_of (re_actions r') k = (case map_of (re_actions r) k of None \<Rightarrow> None
      | Some a \<Rightarrow> if ac_group_id a \<in> set (rc_groups rc) then None else Some a)"
    by (simp add: r'_eq dels_fields dA split: option.splits)
  have ixok: "ix_ok (re_index r)" using ix by (simp add: reg_index_ok_def)
  note rm = eix.removes [OF ixok, of "map del_id ?ds"]
  show "ix_ok (re_index r')"
    using rm by (simp add: r'_eq dels_fields eix.remove_ok)
  note del = file_dels_mem(1) [OF links rc]
  have "ix_refs (re_index r') = filter (\<lambda>x. er_id x \<noteq> rc_id rc)
      (filter (\<lambda>x. er_id x \<notin> set (map del_id ?ds)) (ix_refs (re_index r)))"
    using rm by (simp add: r'_eq dels_fields eix.remove_refs del: set_map)
  also have "\<dots> = filter (\<lambda>x. er_id x \<noteq> rc_id rc \<and> er_id x \<notin> set (rc_groups rc) \<and>
       (\<forall>t. map_of (re_triggers r) (er_id x) = Some t \<longrightarrow> tr_group_id t \<notin> set (rc_groups rc)) \<and>
       (\<forall>a. map_of (re_actions r) (er_id x) = Some a \<longrightarrow> ac_group_id a \<notin> set (rc_groups rc))) (ix_refs (re_index r))"
    unfolding filter_filter set_map del by (rule filter_cong) auto
  finally show "ix_refs (re_index r') = filter (\<lambda>x. er_id x \<noteq> rc_id rc \<and> er_id x \<notin> set (rc_groups rc) \<and>
       (\<forall>t. map_of (re_triggers r) (er_id x) = Some t \<longrightarrow> tr_group_id t \<notin> set (rc_groups rc)) \<and>
       (\<forall>a. map_of (re_actions r) (er_id x) = Some a \<longrightarrow> ac_group_id a \<notin> set (rc_groups rc))) (ix_refs (re_index r))" .
qed

end
