(* ===== verification/Sample_Ids.thy ===== *)
theory Sample_Ids
  imports Recurfile_Domain
begin

text \<open>
  The identifiers of a small recurfile at \<open>/r.yaml\<close> with one group \<open>g\<close>, in it one trigger of
  type \<open>t\<close> with one action of type \<open>a\<close>, evaluated by rewriting. They are the values that
  \<open>sha256.Sum256\<close> gives, so they also test the model of the hash; the witnesses of the
  registry's and the daemon's properties are built on them.
\<close>

lemma sample_wid: "entity_id ''recurfile'' ''/r.yaml'' = ''45df806c8715''"
  by (simp add: entity_id_def sha_eval)

lemma sample_gid: "entity_id ''group'' (group_seed ''45df806c8715'' ''g'') = ''ae5829e5c872''"
  by (simp add: entity_id_def group_seed_def sha_eval)

lemma sample_tid: "entity_id ''trigger'' (trigger_seed ''ae5829e5c872'' ''t'' 0) = ''322a174e96db''"
  by (simp add: entity_id_def trigger_seed_def itoa_def nat_digits.simps digit_char_def sha_eval)

lemma sample_aid: "entity_id ''action'' (action_seed ''322a174e96db'' ''a'' 0) = ''807e66392855''"
  by (simp add: entity_id_def action_seed_def itoa_def nat_digits.simps digit_char_def sha_eval)

lemmas sample_ids = sample_wid sample_gid sample_tid sample_aid

end
