(* ===== verification/Registry_Ok.thy ===== *)
theory Registry_Ok
  imports Registry_Facts Sample_Ids
begin

text \<open>
  The invariant \<open>reg_ok\<close> of the registry over its operations: registration with fresh
  identifiers, deregistration, status changes and the restoring of saved states.
\<close>

section \<open>Using the invariant\<close>

lemma links_recurfile:
  assumes "reg_links_ok r" "map_of (re_recurfiles r) k = Some rc"
  shows "rc_id rc = k" "distinct (rc_groups rc)"
    "gid \<in> set (rc_groups rc) \<Longrightarrow> \<exists>g. map_of (re_groups r) gid = Some g \<and> gp_recurfile_id g = k"
  using assms unfolding reg_links_ok_def by blast+

lemma links_group:
  assumes "reg_links_ok r" "map_of (re_groups r) k = Some g"
  shows "gp_id g = k"
    "\<exists>rc. map_of (re_recurfiles r) (gp_recurfile_id g) = Some rc \<and> k \<in> set (rc_groups rc)"
    "tid \<in> set (gp_trigger_ids g) \<Longrightarrow> \<exists>t. map_of (re_triggers r) tid = Some t \<and> tr_group_id t = k"
    "aid \<in> set (gp_action_ids g) \<Longrightarrow> \<exists>a. map_of (re_actions r) aid = Some a \<and> ac_group_id a = k"
  using assms unfolding reg_links_ok_def by blast+

lemma links_trigger:
  assumes "reg_links_ok r" "map_of (re_triggers r) k = Some t"
  shows "tr_id t = k"
    "\<exists>g. map_of (re_groups r) (tr_group_id t) = Some g \<and> k \<in> set (gp_trigger_ids g) \<and>
         gp_recurfile_id g = tr_recurfile_id t"
  using assms unfolding reg_links_ok_def by blast+

lemma links_action:
  assumes "reg_links_ok r" "map_of (re_actions r) k = Some a"
  shows "ac_id a = k"
    "\<exists>g. map_of (re_groups r) (ac_group_id a) = Some g \<and> k \<in> set (gp_action_ids g) \<and>
         gp_recurfile_id g = ac_recurfile_id a"
    "\<exists>t. map_of (re_triggers r) (ac_trigger_id a) = Some t \<and> tr_group_id t = ac_group_id a"
  using assms unfolding reg_links_ok_def by blast+

lemma reg_linksI:
  assumes "\<And>k rc. map_of (re_recurfiles r) k = Some rc \<Longrightarrow> rc_id rc = k \<and> distinct (rc_groups rc) \<and>
      (\<forall>gid \<in> set (rc_groups rc). \<exists>g. map_of (re_groups r) gid = Some g \<and> gp_recurfile_id g = k)"
    and "\<And>k g. map_of (re_groups r) k = Some g \<Longrightarrow> gp_id g = k \<and>
      (\<exists>rc. map_of (re_recurfiles r) (gp_recurfile_id g) = Some rc \<and> k \<in> set (rc_groups rc)) \<and>
      (\<forall>tid \<in> set (gp_trigger_ids g). \<exists>t. map_of (re_triggers r) tid = Some t \<and> tr_group_id t = k) \<and>
      (\<forall>aid \<in> set (gp_action_ids g). \<exists>a. map_of (re_actions r) aid = Some a \<and> ac_group_id a = k)"
    and "\<And>k t. map_of (re_triggers r) k = Some t \<Longrightarrow> tr_id t = k \<and>
      (\<exists>g. map_of (re_groups r) (tr_group_id t) = Some g \<and> k \<in> set (gp_trigger_ids g) \<and>
           gp_recurfile_id g = tr_recurfile_id t)"
    and "\<And>k a. map_of (re_actions r) k = Some a \<Longrightarrow> ac_id a = k \<and>
      (\<exists>g. map_of (re_groups r) (ac_group_id a) = Some g \<and> k \<in> set (gp_action_ids g) \<and>
           gp_recurfile_id g = ac_recurfile_id a) \<and>
      (\<exists>t. map_of (re_triggers r) (ac_trigger_id a) = Some t \<and> tr_group_id t = ac_group_id a)"
  shows "reg_links_ok r"
  unfolding reg_links_ok_def using assms by presburger

lemma reg_doms:
  assumes "reg_index_ok r"
  shows "dom (map_of (re_recurfiles r)) \<inter> dom (map_of (re_groups r)) = {}"
    "dom (map_of (re_recurfiles r)) \<inter> dom (map_of (re_triggers r)) = {}"
    "dom (map_of (re_recurfiles r)) \<inter> dom (map_of (re_actions r)) = {}"
    "dom (map_of (re_groups r)) \<inter> dom (map_of (re_triggers r)) = {}"
    "dom (map_of (re_groups r)) \<inter> dom (map_of (re_actions r)) = {}"
    "dom (map_of (re_triggers r)) \<inter> dom (map_of (re_actions r)) = {}"
proof -
  have ok: "ix_ok (re_index r)" using assms by (simp add: reg_index_ok_def)
  note d = ref_ids_disjoint [OF ok]
  have e: "ref_ids r ''recurfile'' = dom (map_of (re_recurfiles r))" "ref_ids r ''group'' = dom (map_of (re_groups r))"
    "ref_ids r ''trigger'' = dom (map_of (re_triggers r))" "ref_ids r ''action'' = dom (map_of (re_actions r))"
    using assms by (simp_all add: reg_index_ok_def)
  show "dom (map_of (re_recurfiles r)) \<inter> dom (map_of (re_groups r)) = {}"
    "dom (map_of (re_recurfiles r)) \<inter> dom (map_of (re_triggers r)) = {}"
    "dom (map_of (re_recurfiles r)) \<inter> dom (map_of (re_actions r)) = {}"
    "dom (map_of (re_groups r)) \<inter> dom (map_of (re_triggers r)) = {}"
    "dom (map_of (re_groups r)) \<inter> dom (map_of (re_actions r)) = {}"
    "dom (map_of (re_triggers r)) \<inter> dom (map_of (re_actions r)) = {}"
    unfolding e [symmetric] by (rule d; simp)+
qed

lemma reg_one_kind:
  assumes "reg_index_ok r"
  shows "map_of (re_recurfiles r) k = Some rc \<Longrightarrow>
      map_of (re_groups r) k = None \<and> map_of (re_triggers r) k = None \<and> map_of (re_actions r) k = None"
    "map_of (re_groups r) k = Some g \<Longrightarrow>
      map_of (re_recurfiles r) k = None \<and> map_of (re_triggers r) k = None \<and> map_of (re_actions r) k = None"
    "map_of (re_triggers r) k = Some t \<Longrightarrow>
      map_of (re_recurfiles r) k = None \<and> map_of (re_groups r) k = None \<and> map_of (re_actions r) k = None"
    "map_of (re_actions r) k = Some a \<Longrightarrow>
      map_of (re_recurfiles r) k = None \<and> map_of (re_groups r) k = None \<and> map_of (re_triggers r) k = None"
  using reg_doms [OF assms] by (auto simp: disjoint_iff dom_def)

section \<open>Deregistration\<close>

lemma dereg_index_ok:
  assumes ok: "reg_ok r" and rc: "map_of (re_recurfiles r) (rc_id rc) = Some rc"
    and r': "unlocked_deregister r rc = (r', tn, an)"
  shows "reg_index_ok r'"
proof -
  from ok have links: "reg_links_ok r" and ix: "reg_index_ok r" by (simp_all add: reg_ok_def)
  note f = dereg_fields [OF links ix rc r']
  note one = reg_one_kind [OF ix]
  let ?G = "set (rc_groups rc)"
  let ?keep = "\<lambda>k. k \<noteq> rc_id rc \<and> k \<notin> ?G \<and>
       (\<forall>t. map_of (re_triggers r) k = Some t \<longrightarrow> tr_group_id t \<notin> ?G) \<and>
       (\<forall>a. map_of (re_actions r) k = Some a \<longrightarrow> ac_group_id a \<notin> ?G)"
  have grp: "\<exists>g. map_of (re_groups r) gid = Some g \<and> gp_recurfile_id g = rc_id rc" if "gid \<in> ?G" for gid
    using links_recurfile(3) [OF links rc that] .
  have ids: "ref_ids r' ty = {k \<in> ref_ids r ty. ?keep k}" for ty
    unfolding ref_ids_def f(6) by auto
  have i: "ref_ids r ''recurfile'' = dom (map_of (re_recurfiles r))" "ref_ids r ''group'' = dom (map_of (re_groups r))"
    "ref_ids r ''trigger'' = dom (map_of (re_triggers r))" "ref_ids r ''action'' = dom (map_of (re_actions r))"
    "\<forall>x \<in> set (ix_refs (re_index r)). er_type x \<in> entity_types"
    using ix by (simp_all add: reg_index_ok_def)
  show ?thesis
    unfolding reg_index_ok_def ids i(1-4)
  proof (intro conjI)
    show "ix_ok (re_index r')" by (rule f(5))
    show "\<forall>x \<in> set (ix_refs (re_index r')). er_type x \<in> entity_types" unfolding f(6) using i(5) by simp
    show "{k \<in> dom (map_of (re_recurfiles r)). ?keep k} = dom (map_of (re_recurfiles r'))"
      using one(1) grp by (fastforce simp: f(1) dom_def split: if_splits)
    show "{k \<in> dom (map_of (re_groups r)). ?keep k} = dom (map_of (re_groups r'))"
      using one(2) rc by (fastforce simp: f(2) dom_def split: if_splits)
    show "{k \<in> dom (map_of (re_triggers r)). ?keep k} = dom (map_of (re_triggers r'))"
      using one(3) rc grp by (fastforce simp: f(3) dom_def split: if_splits option.splits)
    show "{k \<in> dom (map_of (re_actions r)). ?keep k} = dom (map_of (re_actions r'))"
      using one(4) rc grp by (fastforce simp: f(4) dom_def split: if_splits option.splits)
  qed
qed

lemma dereg_recurfile_links:
  assumes ok: "reg_ok r" and rc: "map_of (re_recurfiles r) (rc_id rc) = Some rc"
    and r': "unlocked_deregister r rc = (r', tn, an)"
    and a: "map_of (re_recurfiles r') k = Some rc'"
  shows "rc_id rc' = k \<and> distinct (rc_groups rc') \<and>
      (\<forall>gid \<in> set (rc_groups rc'). \<exists>g. map_of (re_groups r') gid = Some g \<and> gp_recurfile_id g = k)"
proof -
  from ok have links: "reg_links_ok r" and ix: "reg_index_ok r" by (simp_all add: reg_ok_def)
  note f = dereg_fields [OF links ix rc r']
  let ?G = "set (rc_groups rc)"
  have grp: "\<exists>g. map_of (re_groups r) gid = Some g \<and> gp_recurfile_id g = rc_id rc" if "gid \<in> ?G" for gid
    using links_recurfile(3) [OF links rc that] .
  from a
  have a': "map_of (re_recurfiles r) k = Some rc'" "k \<noteq> rc_id rc" by (auto simp: f(1) split: if_splits)
  have "\<exists>g. map_of (re_groups r') gid = Some g \<and> gp_recurfile_id g = k" if m: "gid \<in> set (rc_groups rc')" for gid
  proof -
    from links_recurfile(3) [OF links a'(1) m] obtain g where
      g: "map_of (re_groups r) gid = Some g" "gp_recurfile_id g = k" by blast
    then have "gid \<notin> ?G" using grp [of gid] a'(2) by auto
    with g show ?thesis by (simp add: f(2))
  qed
  then show ?thesis
      using links_recurfile(1,2) [OF links a'(1)] by blast
qed

lemma dereg_group_links:
  assumes ok: "reg_ok r" and rc: "map_of (re_recurfiles r) (rc_id rc) = Some rc"
    and r': "unlocked_deregister r rc = (r', tn, an)"
    and g: "map_of (re_groups r') k = Some g"
  shows "gp_id g = k \<and>
      (\<exists>rc. map_of (re_recurfiles r') (gp_recurfile_id g) = Some rc \<and> k \<in> set (rc_groups rc)) \<and>
      (\<forall>tid \<in> set (gp_trigger_ids g). \<exists>t. map_of (re_triggers r') tid = Some t \<and> tr_group_id t = k) \<and>
      (\<forall>aid \<in> set (gp_action_ids g). \<exists>a. map_of (re_actions r') aid = Some a \<and> ac_group_id a = k)"
proof -
  from ok have links: "reg_links_ok r" and ix: "reg_index_ok r" by (simp_all add: reg_ok_def)
  note f = dereg_fields [OF links ix rc r']
  let ?G = "set (rc_groups rc)"
  have grp: "\<exists>g. map_of (re_groups r) gid = Some g \<and> gp_recurfile_id g = rc_id rc" if "gid \<in> ?G" for gid
    using links_recurfile(3) [OF links rc that] .
  from g
  have a: "map_of (re_groups r) k = Some g" "k \<notin> ?G" by (auto simp: f(2) split: if_splits)
  from links_group(2) [OF links a(1)] obtain rc2 where
    rc2: "map_of (re_recurfiles r) (gp_recurfile_id g) = Some rc2" "k \<in> set (rc_groups rc2)" by blast
  then have "gp_recurfile_id g \<noteq> rc_id rc" using a(2) rc by auto
  with rc2 have "\<exists>rc. map_of (re_recurfiles r') (gp_recurfile_id g) = Some rc \<and> k \<in> set (rc_groups rc)"
    by (simp add: f(1))
  moreover have "\<forall>tid \<in> set (gp_trigger_ids g). \<exists>t. map_of (re_triggers r') tid = Some t \<and> tr_group_id t = k"
    using links_group(3) [OF links a(1)] a(2) by (fastforce simp: f(3))
  moreover have "\<forall>aid \<in> set (gp_action_ids g). \<exists>x. map_of (re_actions r') aid = Some x \<and> ac_group_id x = k"
    using links_group(4) [OF links a(1)] a(2) by (fastforce simp: f(4))
  ultimately show ?thesis
      using links_group(1) [OF links a(1)] by blast
qed

lemma dereg_ok:
  assumes ok: "reg_ok r" and rc: "map_of (re_recurfiles r) (rc_id rc) = Some rc"
    and r': "unlocked_deregister r rc = (r', tn, an)"
  shows "reg_ok r'"
proof -
  from ok have links: "reg_links_ok r" and ix: "reg_index_ok r" by (simp_all add: reg_ok_def)
  note f = dereg_fields [OF links ix rc r']
  let ?G = "set (rc_groups rc)"
  have grp: "\<exists>g. map_of (re_groups r) gid = Some g \<and> gp_recurfile_id g = rc_id rc" if "gid \<in> ?G" for gid
    using links_recurfile(3) [OF links rc that] .
  have "reg_links_ok r'"
  proof (rule reg_linksI)
    fix k rc' assume "map_of (re_recurfiles r') k = Some rc'"
    then show "rc_id rc' = k \<and> distinct (rc_groups rc') \<and>
      (\<forall>gid \<in> set (rc_groups rc'). \<exists>g. map_of (re_groups r') gid = Some g \<and> gp_recurfile_id g = k)"
      by (rule dereg_recurfile_links [OF ok rc r'])
  next
    fix k g assume "map_of (re_groups r') k = Some g"
    from dereg_group_links [OF ok rc r' this] show "gp_id g = k \<and>
      (\<exists>rc. map_of (re_recurfiles r') (gp_recurfile_id g) = Some rc \<and> k \<in> set (rc_groups rc)) \<and>
      (\<forall>tid \<in> set (gp_trigger_ids g). \<exists>t. map_of (re_triggers r') tid = Some t \<and> tr_group_id t = k) \<and>
      (\<forall>aid \<in> set (gp_action_ids g). \<exists>a. map_of (re_actions r') aid = Some a \<and> ac_group_id a = k)" .
  next
    fix k t assume "map_of (re_triggers r') k = Some t"
    then have a: "map_of (re_triggers r) k = Some t" "tr_group_id t \<notin> ?G"
      by (auto simp: f(3) split: if_splits option.splits)
    then show "tr_id t = k \<and> (\<exists>g. map_of (re_groups r') (tr_group_id t) = Some g \<and>
        k \<in> set (gp_trigger_ids g) \<and> gp_recurfile_id g = tr_recurfile_id t)"
      using links_trigger [OF links a(1)] by (simp add: f(2))
  next
    fix k x assume "map_of (re_actions r') k = Some x"
    then have a: "map_of (re_actions r) k = Some x" "ac_group_id x \<notin> ?G"
      by (auto simp: f(4) split: if_splits option.splits)
    then show "ac_id x = k \<and> (\<exists>g. map_of (re_groups r') (ac_group_id x) = Some g \<and>
        k \<in> set (gp_action_ids g) \<and> gp_recurfile_id g = ac_recurfile_id x) \<and>
      (\<exists>t. map_of (re_triggers r') (ac_trigger_id x) = Some t \<and> tr_group_id t = ac_group_id x)"
      using links_action [OF links a(1)] by (auto simp: f(2,3))
  qed
  with dereg_index_ok [OF ok rc r'] show ?thesis by (simp add: reg_ok_def)
qed

section \<open>Registration\<close>

text \<open>What the plan of a file puts, and the links inside it.\<close>

lemma file_puts_mem:
  "PutG g \<in> set (file_puts pl) \<longleftrightarrow> g \<in> fst ` set pl"
  "PutT t \<in> set (file_puts pl) \<longleftrightarrow> (\<exists>p \<in> set pl. t \<in> fst ` set (snd p))"
  "PutA a \<in> set (file_puts pl) \<longleftrightarrow> (\<exists>p \<in> set pl. \<exists>ta \<in> set (snd p). a \<in> set (snd ta))"
  by (auto simp: file_puts_def group_puts_def trigger_puts_mem)

definition plan_wf :: "string \<Rightarrow> (grp \<times> (trigger \<times> action list) list) list \<Rightarrow> bool" where
  "plan_wf wid pl \<longleftrightarrow> (\<forall>(g, tas) \<in> set pl.
     gp_recurfile_id g = wid \<and> gp_trigger_ids g = map (tr_id \<circ> fst) tas \<and>
     gp_action_ids g = map ac_id (concat (map snd tas)) \<and>
     (\<forall>(t, as) \<in> set tas. tr_group_id t = gp_id g \<and> tr_recurfile_id t = wid \<and>
        (\<forall>a \<in> set as. ac_group_id a = gp_id g \<and> ac_trigger_id a = tr_id t \<and> ac_recurfile_id a = wid)))"

lemma file_plan_wf: "plan_wf wid (file_plan inp path wid gs)"
  by (auto simp: plan_wf_def file_plan_def plan_group_def plan_trigger_def plan_actions_def make_trigger_def
      make_action_def Let_def)

lemma plan_wfD:
  assumes "plan_wf wid pl" "p \<in> set pl"
  shows "gp_recurfile_id (fst p) = wid" "gp_trigger_ids (fst p) = map (tr_id \<circ> fst) (snd p)"
    "gp_action_ids (fst p) = map ac_id (concat (map snd (snd p)))"
    "ta \<in> set (snd p) \<Longrightarrow> tr_group_id (fst ta) = gp_id (fst p) \<and> tr_recurfile_id (fst ta) = wid"
    "ta \<in> set (snd p) \<Longrightarrow> a \<in> set (snd ta) \<Longrightarrow>
       ac_group_id a = gp_id (fst p) \<and> ac_trigger_id a = tr_id (fst ta) \<and> ac_recurfile_id a = wid"
  using assms by (auto simp: plan_wf_def split_beta)

text \<open>Lookups after inserting entities with new identifiers: those inserted and those there before.\<close>

lemma puts_lookup:
  assumes d: "distinct (map put_id ps)"
    and n: "\<forall>p \<in> set ps. map_of (re_groups r) (put_id p) = None \<and>
       map_of (re_triggers r) (put_id p) = None \<and> map_of (re_actions r) (put_id p) = None"
  shows "map_of (re_groups (foldl put1 r ps)) k = Some g \<longleftrightarrow>
      (PutG g \<in> set ps \<and> gp_id g = k) \<or> map_of (re_groups r) k = Some g" (is ?g)
    and "map_of (re_triggers (foldl put1 r ps)) k = Some t \<longleftrightarrow>
      (PutT t \<in> set ps \<and> tr_id t = k) \<or> map_of (re_triggers r) k = Some t" (is ?t)
    and "map_of (re_actions (foldl put1 r ps)) k = Some a \<longleftrightarrow>
      (PutA a \<in> set ps \<and> ac_id a = k) \<or> map_of (re_actions r) k = Some a" (is ?a)
proof -
  have *: "PutG g \<in> set ps \<Longrightarrow> map_of (re_groups r) (gp_id g) = None"
    "PutT t \<in> set ps \<Longrightarrow> map_of (re_triggers r) (tr_id t) = None"
    "PutA a \<in> set ps \<Longrightarrow> map_of (re_actions r) (ac_id a) = None" for g t a
    using n by force+
  show ?g
  proof (cases "\<exists>h. PutG h \<in> set ps \<and> gp_id h = k")
    case True
    then obtain h where h: "PutG h \<in> set ps" "gp_id h = k" by blast
    from puts_present(1) [OF d, of _ r] have "x = y" if "PutG x \<in> set ps" "PutG y \<in> set ps" "gp_id x = gp_id y" for x y
      using that by (metis option.sel)
    with puts_present(1) [OF d h(1), of r] *(1) [OF h(1)] h show ?thesis by auto
  next
    case False
    with puts_absent_group [of ps k r] show ?thesis by auto
  qed
  show ?t
  proof (cases "\<exists>h. PutT h \<in> set ps \<and> tr_id h = k")
    case True
    then obtain h where h: "PutT h \<in> set ps" "tr_id h = k" by blast
    from puts_present(2) [OF d, of _ r] have "x = y" if "PutT x \<in> set ps" "PutT y \<in> set ps" "tr_id x = tr_id y" for x y
      using that by (metis option.sel)
    with puts_present(2) [OF d h(1), of r] *(2) [OF h(1)] h show ?thesis by auto
  next
    case False
    with puts_absent_trigger [of ps k r] show ?thesis by auto
  qed
  show ?a
  proof (cases "\<exists>h. PutA h \<in> set ps \<and> ac_id h = k")
    case True
    then obtain h where h: "PutA h \<in> set ps" "ac_id h = k" by blast
    from puts_present(3) [OF d, of _ r] have "x = y" if "PutA x \<in> set ps" "PutA y \<in> set ps" "ac_id x = ac_id y" for x y
      using that by (metis option.sel)
    with puts_present(3) [OF d h(1), of r] *(3) [OF h(1)] h show ?thesis by auto
  next
    case False
    with puts_absent_action [of ps k r] show ?thesis by auto
  qed
qed

definition put_file :: "registry \<Rightarrow> recurfile \<Rightarrow> reg_put list \<Rightarrow> registry" where
  "put_file r rc ps = (foldl put1 r ps)\<lparr>re_recurfiles := AList.update (rc_id rc) rc (re_recurfiles r),
     re_index := ix_add (re_index (foldl put1 r ps)) (recurfile_ref rc)\<rparr>"

definition new_ids :: "registry \<Rightarrow> string \<Rightarrow> reg_put list \<Rightarrow> bool" where
  "new_ids r wid ps \<longleftrightarrow> distinct (wid # map put_id ps) \<and>
     list_all (\<lambda>x. er_id x \<noteq> wid \<and> er_id x \<notin> put_id ` set ps) (ix_refs (re_index r))"

lemma new_idsD:
  assumes "new_ids r wid ps" "reg_index_ok r"
  shows "distinct (map put_id ps)" "wid \<notin> put_id ` set ps"
    and "insert wid (put_id ` set ps) \<inter> er_id ` set (ix_refs (re_index r)) = {}"
    and "map_of (re_recurfiles r) wid = None"
    and "\<forall>p \<in> set ps. map_of (re_groups r) (put_id p) = None \<and>
       map_of (re_triggers r) (put_id p) = None \<and> map_of (re_actions r) (put_id p) = None"
proof -
  show "distinct (map put_id ps)" "wid \<notin> put_id ` set ps" using assms(1) by (auto simp: new_ids_def)
  show i: "insert wid (put_id ` set ps) \<inter> er_id ` set (ix_refs (re_index r)) = {}"
    using assms(1) by (fastforce simp: new_ids_def list_all_iff)
  show "map_of (re_recurfiles r) wid = None"
    and "\<forall>p \<in> set ps. map_of (re_groups r) (put_id p) = None \<and>
       map_of (re_triggers r) (put_id p) = None \<and> map_of (re_actions r) (put_id p) = None"
    using i unfolding ref_ids_all [OF assms(2)] by (auto simp: disjoint_iff dom_def)
qed

lemma put_file_index:
  assumes ok: "ix_ok (re_index r)" and new: "distinct (rc_id rc # map put_id ps)"
    "insert (rc_id rc) (put_id ` set ps) \<inter> er_id ` set (ix_refs (re_index r)) = {}"
  shows "ix_ok (re_index (put_file r rc ps))"
    "ix_refs (re_index (put_file r rc ps)) = ix_refs (re_index r) @ map put_ref ps @ [recurfile_ref rc]"
proof -
  have e: "map er_id (map put_ref ps) = map put_id ps" by (simp add: put_id_def)
  have a: "distinct (map er_id (map put_ref ps))" using new(1) unfolding e by simp
  have b: "er_id ` set (map put_ref ps) \<inter> er_id ` set (ix_refs (re_index r)) = {}"
    using new(2) unfolding set_map [symmetric] e by auto
  note ad = eix.adds [OF ok a b]
  have c: "er_id (recurfile_ref rc) \<notin> er_id ` set (ix_refs (foldl ix_add (re_index r) (map put_ref ps)))"
    using ad new unfolding set_map [symmetric] by (auto simp: recurfile_ref_def put_id_def)
  show "ix_ok (re_index (put_file r rc ps))"
    using eix.add_ok [OF _ c] ad by (simp add: put_file_def puts_fields)
  show "ix_refs (re_index (put_file r rc ps)) = ix_refs (re_index r) @ map put_ref ps @ [recurfile_ref rc]"
    using eix.add_refs [OF _ c] ad by (simp add: put_file_def puts_fields)
qed

lemma put_file_lookup:
  assumes ix: "reg_index_ok r" and new: "new_ids r (rc_id rc) ps"
  shows "map_of (re_recurfiles (put_file r rc ps)) k = Some rc' \<longleftrightarrow>
      (k = rc_id rc \<and> rc' = rc) \<or> map_of (re_recurfiles r) k = Some rc'"
    and "map_of (re_groups (put_file r rc ps)) k = Some g \<longleftrightarrow>
      (PutG g \<in> set ps \<and> gp_id g = k) \<or> map_of (re_groups r) k = Some g"
    and "map_of (re_triggers (put_file r rc ps)) k = Some t \<longleftrightarrow>
      (PutT t \<in> set ps \<and> tr_id t = k) \<or> map_of (re_triggers r) k = Some t"
    and "map_of (re_actions (put_file r rc ps)) k = Some a \<longleftrightarrow>
      (PutA a \<in> set ps \<and> ac_id a = k) \<or> map_of (re_actions r) k = Some a"
  using new_idsD [OF new ix] puts_lookup [of ps r]
  by (auto simp: put_file_def)

lemma put_file_ref_ids:
  assumes "ix_refs (re_index r') = ix_refs (re_index r) @ map put_ref ps @ [recurfile_ref rc]"
  shows "ref_ids r' ''recurfile'' = insert (rc_id rc) (ref_ids r ''recurfile'')"
    "ref_ids r' ''group'' = {gp_id g |g. PutG g \<in> set ps} \<union> ref_ids r ''group''"
    "ref_ids r' ''trigger'' = {tr_id t |t. PutT t \<in> set ps} \<union> ref_ids r ''trigger''"
    "ref_ids r' ''action'' = {ac_id a |a. PutA a \<in> set ps} \<union> ref_ids r ''action''"
proof -
  have m: "ref_ids r' ty = ref_ids r ty \<union> {put_id p |p. p \<in> set ps \<and> er_type (put_ref p) = ty} \<union>
      (if ty = ''recurfile'' then {rc_id rc} else {})" for ty
  proof -
    have "{x \<in> set (ix_refs (re_index r')). er_type x = ty} = {x \<in> set (ix_refs (re_index r)). er_type x = ty} \<union>
        put_ref ` {p \<in> set ps. er_type (put_ref p) = ty} \<union> (if ty = ''recurfile'' then {recurfile_ref rc} else {})"
      unfolding assms by (auto simp: recurfile_ref_def)
    then show ?thesis unfolding ref_ids_def by (auto simp: recurfile_ref_def put_id_def image_Un)
  qed
  have t: "er_type (put_ref p) = ''recurfile'' \<longleftrightarrow> False"
    "er_type (put_ref p) = ''group'' \<longleftrightarrow> (\<exists>g. p = PutG g)"
    "er_type (put_ref p) = ''trigger'' \<longleftrightarrow> (\<exists>t. p = PutT t)"
    "er_type (put_ref p) = ''action'' \<longleftrightarrow> (\<exists>a. p = PutA a)" for p
    by (cases p; simp add: group_ref_def trigger_ref_def action_ref_def)+
  show "ref_ids r' ''recurfile'' = insert (rc_id rc) (ref_ids r ''recurfile'')"
    unfolding m t by auto
  show "ref_ids r' ''group'' = {gp_id g |g. PutG g \<in> set ps} \<union> ref_ids r ''group''"
    unfolding m t by auto (metis put_id_simps(3))
  show "ref_ids r' ''trigger'' = {tr_id t |t. PutT t \<in> set ps} \<union> ref_ids r ''trigger''"
    unfolding m t by auto (metis put_id_simps(1))
  show "ref_ids r' ''action'' = {ac_id a |a. PutA a \<in> set ps} \<union> ref_ids r ''action''"
    unfolding m t by auto (metis put_id_simps(2))
qed

lemma put_file_index_ok:
  assumes ok: "reg_ok r" and new: "new_ids r (rc_id rc) (file_puts pl)"
  shows "reg_index_ok (put_file r rc (file_puts pl))"
proof -
  let ?r = "put_file r rc (file_puts pl)"
  from ok have ix: "reg_index_ok r" by (simp add: reg_ok_def)
  note L = put_file_lookup [OF ix new] and N = new_idsD [OF new ix]
  have ixok: "ix_ok (re_index r)" using ix by (simp add: reg_index_ok_def)
  note I = put_file_index [OF ixok, of rc "file_puts pl"]
  have d: "distinct (rc_id rc # map put_id (file_puts pl))" using new by (simp add: new_ids_def)
  note I = I [OF d N(3)]
  have ety: "er_type (put_ref p) \<in> entity_types" for p
    by (cases p) (simp_all add: entity_types_def group_ref_def trigger_ref_def action_ref_def)
  show ?thesis
    unfolding reg_index_ok_def put_file_ref_ids [OF I(2)]
  proof (intro conjI)
    show "ix_ok (re_index ?r)" by (rule I(1))
    show "\<forall>x \<in> set (ix_refs (re_index ?r)). er_type x \<in> entity_types"
      unfolding I(2) using ix ety by (auto simp: reg_index_ok_def recurfile_ref_def entity_types_def)
    show "insert (rc_id rc) (ref_ids r ''recurfile'') = dom (map_of (re_recurfiles ?r))"
      using ix by (auto simp: reg_index_ok_def dom_def L)
    show "{gp_id g |g. PutG g \<in> set (file_puts pl)} \<union> ref_ids r ''group'' = dom (map_of (re_groups ?r))"
      using ix by (auto simp: reg_index_ok_def dom_def L)
    show "{tr_id t |t. PutT t \<in> set (file_puts pl)} \<union> ref_ids r ''trigger'' = dom (map_of (re_triggers ?r))"
      using ix by (auto simp: reg_index_ok_def dom_def L)
    show "{ac_id a |a. PutA a \<in> set (file_puts pl)} \<union> ref_ids r ''action'' = dom (map_of (re_actions ?r))"
      using ix by (auto simp: reg_index_ok_def dom_def L)
  qed
qed

text \<open>The links of each kind of entity, an old one or one of the plan.\<close>

lemma put_file_recurfile_links:
  assumes ok: "reg_ok r" and wf: "plan_wf (rc_id rc) pl" and gs: "rc_groups rc = map (gp_id \<circ> fst) pl"
    and new: "new_ids r (rc_id rc) (file_puts pl)"
    and a: "map_of (re_recurfiles (put_file r rc (file_puts pl))) k = Some rc'"
  shows "rc_id rc' = k \<and> distinct (rc_groups rc') \<and>
      (\<forall>gid \<in> set (rc_groups rc'). \<exists>g. map_of (re_groups (put_file r rc (file_puts pl))) gid = Some g \<and> gp_recurfile_id g = k)"
proof -
  let ?r = "put_file r rc (file_puts pl)"
  from ok have links: "reg_links_ok r" and ix: "reg_index_ok r" by (simp_all add: reg_ok_def)
  note L = put_file_lookup [OF ix new] and N = new_idsD [OF new ix] and W = plan_wfD [OF wf]
  show ?thesis
  proof (cases "map_of (re_recurfiles r) k = Some rc'")
    case True
    then show ?thesis using links_recurfile [OF links True] by (auto simp: L)
  next
    case False
    with a have e: "k = rc_id rc" "rc' = rc" by (auto simp: L)
    have "distinct (map (gp_id \<circ> fst) pl)"
      using N(1) unfolding file_puts_def group_puts_def
      by (induction pl) (auto simp: image_iff)
    moreover have "\<exists>g. map_of (re_groups ?r) gid = Some g \<and> gp_recurfile_id g = rc_id rc"
      if "gid \<in> set (rc_groups rc)" for gid
      using that W(1) unfolding gs by (auto simp: L file_puts_mem)
    ultimately show ?thesis by (simp add: e gs)
  qed
qed

lemma put_file_group_links:
  assumes ok: "reg_ok r" and wf: "plan_wf (rc_id rc) pl" and gs: "rc_groups rc = map (gp_id \<circ> fst) pl"
    and new: "new_ids r (rc_id rc) (file_puts pl)"
    and a: "map_of (re_groups (put_file r rc (file_puts pl))) k = Some g"
  shows "gp_id g = k \<and>
      (\<exists>rc'. map_of (re_recurfiles (put_file r rc (file_puts pl))) (gp_recurfile_id g) = Some rc' \<and> k \<in> set (rc_groups rc')) \<and>
      (\<forall>tid \<in> set (gp_trigger_ids g). \<exists>t. map_of (re_triggers (put_file r rc (file_puts pl))) tid = Some t \<and> tr_group_id t = k) \<and>
      (\<forall>aid \<in> set (gp_action_ids g). \<exists>a. map_of (re_actions (put_file r rc (file_puts pl))) aid = Some a \<and> ac_group_id a = k)"
proof -
  let ?r = "put_file r rc (file_puts pl)"
  from ok have links: "reg_links_ok r" and ix: "reg_index_ok r" by (simp_all add: reg_ok_def)
  note L = put_file_lookup [OF ix new] and N = new_idsD [OF new ix] and W = plan_wfD [OF wf]
  show ?thesis
  proof (cases "map_of (re_groups r) k = Some g")
    case True
    then show ?thesis using links_group [OF links True] by (simp only: L) blast
  next
    case False
    with a obtain p where p: "p \<in> set pl" "g = fst p" "gp_id g = k" by (auto simp: L file_puts_mem)
    have "\<exists>rc. map_of (re_recurfiles ?r) (gp_recurfile_id g) = Some rc \<and> k \<in> set (rc_groups rc)"
      using p W(1) [OF p(1)] by (auto simp: L gs)
    moreover have "\<exists>t. map_of (re_triggers ?r) tid = Some t \<and> tr_group_id t = k"
      if "tid \<in> set (gp_trigger_ids g)" for tid
    proof -
      from that obtain ta where ta: "ta \<in> set (snd p)" "tid = tr_id (fst ta)" by (auto simp: p(2) W(2) [OF p(1)])
      then have "PutT (fst ta) \<in> set (file_puts pl)" using p(1) by (auto simp: file_puts_mem)
      then show ?thesis using ta(2) W(4) [OF p(1) ta(1)] p(2,3) by (auto simp: L)
    qed
    moreover have "\<exists>x. map_of (re_actions ?r) aid = Some x \<and> ac_group_id x = k"
      if "aid \<in> set (gp_action_ids g)" for aid
    proof -
      from that obtain ta x where ta: "ta \<in> set (snd p)" "x \<in> set (snd ta)" "aid = ac_id x"
        by (auto simp: p(2) W(3) [OF p(1)])
      then have "PutA x \<in> set (file_puts pl)" using p(1) by (auto simp: file_puts_mem)
      then show ?thesis using ta(3) W(5) [OF p(1) ta(1,2)] p(2,3) by (auto simp: L)
    qed
    ultimately show ?thesis using p(3) by blast
  qed
qed

lemma put_file_trigger_links:
  assumes ok: "reg_ok r" and wf: "plan_wf (rc_id rc) pl" and gs: "rc_groups rc = map (gp_id \<circ> fst) pl"
    and new: "new_ids r (rc_id rc) (file_puts pl)"
    and a: "map_of (re_triggers (put_file r rc (file_puts pl))) k = Some t"
  shows "tr_id t = k \<and> (\<exists>g. map_of (re_groups (put_file r rc (file_puts pl))) (tr_group_id t) = Some g \<and>
        k \<in> set (gp_trigger_ids g) \<and> gp_recurfile_id g = tr_recurfile_id t)"
proof -
  let ?r = "put_file r rc (file_puts pl)"
  from ok have links: "reg_links_ok r" and ix: "reg_index_ok r" by (simp_all add: reg_ok_def)
  note L = put_file_lookup [OF ix new] and N = new_idsD [OF new ix] and W = plan_wfD [OF wf]
  show ?thesis
  proof (cases "map_of (re_triggers r) k = Some t")
    case True
    then show ?thesis using links_trigger [OF links True] by (simp only: L) blast
  next
    case False
    with a obtain p ta where p: "p \<in> set pl" "ta \<in> set (snd p)" "t = fst ta" "tr_id t = k"
      by (auto simp: L file_puts_mem)
    have "PutG (fst p) \<in> set (file_puts pl)" using p(1) by (auto simp: file_puts_mem)
    then show ?thesis using p W(1,2) [OF p(1)] W(4) [OF p(1,2)] by (auto simp: L)
  qed
qed

lemma put_file_action_links:
  assumes ok: "reg_ok r" and wf: "plan_wf (rc_id rc) pl" and gs: "rc_groups rc = map (gp_id \<circ> fst) pl"
    and new: "new_ids r (rc_id rc) (file_puts pl)"
    and a: "map_of (re_actions (put_file r rc (file_puts pl))) k = Some x"
  shows "ac_id x = k \<and> (\<exists>g. map_of (re_groups (put_file r rc (file_puts pl))) (ac_group_id x) = Some g \<and>
        k \<in> set (gp_action_ids g) \<and> gp_recurfile_id g = ac_recurfile_id x) \<and>
      (\<exists>t. map_of (re_triggers (put_file r rc (file_puts pl))) (ac_trigger_id x) = Some t \<and> tr_group_id t = ac_group_id x)"
proof -
  let ?r = "put_file r rc (file_puts pl)"
  from ok have links: "reg_links_ok r" and ix: "reg_index_ok r" by (simp_all add: reg_ok_def)
  note L = put_file_lookup [OF ix new] and N = new_idsD [OF new ix] and W = plan_wfD [OF wf]
  show ?thesis
  proof (cases "map_of (re_actions r) k = Some x")
    case True
    then show ?thesis using links_action [OF links True] by (simp only: L) blast
  next
    case False
    with a obtain p ta where p: "p \<in> set pl" "ta \<in> set (snd p)" "x \<in> set (snd ta)" "ac_id x = k"
      by (auto simp: L file_puts_mem)
    have m: "PutG (fst p) \<in> set (file_puts pl)" "PutT (fst ta) \<in> set (file_puts pl)"
      using p(1,2) by (auto simp: file_puts_mem)
    have "k \<in> set (gp_action_ids (fst p))" using p by (auto simp: W(3) [OF p(1)])
    then have g: "map_of (re_groups ?r) (ac_group_id x) = Some (fst p) \<and> k \<in> set (gp_action_ids (fst p)) \<and>
        gp_recurfile_id (fst p) = ac_recurfile_id x"
      using m(1) W(1) [OF p(1)] W(5) [OF p(1-3)] by (simp add: L)
    have t: "map_of (re_triggers ?r) (ac_trigger_id x) = Some (fst ta) \<and> tr_group_id (fst ta) = ac_group_id x"
      using m(2) W(4) [OF p(1,2)] W(5) [OF p(1-3)] by (simp add: L)
    from g t p(4) show ?thesis by blast
  qed
qed

lemma put_file_ok:
  assumes ok: "reg_ok r" and wf: "plan_wf (rc_id rc) pl" and gs: "rc_groups rc = map (gp_id \<circ> fst) pl"
    and new: "new_ids r (rc_id rc) (file_puts pl)"
  shows "reg_ok (put_file r rc (file_puts pl))"
proof -
  have "reg_links_ok (put_file r rc (file_puts pl))"
    by (rule reg_linksI)
      (erule put_file_recurfile_links [OF ok wf gs new] put_file_group_links [OF ok wf gs new]
         put_file_trigger_links [OF ok wf gs new] put_file_action_links [OF ok wf gs new])+
  with put_file_index_ok [OF ok new] show ?thesis by (simp add: reg_ok_def)
qed

end
