(* ===== verification/Registry_Props.thy ===== *)
theory Registry_Props
  imports Registry_Ok
begin

text \<open>
  What the registry promises its callers, stated over its operations: the invariant holds
  after any history, deregistration undoes registration, the actions of a trigger are found
  through its group, and suspending a plugin reaches exactly its entities.
\<close>

section \<open>Registration as one insertion\<close>

definition old_recurfile :: "reg_env \<Rightarrow> registry \<Rightarrow> string \<Rightarrow> recurfile option" where
  "old_recurfile env r path =
     find (\<lambda>rc. same_recurfile_path env (rc_path rc) path) (amap_vals (re_recurfiles r))"

definition base_registry :: "reg_env \<Rightarrow> registry \<Rightarrow> string \<Rightarrow> registry" where
  "base_registry env r path =
     (case old_recurfile env r path of None \<Rightarrow> r | Some rc \<Rightarrow> fst (unlocked_deregister r rc))"

definition file_path :: "reg_env \<Rightarrow> raw_file \<Rightarrow> string" where
  "file_path env f = normalize_path env (rf_path f)"

definition file_wid :: "reg_env \<Rightarrow> raw_file \<Rightarrow> string" where
  "file_wid env f = entity_id ''recurfile'' (file_path env f)"

definition the_plan :: "reg_env \<Rightarrow> reg_input \<Rightarrow> raw_file \<Rightarrow> (grp \<times> (trigger \<times> action list) list) list" where
  "the_plan env inp f = file_plan inp (file_path env f) (file_wid env f) (rf_groups (resolve f))"

definition the_recurfile :: "reg_env \<Rightarrow> reg_input \<Rightarrow> raw_file \<Rightarrow> recurfile" where
  "the_recurfile env inp f = \<lparr>rc_id = file_wid env f, rc_path = file_path env f,
     rc_groups = map (gp_id \<circ> fst) (the_plan env inp f), rc_secrets = rf_secrets f\<rparr>"

text \<open>The identifiers the file gets are new and distinct: no two of the hashes collide.\<close>

definition ids_fresh :: "reg_env \<Rightarrow> reg_input \<Rightarrow> registry \<Rightarrow> raw_file \<Rightarrow> bool" where
  "ids_fresh env inp r f =
     new_ids (base_registry env r (file_path env f)) (file_wid env f) (file_puts (the_plan env inp f))"

lemma resolve_fields [simp]: "rf_path (resolve f) = rf_path f" "rf_secrets (resolve f) = rf_secrets f"
  by (simp_all add: resolve_def)

lemma register_put:
  "fst (register_recurfile env inp r f) =
     put_file (base_registry env r (file_path env f)) (the_recurfile env inp f) (file_puts (the_plan env inp f))"
proof -
  obtain r0 old where r0: "(case old_recurfile env r (file_path env f) of
      None \<Rightarrow> (r, []) | Some rc \<Rightarrow> (fst (unlocked_deregister r rc), trigger_ids_of r rc)) = (r0, old)"
    by (cases "case old_recurfile env r (file_path env f) of
      None \<Rightarrow> (r, []) | Some rc \<Rightarrow> (fst (unlocked_deregister r rc), trigger_ids_of r rc)")
  then have b: "base_registry env r (file_path env f) = r0"
    by (auto simp: base_registry_def split: option.splits)
  show ?thesis
    using r0 unfolding b old_recurfile_def
    by (simp add: register_recurfile_def register_resolved_def Let_def register_groups the_plan_def
        the_recurfile_def put_file_def file_wid_def file_path_def puts_fields)
qed

lemma old_recurfile_mem:
  assumes "old_recurfile env r path = Some rc" "reg_ok r" "amap_ok (re_recurfiles r)"
  shows "map_of (re_recurfiles r) (rc_id rc) = Some rc" "same_recurfile_path env (rc_path rc) path"
proof -
  from assms(1) have "rc \<in> set (amap_vals (re_recurfiles r))" and s: "same_recurfile_path env (rc_path rc) path"
    by (auto simp: old_recurfile_def dest: find_Some_set)
  then obtain k where "(k, rc) \<in> set (re_recurfiles r)" by (auto simp: amap_vals_def)
  then have k: "map_of (re_recurfiles r) k = Some rc" using amap_in_iff [OF assms(3)] by blast
  moreover have "rc_id rc = k" using assms(2) links_recurfile(1) [OF _ k] by (simp add: reg_ok_def)
  ultimately show "map_of (re_recurfiles r) (rc_id rc) = Some rc" by simp
  show "same_recurfile_path env (rc_path rc) path" by (rule s)
qed

section \<open>The invariant over every operation\<close>

definition reg_maps_ok :: "registry \<Rightarrow> bool" where
  "reg_maps_ok r \<longleftrightarrow> amap_ok (re_recurfiles r) \<and> amap_ok (re_groups r) \<and> amap_ok (re_triggers r) \<and> amap_ok (re_actions r)"

definition reg_inv :: "registry \<Rightarrow> bool" where
  "reg_inv r \<longleftrightarrow> reg_ok r \<and> reg_maps_ok r"

lemma reg_invD: "reg_inv r \<Longrightarrow> reg_ok r" "reg_inv r \<Longrightarrow> reg_links_ok r" "reg_inv r \<Longrightarrow> reg_index_ok r"
  "reg_inv r \<Longrightarrow> amap_ok (re_recurfiles r)" "reg_inv r \<Longrightarrow> amap_ok (re_groups r)"
  "reg_inv r \<Longrightarrow> amap_ok (re_triggers r)" "reg_inv r \<Longrightarrow> amap_ok (re_actions r)" "reg_inv r \<Longrightarrow> ix_ok (re_index r)"
  by (simp_all add: reg_inv_def reg_ok_def reg_maps_ok_def reg_index_ok_def)

lemma new_registry_inv: "reg_inv new_registry"
  using new_registry_ok by (simp add: reg_inv_def reg_maps_ok_def) (simp add: new_registry_def)

lemma puts_maps_ok: "reg_maps_ok r \<Longrightarrow> reg_maps_ok (foldl put1 r ps)"
proof (induction ps arbitrary: r)
  case (Cons p ps)
  have "reg_maps_ok (put1 r p)" using Cons.prems by (cases p) (auto simp: reg_maps_ok_def)
  with Cons.IH show ?case by simp
qed simp

lemma drop_triggers_maps_ok: "reg_maps_ok r \<Longrightarrow> reg_maps_ok (foldl drop_trigger r is)"
  by (induction "is" arbitrary: r) (auto simp: reg_maps_ok_def drop_trigger_def)

lemma drop_actions_maps_ok: "reg_maps_ok r \<Longrightarrow> reg_maps_ok (foldl drop_action r is)"
  by (induction "is" arbitrary: r) (auto simp: reg_maps_ok_def drop_action_def)

lemma drop_group_maps_ok: "reg_maps_ok (fst st) \<Longrightarrow> reg_maps_ok (fst (drop_group st gid))"
  using drop_triggers_maps_ok drop_actions_maps_ok
  by (auto simp: drop_group_def Let_def split_beta reg_maps_ok_def split: option.splits)

lemma dereg_maps_ok: "reg_maps_ok r \<Longrightarrow> reg_maps_ok (fst (unlocked_deregister r rc))"
proof -
  assume ok: "reg_maps_ok r"
  have "reg_maps_ok (fst st) \<Longrightarrow> reg_maps_ok (fst (foldl drop_group st gs))" for st gs
    by (induction gs arbitrary: st) (simp_all add: drop_group_maps_ok)
  from this [of "(r, 0, 0)"] ok show ?thesis
    by (auto simp: unlocked_deregister_def reg_maps_ok_def split_beta)
qed

lemma dereg_inv:
  assumes "reg_inv r" "map_of (re_recurfiles r) (rc_id rc) = Some rc"
  shows "reg_inv (fst (unlocked_deregister r rc))"
proof -
  obtain r' tn an where r': "unlocked_deregister r rc = (r', tn, an)" by (cases "unlocked_deregister r rc")
  with dereg_ok [OF _ assms(2) r'] dereg_maps_ok [of r rc] assms(1) show ?thesis by (simp add: reg_inv_def)
qed

lemma base_registry_inv:
  assumes "reg_inv r"
  shows "reg_inv (base_registry env r path)"
proof (cases "old_recurfile env r path")
  case None
  with assms show ?thesis by (simp add: base_registry_def)
next
  case (Some rc)
  with old_recurfile_mem(1) [OF Some reg_invD(1,4)] dereg_inv [OF assms] assms show ?thesis
    by (simp add: base_registry_def)
qed

lemma register_inv:
  assumes "reg_inv r" "ids_fresh env inp r f"
  shows "reg_inv (fst (register_recurfile env inp r f))"
proof -
  note b = base_registry_inv [OF assms(1), of env "file_path env f"]
  have "reg_ok (put_file (base_registry env r (file_path env f)) (the_recurfile env inp f) (file_puts (the_plan env inp f)))"
  proof (rule put_file_ok [OF reg_invD(1) [OF b]])
    show "plan_wf (rc_id (the_recurfile env inp f)) (the_plan env inp f)"
      by (simp add: the_recurfile_def the_plan_def file_plan_wf)
    show "rc_groups (the_recurfile env inp f) = map (gp_id \<circ> fst) (the_plan env inp f)"
      by (simp add: the_recurfile_def)
    show "new_ids (base_registry env r (file_path env f)) (rc_id (the_recurfile env inp f)) (file_puts (the_plan env inp f))"
      using assms(2) by (simp add: the_recurfile_def ids_fresh_def)
  qed
  moreover have "reg_maps_ok (put_file (base_registry env r (file_path env f)) (the_recurfile env inp f) (file_puts (the_plan env inp f)))"
    using puts_maps_ok [of "base_registry env r (file_path env f)"] b by (auto simp: reg_inv_def reg_maps_ok_def put_file_def)
  ultimately show ?thesis unfolding register_put by (simp add: reg_inv_def)
qed

text \<open>Changes of the fields that are not identifiers keep the invariant.\<close>

lemma change_inv:
  assumes inv: "reg_inv r"
    and f: "\<And>k t. tr_id (f k t) = tr_id t \<and> tr_group_id (f k t) = tr_group_id t \<and> tr_recurfile_id (f k t) = tr_recurfile_id t"
    and g: "\<And>k a. ac_id (g k a) = ac_id a \<and> ac_group_id (g k a) = ac_group_id a \<and>
      ac_trigger_id (g k a) = ac_trigger_id a \<and> ac_recurfile_id (g k a) = ac_recurfile_id a"
  shows "reg_inv (r\<lparr>re_triggers := amap_map f (re_triggers r), re_actions := amap_map g (re_actions r)\<rparr>)"
proof -
  let ?r = "r\<lparr>re_triggers := amap_map f (re_triggers r), re_actions := amap_map g (re_actions r)\<rparr>"
  note links = reg_invD(2) [OF inv]
  have d: "dom (map_of (amap_map f m)) = dom (map_of m)" for f :: "string \<Rightarrow> 'a \<Rightarrow> 'b" and m
    by (auto simp: dom_def)
  have "reg_index_ok ?r"
    using reg_invD(3) [OF inv] by (simp add: reg_index_ok_def ref_ids_def d)
  moreover have "reg_links_ok ?r"
  proof (rule reg_linksI)
    fix k rc assume "map_of (re_recurfiles ?r) k = Some rc"
    then show "rc_id rc = k \<and> distinct (rc_groups rc) \<and>
      (\<forall>gid \<in> set (rc_groups rc). \<exists>g. map_of (re_groups ?r) gid = Some g \<and> gp_recurfile_id g = k)"
      using links_recurfile [OF links, of k rc] by simp
  next
    fix k h assume "map_of (re_groups ?r) k = Some h"
    then show "gp_id h = k \<and>
      (\<exists>rc. map_of (re_recurfiles ?r) (gp_recurfile_id h) = Some rc \<and> k \<in> set (rc_groups rc)) \<and>
      (\<forall>tid \<in> set (gp_trigger_ids h). \<exists>t. map_of (re_triggers ?r) tid = Some t \<and> tr_group_id t = k) \<and>
      (\<forall>aid \<in> set (gp_action_ids h). \<exists>a. map_of (re_actions ?r) aid = Some a \<and> ac_group_id a = k)"
      using links_group [OF links, of k h] f g by fastforce
  next
    fix k t assume "map_of (re_triggers ?r) k = Some t"
    then obtain t0 where "map_of (re_triggers r) k = Some t0" "t = f k t0" by auto
    then show "tr_id t = k \<and> (\<exists>g. map_of (re_groups ?r) (tr_group_id t) = Some g \<and>
        k \<in> set (gp_trigger_ids g) \<and> gp_recurfile_id g = tr_recurfile_id t)"
      using links_trigger [OF links, of k t0] f by simp
  next
    fix k a assume "map_of (re_actions ?r) k = Some a"
    then obtain a0 where "map_of (re_actions r) k = Some a0" "a = g k a0" by auto
    then show "ac_id a = k \<and> (\<exists>h. map_of (re_groups ?r) (ac_group_id a) = Some h \<and>
        k \<in> set (gp_action_ids h) \<and> gp_recurfile_id h = ac_recurfile_id a) \<and>
      (\<exists>t. map_of (re_triggers ?r) (ac_trigger_id a) = Some t \<and> tr_group_id t = ac_group_id a)"
      using links_action [OF links, of k a0] f g by fastforce
  qed
  ultimately show ?thesis using inv by (simp add: reg_inv_def reg_ok_def reg_maps_ok_def)
qed

lemma amap_map_id [simp]: "amap_map (\<lambda>k v. v) m = m"
  by (induction m) (auto simp: amap_map_def)

lemma change_trigger_inv: "reg_inv r \<Longrightarrow> reg_inv (snd (change_trigger s r ident))"
  using change_inv [of r "\<lambda>k t. if k = i then t\<lparr>tr_status := s\<rparr> else t" "\<lambda>k a. a" for i]
  by (auto simp: change_trigger_def set_trigger_status_def split: option.splits)

lemma change_action_inv: "reg_inv r \<Longrightarrow> reg_inv (snd (change_action s r ident))"
  using change_inv [of r "\<lambda>k t. t" "\<lambda>k a. if k = i then a\<lparr>ac_status := s\<rparr> else a" for i]
  by (auto simp: change_action_def set_action_status_def split: option.splits)

lemma suspend_by_plugin_inv: "reg_inv r \<Longrightarrow> reg_inv (snd (suspend_by_plugin_id r pid))"
  unfolding suspend_by_plugin_id_def Let_def snd_conv by (rule change_inv) auto

lemma restore_inv: "reg_inv r \<Longrightarrow> reg_inv (restore_entity_states r wid ts as)"
  unfolding restore_entity_states_def
  by (rule change_inv) (auto simp: restore_trigger_def restore_action_def split: option.splits)

datatype reg_op =
    Register reg_env reg_input raw_file
  | Deregister string
  | Suspend_Trigger string | Resume_Trigger string
  | Suspend_Action string | Resume_Action string
  | Suspend_Plugin string
  | Restore string "(string, entity_snapshot) amap" "(string, entity_snapshot) amap"

fun reg_step :: "registry \<Rightarrow> reg_op \<Rightarrow> registry" where
  "reg_step r (Register env inp f) = fst (register_recurfile env inp r f)"
| "reg_step r (Deregister ident) = snd (deregister_recurfile r ident)"
| "reg_step r (Suspend_Trigger ident) = snd (suspend_trigger r ident)"
| "reg_step r (Resume_Trigger ident) = snd (resume_trigger r ident)"
| "reg_step r (Suspend_Action ident) = snd (suspend_action r ident)"
| "reg_step r (Resume_Action ident) = snd (resume_action r ident)"
| "reg_step r (Suspend_Plugin pid) = snd (suspend_by_plugin_id r pid)"
| "reg_step r (Restore wid ts as) = restore_entity_states r wid ts as"

fun fresh_op :: "registry \<Rightarrow> reg_op \<Rightarrow> bool" where
  "fresh_op r (Register env inp f) = ids_fresh env inp r f"
| "fresh_op r _ = True"

abbreviation fresh_history :: "registry \<Rightarrow> reg_op list \<Rightarrow> bool" where
  "fresh_history \<equiv> permitted reg_step fresh_op"

lemma find_recurfile_Some:
  assumes "reg_inv r" "find_recurfile r ident = Some rc"
  shows "map_of (re_recurfiles r) (rc_id rc) = Some rc"
proof -
  from assms(2) obtain x :: entity_ref where "map_of (re_recurfiles r) (er_id x) = Some rc"
    unfolding find_recurfile_def find_in_def by (cases "find_entity_by_type r ident ''recurfile''") auto
  with links_recurfile(1) [OF reg_invD(2) [OF assms(1)] this] show ?thesis by simp
qed

lemma deregister_inv: "reg_inv r \<Longrightarrow> reg_inv (snd (deregister_recurfile r ident))"
  using find_recurfile_Some [of r ident] dereg_inv [of r]
  by (auto simp: deregister_recurfile_def split: option.splits prod.splits) (metis fst_conv)

interpretation rm: machine reg_step fresh_op reg_inv
proof
  fix r p
  assume "reg_inv r" "fresh_op r p"
  then show "reg_inv (reg_step r p)"
    by (cases p) (simp_all add: register_inv deregister_inv change_trigger_inv change_action_inv
      suspend_by_plugin_inv restore_inv suspend_trigger_def resume_trigger_def suspend_action_def resume_action_def)
qed

text \<open>Whatever an identifier resolves to is registered under the type of the reference.\<close>

definition registered :: "registry \<Rightarrow> entity_ref \<Rightarrow> bool" where
  "registered r x =
     (if er_type x = ''recurfile'' then get_recurfile r (er_id x) \<noteq> None
      else if er_type x = ''group'' then get_group r (er_id x) \<noteq> None
      else if er_type x = ''trigger'' then get_trigger r (er_id x) \<noteq> None
      else er_type x = ''action'' \<and> get_action r (er_id x) \<noteq> None)"

lemma ix_lookup_refs: "ix_ok s \<Longrightarrow> set (ix_lookup s ident) \<subseteq> set (ix_refs s)"
  by (auto simp: ix_lookup_find_refs find_refs_def split: if_splits)

lemma refs_registered:
  assumes inv: "reg_inv r" and x: "x \<in> set (ix_refs (re_index r))"
  shows "registered r x"
proof -
  have "er_id x \<in> ref_ids r (er_type x)" using x by (auto simp: ref_ids_def)
  moreover have "er_type x \<in> entity_types" using inv x reg_invD(3) by (auto simp: reg_index_ok_def)
  ultimately show ?thesis
    using reg_invD(3) [OF inv]
    by (auto simp: registered_def entity_types_def reg_index_ok_def get_recurfile_def get_group_def
        get_trigger_def get_action_def)
qed

lemma resolve_registered:
  assumes "reg_inv r" "x \<in> set (resolve_entity r ident allowed)"
  shows "registered r x"
  using assms refs_registered ix_lookup_refs [OF reg_invD(8) [OF assms(1)], of ident]
  by (auto simp: resolve_entity_def Let_def split: if_splits)

section \<open>A sample registry\<close>

definition sample_rf :: raw_file where
  "sample_rf = \<lparr>rf_path = ''/r.yaml'', rf_aliases = [], rf_secrets = [],
     rf_groups = [\<lparr>rg_name = ''g'', rg_aliases = [], rg_options = None,
       rg_triggers = [\<lparr>rt_type = ''t'', rt_name = [], rt_options = None,
          rt_actions = [\<lparr>ra_type = ''a'', ra_name = [], ra_options = None\<rparr>]\<rparr>],
       rg_actions = []\<rparr>]\<rparr>"

definition sample_inp :: reg_input where
  "sample_inp = \<lparr>ri_plugins = [], ri_defaults = None, ri_overrides = []\<rparr>"

definition sample_env :: reg_env where
  "sample_env = \<lparr>os_same_file = (\<lambda>a b. a = b), os_cwd = Some ''/''\<rparr>"

lemma sample_path: "file_path sample_env sample_rf = ''/r.yaml''"
  by (simp add: file_path_def normalize_path_def sample_env_def sample_rf_def path_clean_def is_abs_def
      split2.simps char_eval)

lemma sample_wid': "file_wid sample_env sample_rf = ''45df806c8715''"
  by (simp add: file_wid_def sample_path sample_wid)

lemma sample_put_ids:
  "map put_id (file_puts (the_plan sample_env sample_inp sample_rf)) = [''322a174e96db'', ''807e66392855'', ''ae5829e5c872'']"
  unfolding the_plan_def sample_wid' sample_path
  by (simp add: sample_rf_def resolve_def resolve_group_def resolve_trigger_def Let_def expand_alias_def
     file_plan_def plan_group_def plan_trigger_def plan_actions_def make_trigger_def make_action_def file_puts_def
     group_puts_def trigger_puts_def occ_def sample_ids merge_aliases_def put_all_def
     str_contains_def)

lemma sample_fresh: "ids_fresh sample_env sample_inp new_registry sample_rf"
  unfolding ids_fresh_def new_ids_def sample_wid' list.map set_map [symmetric] sample_put_ids
  by (simp add: base_registry_def old_recurfile_def new_registry_def amap_vals_def ix_refs_def new_entity_index_def live_ix_def)

definition sample_reg :: registry where
  "sample_reg = fst (register_recurfile sample_env sample_inp new_registry sample_rf)"

lemma sample_reg_inv: "reg_inv sample_reg"
  unfolding sample_reg_def by (rule register_inv [OF new_registry_inv sample_fresh])

section \<open>Properties\<close>

text \<open>
  C1: the registry stays consistent whatever it is asked to do. After any history of
  registrations, deregistrations, suspensions, resumptions, plugin suspensions and restored
  states, provided no two identifiers of a registered file collide, recurfiles, groups,
  triggers and actions point at each other and back, the index refers to exactly the
  registered entities under their types, and every reference an identifier resolves to is
  registered under its type.
\<close>

theorem registry_invariant:
  assumes "fresh_history new_registry ops"
  shows "reg_inv (foldl reg_step new_registry ops) \<and>
    list_all (registered (foldl reg_step new_registry ops)) (resolve_entity (foldl reg_step new_registry ops) ident allowed)"
  using rm.run_inv [OF new_registry_inv assms] resolve_registered
  by (auto simp: list_all_iff)

theorem registry_invariant_witness:
  "list_all (registered (foldl reg_step new_registry [Register sample_env sample_inp sample_rf, Suspend_Plugin [], Deregister ''/r.yaml'']))
     (resolve_entity (foldl reg_step new_registry [Register sample_env sample_inp sample_rf, Suspend_Plugin [], Deregister ''/r.yaml'']) ''t'' [])"
proof -
  have "fresh_history new_registry [Register sample_env sample_inp sample_rf, Suspend_Plugin [], Deregister ''/r.yaml'']"
    by (simp add: sample_fresh)
  from registry_invariant [OF this] show ?thesis by blast
qed

lemma deregister_by_id:
  assumes inv: "reg_inv r" and rc: "map_of (re_recurfiles r) k = Some rc"
  shows "deregister_recurfile r k =
    (case unlocked_deregister r rc of (r', tn, an) \<Rightarrow> (Inr (rc, tn, an), r'))"
proof -
  have "k \<in> ref_ids r ''recurfile''" using rc reg_invD(3) [OF inv] by (auto simp: reg_index_ok_def)
  then obtain x where x: "x \<in> set (ix_refs (re_index r))" "er_type x = ''recurfile''" "er_id x = k"
    by (auto simp: ref_ids_def)
  have "ix_lookup (re_index r) k = [x]" using eix.look_id [OF reg_invD(8) [OF inv] x(1)] x(3) by simp
  with x rc show ?thesis
    by (simp add: deregister_recurfile_def find_recurfile_def find_in_def find_entity_by_type_def resolve_entity_def split: prod.split)
qed

text \<open>A new file's entities are in its groups and not in the registry; none of the registry's are in its groups.\<close>

lemma new_file_groups:
  assumes inv: "reg_inv r" and wf: "plan_wf (rc_id rc) pl" and gs: "rc_groups rc = map (gp_id \<circ> fst) pl"
    and new: "new_ids r (rc_id rc) (file_puts pl)"
  shows "k \<in> set (rc_groups rc) \<longleftrightarrow> (\<exists>g. PutG g \<in> set (file_puts pl) \<and> gp_id g = k)"
    and "k \<in> set (rc_groups rc) \<Longrightarrow> map_of (re_groups r) k = None"
    and "map_of (re_triggers r) k = Some t \<Longrightarrow> tr_group_id t \<notin> set (rc_groups rc)"
    and "map_of (re_actions r) k = Some x \<Longrightarrow> ac_group_id x \<notin> set (rc_groups rc)"
proof -
  note N = new_idsD [OF new reg_invD(3) [OF inv]]
  have G: "k \<in> set (rc_groups rc) \<longleftrightarrow> (\<exists>g. PutG g \<in> set (file_puts pl) \<and> gp_id g = k)" for k
    unfolding gs by (auto simp: file_puts_mem)
  have Gnone: "map_of (re_groups r) k = None" if k: "k \<in> set (rc_groups rc)" for k
  proof -
    from k obtain g where "PutG g \<in> set (file_puts pl)" "gp_id g = k" unfolding G by blast
    with N(5) show ?thesis by force
  qed
  have RT: "tr_group_id t \<notin> set (rc_groups rc)" if "map_of (re_triggers r) k = Some t" for k t
    using links_trigger(2) [OF reg_invD(2) [OF inv] that] Gnone by force
  have RA: "ac_group_id a \<notin> set (rc_groups rc)" if "map_of (re_actions r) k = Some a" for k a
    using links_action(2) [OF reg_invD(2) [OF inv] that] Gnone by force
  show "k \<in> set (rc_groups rc) \<longleftrightarrow> (\<exists>g. PutG g \<in> set (file_puts pl) \<and> gp_id g = k)" by (rule G)
  show "k \<in> set (rc_groups rc) \<Longrightarrow> map_of (re_groups r) k = None" by (rule Gnone)
  show "map_of (re_triggers r) k = Some t \<Longrightarrow> tr_group_id t \<notin> set (rc_groups rc)" by (rule RT)
  show "map_of (re_actions r) k = Some x \<Longrightarrow> ac_group_id x \<notin> set (rc_groups rc)" by (rule RA)
qed

lemma new_file_entities:
  assumes inv: "reg_inv r" and wf: "plan_wf (rc_id rc) pl" and gs: "rc_groups rc = map (gp_id \<circ> fst) pl"
    and new: "new_ids r (rc_id rc) (file_puts pl)"
  shows "PutT t \<in> set (file_puts pl) \<Longrightarrow> tr_group_id t \<in> set (rc_groups rc) \<and> map_of (re_triggers r) (tr_id t) = None"
    and "PutA a \<in> set (file_puts pl) \<Longrightarrow> ac_group_id a \<in> set (rc_groups rc) \<and> map_of (re_actions r) (ac_id a) = None"
proof -
  note N = new_idsD [OF new reg_invD(3) [OF inv]] and W = plan_wfD [OF wf]
  have PT: "tr_group_id t \<in> set (rc_groups rc)" "map_of (re_triggers r) (tr_id t) = None"
    if t: "PutT t \<in> set (file_puts pl)" for t
  proof -
    from t obtain p ta where "p \<in> set pl" "ta \<in> set (snd p)" "t = fst ta" by (auto simp: file_puts_mem)
    with W(4) [of p ta] show "tr_group_id t \<in> set (rc_groups rc)" unfolding gs by auto
    from t N(5) show "map_of (re_triggers r) (tr_id t) = None" by force
  qed
  have PA: "ac_group_id a \<in> set (rc_groups rc)" "map_of (re_actions r) (ac_id a) = None"
    if a: "PutA a \<in> set (file_puts pl)" for a
  proof -
    from a obtain p ta where "p \<in> set pl" "ta \<in> set (snd p)" "a \<in> set (snd ta)" by (auto simp: file_puts_mem)
    with W(5) [of p ta a] show "ac_group_id a \<in> set (rc_groups rc)" unfolding gs by auto
    from a N(5) show "map_of (re_actions r) (ac_id a) = None" by force
  qed
  show "PutT t \<in> set (file_puts pl) \<Longrightarrow> tr_group_id t \<in> set (rc_groups rc) \<and> map_of (re_triggers r) (tr_id t) = None"
    using PT by blast
  show "PutA a \<in> set (file_puts pl) \<Longrightarrow> ac_group_id a \<in> set (rc_groups rc) \<and> map_of (re_actions r) (ac_id a) = None"
    using PA by blast
qed

lemma dereg_put_maps:
  assumes inv: "reg_inv r" and wf: "plan_wf (rc_id rc) pl" and gs: "rc_groups rc = map (gp_id \<circ> fst) pl"
    and new: "new_ids r (rc_id rc) (file_puts pl)"
    and r': "unlocked_deregister (put_file r rc (file_puts pl)) rc = (r', tn, an)"
  shows "map_of (re_recurfiles r') = map_of (re_recurfiles r)" "map_of (re_groups r') = map_of (re_groups r)"
    "map_of (re_triggers r') = map_of (re_triggers r)" "map_of (re_actions r') = map_of (re_actions r)"
proof -
  let ?r = "put_file r rc (file_puts pl)"
  note ix = reg_invD(3) [OF inv]
  have ok: "reg_ok ?r" by (rule put_file_ok [OF reg_invD(1) [OF inv] wf gs new])
  then have lk: "reg_links_ok ?r" "reg_index_ok ?r" by (simp_all add: reg_ok_def)
  note L = put_file_lookup [OF ix new] and N = new_idsD [OF new ix]
  have rc: "map_of (re_recurfiles ?r) (rc_id rc) = Some rc" by (simp add: L)
  note F = dereg_fields [OF lk(1,2) rc r']
  note G = new_file_groups(1) [OF inv wf gs new] and Gnone = new_file_groups(2) [OF inv wf gs new]
    and RT = new_file_groups(3) [OF inv wf gs new] and RA = new_file_groups(4) [OF inv wf gs new]
    and PT = new_file_entities(1) [OF inv wf gs new] and PA = new_file_entities(2) [OF inv wf gs new]
  show "map_of (re_recurfiles r') = map_of (re_recurfiles r)"
    using N(4) by (auto simp: F(1) put_file_def)
  show "map_of (re_groups r') = map_of (re_groups r)"
  proof
    fix k show "map_of (re_groups r') k = map_of (re_groups r) k"
    proof (cases "k \<in> set (rc_groups rc)")
      case False
      then have "map_of (re_groups ?r) k = Some g \<longleftrightarrow> map_of (re_groups r) k = Some g" for g using G by (auto simp: L)
      then have "map_of (re_groups ?r) k = map_of (re_groups r) k" by (metis option.exhaust)
      then show ?thesis using False by (simp add: F(2))
    qed (simp add: F(2) Gnone)
  qed
  show "map_of (re_triggers r') = map_of (re_triggers r)"
  proof
    fix k
    have "map_of (re_triggers r') k = Some t \<longleftrightarrow> map_of (re_triggers r) k = Some t" for t
      using L(3) [of k t] PT RT by (auto simp: F(3) split: option.splits)
    then show "map_of (re_triggers r') k = map_of (re_triggers r) k" by (metis option.exhaust)
  qed
  show "map_of (re_actions r') = map_of (re_actions r)"
  proof
    fix k
    have "map_of (re_actions r') k = Some t \<longleftrightarrow> map_of (re_actions r) k = Some t" for t
      using L(4) [of k t] PA RA by (auto simp: F(4) split: option.splits)
    then show "map_of (re_actions r') k = map_of (re_actions r) k" by (metis option.exhaust)
  qed
qed

lemma dereg_put_refs:
  assumes inv: "reg_inv r" and wf: "plan_wf (rc_id rc) pl" and gs: "rc_groups rc = map (gp_id \<circ> fst) pl"
    and new: "new_ids r (rc_id rc) (file_puts pl)"
    and r': "unlocked_deregister (put_file r rc (file_puts pl)) rc = (r', tn, an)"
  shows "ix_refs (re_index r') = ix_refs (re_index r)"
proof -
  let ?r = "put_file r rc (file_puts pl)"
  note ix = reg_invD(3) [OF inv]
  have ok: "reg_ok ?r" by (rule put_file_ok [OF reg_invD(1) [OF inv] wf gs new])
  then have lk: "reg_links_ok ?r" "reg_index_ok ?r" by (simp_all add: reg_ok_def)
  note L = put_file_lookup [OF ix new] and N = new_idsD [OF new ix]
  have rc: "map_of (re_recurfiles ?r) (rc_id rc) = Some rc" by (simp add: L)
  note F = dereg_fields [OF lk(1,2) rc r']
  note G = new_file_groups(1) [OF inv wf gs new] and Gnone = new_file_groups(2) [OF inv wf gs new]
    and RT = new_file_groups(3) [OF inv wf gs new] and RA = new_file_groups(4) [OF inv wf gs new]
    and PT = new_file_entities(1) [OF inv wf gs new] and PA = new_file_entities(2) [OF inv wf gs new]
  let ?keep = "\<lambda>x. er_id x \<noteq> rc_id rc \<and> er_id x \<notin> set (rc_groups rc) \<and>
       (\<forall>t. map_of (re_triggers ?r) (er_id x) = Some t \<longrightarrow> tr_group_id t \<notin> set (rc_groups rc)) \<and>
       (\<forall>a. map_of (re_actions ?r) (er_id x) = Some a \<longrightarrow> ac_group_id a \<notin> set (rc_groups rc))"
  have d: "distinct (rc_id rc # map put_id (file_puts pl))" using new by (simp add: new_ids_def)
  note I = put_file_index(2) [OF reg_invD(8) [OF inv] d N(3)]
  have n1: "er_id x \<noteq> rc_id rc \<and> er_id x \<notin> put_id ` set (file_puts pl)" if "x \<in> set (ix_refs (re_index r))" for x
    using N(3) that by blast
  have "?keep x" if x: "x \<in> set (ix_refs (re_index r))" for x
  proof (intro conjI allI impI)
    have nput: "put_id p \<noteq> er_id x" if "p \<in> set (file_puts pl)" for p using n1 [OF x] that by (metis imageI)
    show "er_id x \<noteq> rc_id rc" using n1 [OF x] by simp
    show "er_id x \<notin> set (rc_groups rc)" using nput unfolding G by force
    fix t assume "map_of (re_triggers ?r) (er_id x) = Some t"
    then show "tr_group_id t \<notin> set (rc_groups rc)" using nput [of "PutT t"] RT by (auto simp: L)
  next
    have nput: "put_id p \<noteq> er_id x" if "p \<in> set (file_puts pl)" for p using n1 [OF x] that by (metis imageI)
    fix a assume "map_of (re_actions ?r) (er_id x) = Some a"
    then show "ac_group_id a \<notin> set (rc_groups rc)" using nput [of "PutA a"] RA by (auto simp: L)
  qed
  moreover have "\<not> ?keep (put_ref p)" if p: "p \<in> set (file_puts pl)" for p
  proof (cases p)
    case (PutT t)
    with p PT L(3) show ?thesis by (auto simp: trigger_ref_def)
  next
    case (PutA a)
    with p PA L(4) show ?thesis by (auto simp: action_ref_def)
  next
    case (PutG g)
    with p G show ?thesis by (auto simp: group_ref_def)
  qed
  ultimately show ?thesis
    unfolding F(6) I by (simp add: filter_id_conv filter_empty_conv recurfile_ref_def)
qed

lemmas dereg_put_file = dereg_put_maps dereg_put_refs

lemma dereg_put_counts:
  assumes inv: "reg_inv r" and wf: "plan_wf (rc_id rc) pl" and gs: "rc_groups rc = map (gp_id \<circ> fst) pl"
    and new: "new_ids r (rc_id rc) (file_puts pl)"
  shows "snd (unlocked_deregister (put_file r rc (file_puts pl)) rc) =
    (length (concat (map snd pl)), length (concat (map snd (concat (map snd pl)))))"
proof -
  let ?r = "put_file r rc (file_puts pl)"
  have ok: "reg_ok ?r" by (rule put_file_ok [OF reg_invD(1) [OF inv] wf gs new])
  note L = put_file_lookup [OF reg_invD(3) [OF inv] new]
  have m: "map_of (re_recurfiles ?r) (rc_id rc) = Some rc" by (simp add: L)
  have "reg_links_ok ?r" using ok by (simp add: reg_ok_def)
  then have "distinct (rc_groups rc)" by (rule links_recurfile(2) [OF _ m])
  then have d: "distinct (map gp_id (map fst pl))" unfolding gs by simp
  have e: "rc_groups rc = map gp_id (map fst pl)" by (simp add: gs)
  have "foldl drop_group (?r, 0, 0) (rc_groups rc) =
      (foldl del1 ?r (concat (map group_dels (map fst pl))),
       0 + length (concat (map gp_trigger_ids (map fst pl))), 0 + length (concat (map gp_action_ids (map fst pl))))"
    unfolding e by (rule drop_groups [OF d]) (auto simp: L file_puts_mem)
  moreover have "length (concat (map gp_trigger_ids (map fst pl))) = length (concat (map snd pl))"
    "length (concat (map gp_action_ids (map fst pl))) = length (concat (map snd (concat (map snd pl))))"
    using plan_wfD(2,3) [OF wf] by (induction pl) (auto simp: plan_wf_def)
  ultimately show ?thesis by (simp add: unlocked_deregister_def)
qed

lemma register_counts:
  "rr_trigger_count (snd (register_recurfile env inp r f)) = length (concat (map snd (the_plan env inp f)))"
  "rr_action_count (snd (register_recurfile env inp r f)) =
     length (concat (map snd (concat (map snd (the_plan env inp f)))))"
  by (simp_all add: register_recurfile_def register_resolved_def Let_def register_groups the_plan_def
      file_wid_def file_path_def split_beta)

text \<open>
  C5: deregistration undoes registration. After registering a file that was not registered,
  deregistering it by its identifier returns the recurfile with the counts that registration
  reported, and leaves every recurfile, group, trigger and action, and the references of the
  index, as they were before.
\<close>

theorem deregister_undoes_register:
  assumes "reg_inv r" "ids_fresh env inp r f" "old_recurfile env r (file_path env f) = None"
  shows "let (r1, res) = register_recurfile env inp r f;
             (out, r2) = deregister_recurfile r1 (rr_recurfile_id res)
    in out = Inr (the_recurfile env inp f, rr_trigger_count res, rr_action_count res) \<and>
       map_of (re_recurfiles r2) = map_of (re_recurfiles r) \<and> map_of (re_groups r2) = map_of (re_groups r) \<and>
       map_of (re_triggers r2) = map_of (re_triggers r) \<and> map_of (re_actions r2) = map_of (re_actions r) \<and>
       ix_refs (re_index r2) = ix_refs (re_index r)"
proof -
  let ?rc = "the_recurfile env inp f" and ?pl = "the_plan env inp f"
  obtain r1 res where reg: "register_recurfile env inp r f = (r1, res)" by (cases "register_recurfile env inp r f")
  have b: "base_registry env r (file_path env f) = r" using assms(3) by (simp add: base_registry_def)
  have r1: "r1 = put_file r ?rc (file_puts ?pl)" using register_put [of env inp r f] by (simp add: reg b)
  have wf: "plan_wf (rc_id ?rc) ?pl" by (simp add: the_recurfile_def the_plan_def file_plan_wf)
  have gs: "rc_groups ?rc = map (gp_id \<circ> fst) ?pl" and wid: "rc_id ?rc = file_wid env f"
    by (simp_all add: the_recurfile_def)
  have new: "new_ids r (rc_id ?rc) (file_puts ?pl)" using assms(2) by (simp add: ids_fresh_def b wid)
  have rid: "rr_recurfile_id res = file_wid env f"
    using reg by (auto simp: register_recurfile_def register_resolved_def Let_def file_wid_def file_path_def split: prod.splits)
  have inv1: "reg_inv r1" using register_inv [OF assms(1,2)] by (simp add: reg)
  have m: "map_of (re_recurfiles r1) (file_wid env f) = Some ?rc" by (simp add: r1 put_file_def wid)
  obtain r2 tn an where u: "unlocked_deregister r1 ?rc = (r2, tn, an)" by (cases "unlocked_deregister r1 ?rc")
  note d = dereg_put_file [OF assms(1) wf gs new u [unfolded r1]]
  have "(tn, an) = (rr_trigger_count res, rr_action_count res)"
    using dereg_put_counts [OF assms(1) wf gs new] u register_counts [of env inp r f] by (simp add: r1 reg)
  with d show ?thesis by (simp add: reg rid deregister_by_id [OF inv1 m] u)
qed

theorem deregister_undoes_register_witness:
  "ix_refs (re_index (snd (deregister_recurfile (fst (register_recurfile sample_env sample_inp new_registry sample_rf))
     (rr_recurfile_id (snd (register_recurfile sample_env sample_inp new_registry sample_rf)))))) = []"
proof -
  have o: "old_recurfile sample_env new_registry (file_path sample_env sample_rf) = None"
    by (simp add: old_recurfile_def new_registry_def amap_vals_def)
  have "ix_refs (re_index new_registry) = []"
    by (simp add: new_registry_def new_entity_index_def ix_refs_def live_ix_def)
  with deregister_undoes_register [OF new_registry_inv sample_fresh o] show ?thesis
    by (simp add: Let_def split_beta)
qed

text \<open>
  C12: \<open>GetActionsForTrigger\<close>, which walks the group of the trigger, finds exactly the
  registered actions that name the trigger, so it agrees with the scan over all actions that
  \<open>triggerActionIDs\<close> makes; for an unknown trigger both are empty.
\<close>

theorem get_actions_for_trigger_complete:
  assumes "reg_inv r"
  shows "set (get_actions_for_trigger r tid) = {a \<in> set (list_actions r). ac_trigger_id a = tid} \<and>
    set (trigger_action_ids r tid) = ac_id ` set (get_actions_for_trigger r tid)"
proof -
  note L = reg_invD(2) [OF assms]
  have la: "a \<in> set (list_actions r) \<longleftrightarrow> map_of (re_actions r) (ac_id a) = Some a" for a
  proof
    assume "a \<in> set (list_actions r)"
    then obtain k where "(k, a) \<in> set (re_actions r)" by (auto simp: list_actions_def amap_vals_def)
    then have k: "map_of (re_actions r) k = Some a" using amap_in_iff [OF reg_invD(7) [OF assms]] by blast
    with links_action(1) [OF L k] show "map_of (re_actions r) (ac_id a) = Some a" by simp
  next
    assume "map_of (re_actions r) (ac_id a) = Some a"
    then have "(ac_id a, a) \<in> set (re_actions r)" by (rule map_of_SomeD)
    then show "a \<in> set (list_actions r)" by (force simp: list_actions_def amap_vals_def)
  qed
  have mf: "set (List.map_filter f xs) = {y. \<exists>x \<in> set xs. f x = Some y}" for f :: "string \<Rightarrow> action option" and xs
    by (induction xs) (auto simp: List.map_filter_simps split: option.splits)
  have "a \<in> set (get_actions_for_trigger r tid) \<longleftrightarrow> a \<in> set (list_actions r) \<and> ac_trigger_id a = tid" for a
  proof
    assume "a \<in> set (get_actions_for_trigger r tid)"
    then obtain aid where aid: "map_of (re_actions r) aid = Some a" "ac_trigger_id a = tid"
      by (auto simp: get_actions_for_trigger_def mf split: option.splits)
    with links_action(1) [OF L aid(1)] show "a \<in> set (list_actions r) \<and> ac_trigger_id a = tid" by (simp add: la)
  next
    assume a: "a \<in> set (list_actions r) \<and> ac_trigger_id a = tid"
    then have k: "map_of (re_actions r) (ac_id a) = Some a" by (simp add: la)
    from links_action(2,3) [OF L k] a obtain g t where
      "map_of (re_groups r) (ac_group_id a) = Some g" "ac_id a \<in> set (gp_action_ids g)"
      "map_of (re_triggers r) tid = Some t" "tr_group_id t = ac_group_id a" by blast
    with a k show "a \<in> set (get_actions_for_trigger r tid)"
      by (auto simp: get_actions_for_trigger_def mf)
  qed
  then have e: "set (get_actions_for_trigger r tid) = {a \<in> set (list_actions r). ac_trigger_id a = tid}" by blast
  show ?thesis unfolding e by (auto simp: trigger_action_ids_def list_actions_def)
qed

theorem get_actions_for_trigger_complete_witness:
  "set (get_actions_for_trigger sample_reg ''322a174e96db'') =
     {a \<in> set (list_actions sample_reg). ac_trigger_id a = ''322a174e96db''}"
  using get_actions_for_trigger_complete [OF sample_reg_inv, of "''322a174e96db''"] by blast

text \<open>
  suspending a plugin suspends every trigger and action of that plugin and changes nothing
  else; it reports exactly the triggers and actions that were not suspended yet, so a second
  call reports none.
\<close>

theorem suspend_by_plugin_exact:
  "let ((ts, as), r') = suspend_by_plugin_id r pid in
     map_of (re_triggers r') tid =
       map_option (\<lambda>t. if tr_plugin_id t = pid then t\<lparr>tr_status := st_suspended\<rparr> else t) (map_of (re_triggers r) tid) \<and>
     map_of (re_actions r') aid =
       map_option (\<lambda>a. if ac_plugin_id a = pid then a\<lparr>ac_status := st_suspended\<rparr> else a) (map_of (re_actions r) aid) \<and>
     re_recurfiles r' = re_recurfiles r \<and> re_groups r' = re_groups r \<and> re_index r' = re_index r \<and>
     set ts = tr_id ` {t \<in> set (list_triggers r). tr_plugin_id t = pid \<and> tr_status t \<noteq> st_suspended} \<and>
     set as = ac_id ` {a \<in> set (list_actions r). ac_plugin_id a = pid \<and> ac_status a \<noteq> st_suspended} \<and>
     fst (suspend_by_plugin_id r' pid) = ([], [])"
proof -
  have t: "(if tr_plugin_id t = pid \<and> tr_status t \<noteq> st_suspended then t\<lparr>tr_status := st_suspended\<rparr> else t) =
      (if tr_plugin_id t = pid then t\<lparr>tr_status := st_suspended\<rparr> else t)" for t :: trigger
    by (cases t) simp
  have a: "(if ac_plugin_id a = pid \<and> ac_status a \<noteq> st_suspended then a\<lparr>ac_status := st_suspended\<rparr> else a) =
      (if ac_plugin_id a = pid then a\<lparr>ac_status := st_suspended\<rparr> else a)" for a :: action
    by (cases a) simp
  show ?thesis
    unfolding suspend_by_plugin_id_def Let_def prod.case t a
    by (simp add: filter_empty_conv) (auto simp: list_triggers_def list_actions_def amap_vals_def amap_map_def)
qed

text \<open>
  suspending and resuming. A trigger found by an identifier gets the new status and keeps
  every other field, no other trigger changes, the answer names the trigger and tells whether
  it had that status already, and asking again tells that it has; an identifier that finds no
  trigger is an error that changes nothing.
\<close>

theorem change_trigger_effect:
  assumes "reg_inv r"
  shows "(case change_trigger s r ident of
      (Inl e, r') \<Rightarrow> find_trigger r ident = None \<and> e = ''trigger not found: '' @ ident \<and> r' = r
    | (Inr (tid, ty, was), r') \<Rightarrow>
        (\<exists>t. find_trigger r ident = Some t \<and> get_trigger r tid = Some t \<and> tr_id t = tid \<and> tr_type t = ty \<and>
           was = (tr_status t = s) \<and>
           get_trigger r' k = (if k = tid then Some (t\<lparr>tr_status := s\<rparr>) else get_trigger r k)) \<and>
        re_actions r' = re_actions r \<and> re_index r' = re_index r \<and>
        fst (change_trigger s r' ident) = Inr (tid, ty, True))"
proof (cases "find_entity_by_type r ident ''trigger''")
  case None
  then show ?thesis by (simp add: change_trigger_def find_trigger_def find_in_def)
next
  case (Some x)
  show ?thesis
  proof (cases "map_of (re_triggers r) (er_id x)")
    case None
    with Some show ?thesis by (simp add: change_trigger_def find_trigger_def find_in_def)
  next
    case t: (Some t)
    have tid: "tr_id t = er_id x" by (rule links_trigger(1) [OF reg_invD(2) [OF assms] t])
    have again: "find_entity_by_type (set_trigger_status r (er_id x) s) ident ''trigger'' = Some x"
      using Some by (simp add: find_entity_by_type_def resolve_entity_def set_trigger_status_def)
    show ?thesis
      using Some t tid again
      by (simp add: change_trigger_def find_trigger_def find_in_def get_trigger_def)
        (simp add: set_trigger_status_def option.map_ident)
  qed
qed

lemma resolve_by_id:
  assumes inv: "reg_inv r" and k: "k \<in> ref_ids r ty"
  shows "\<exists>x. find_entity_by_type r k ty = Some x \<and> er_id x = k"
proof -
  from k obtain x where x: "x \<in> set (ix_refs (re_index r))" "er_type x = ty" "er_id x = k"
    by (auto simp: ref_ids_def)
  have "ix_lookup (re_index r) k = [x]" using eix.look_id [OF reg_invD(8) [OF inv] x(1)] x(3) by simp
  with x show ?thesis by (simp add: find_entity_by_type_def resolve_entity_def)
qed

lemma find_trigger_by_id:
  assumes "reg_inv r" "get_trigger r k = Some t"
  shows "find_trigger r k = Some t"
proof -
  have "k \<in> ref_ids r ''trigger''" using assms reg_invD(3) by (auto simp: reg_index_ok_def get_trigger_def)
  with resolve_by_id [OF assms(1)] assms(2) show ?thesis
    by (fastforce simp: find_trigger_def find_in_def get_trigger_def)
qed

lemma find_action_by_id:
  assumes "reg_inv r" "get_action r k = Some a"
  shows "find_action r k = Some a"
proof -
  have "k \<in> ref_ids r ''action''" using assms reg_invD(3) by (auto simp: reg_index_ok_def get_action_def)
  with resolve_by_id [OF assms(1)] assms(2) show ?thesis
    by (fastforce simp: find_action_def find_in_def get_action_def)
qed

text \<open>The entities of the sample registry.\<close>

lemma sample_puts:
  "\<exists>t a g. file_puts (the_plan sample_env sample_inp sample_rf) = [PutT t, PutA a, PutG g] \<and>
     tr_id t = ''322a174e96db'' \<and> tr_type t = ''t'' \<and> tr_status t = st_active \<and> tr_recurfile_id t = ''45df806c8715'' \<and>
     tr_last_fired t = 0 \<and> ac_id a = ''807e66392855'' \<and> ac_type a = ''a'' \<and> ac_status a = st_active \<and> ac_trigger_id a = ''322a174e96db'' \<and>
     ac_plugin_id a = []"
  unfolding the_plan_def sample_wid' sample_path
  by (simp add: sample_rf_def resolve_def resolve_group_def resolve_trigger_def Let_def expand_alias_def
     file_plan_def plan_group_def plan_trigger_def plan_actions_def make_trigger_def make_action_def file_puts_def
     group_puts_def trigger_puts_def occ_def sample_ids merge_aliases_def put_all_def sample_inp_def
     resolve_plugin_for_action_def)

lemma sample_entities:
  "\<exists>t a. get_trigger sample_reg ''322a174e96db'' = Some t \<and> tr_id t = ''322a174e96db'' \<and> tr_type t = ''t'' \<and>
     tr_status t = st_active \<and> tr_recurfile_id t = ''45df806c8715'' \<and> tr_last_fired t = 0 \<and>
     get_action sample_reg ''807e66392855'' = Some a \<and> ac_id a = ''807e66392855'' \<and> ac_type a = ''a'' \<and>
     ac_status a = st_active \<and> ac_trigger_id a = ''322a174e96db'' \<and> ac_plugin_id a = []"
proof -
  let ?b = "base_registry sample_env new_registry (file_path sample_env sample_rf)"
  have ix: "reg_index_ok ?b" by (rule reg_invD(3) [OF base_registry_inv [OF new_registry_inv]])
  have "new_ids ?b (rc_id (the_recurfile sample_env sample_inp sample_rf))
      (file_puts (the_plan sample_env sample_inp sample_rf))"
    using sample_fresh by (simp add: ids_fresh_def the_recurfile_def)
  note L = put_file_lookup(3,4) [OF ix this, folded register_put sample_reg_def]
  from sample_puts obtain t a g where
    "file_puts (the_plan sample_env sample_inp sample_rf) = [PutT t, PutA a, PutG g]"
    and "tr_id t = ''322a174e96db'' \<and> tr_type t = ''t'' \<and> tr_status t = st_active \<and> tr_recurfile_id t = ''45df806c8715'' \<and>
     tr_last_fired t = 0 \<and> ac_id a = ''807e66392855'' \<and> ac_type a = ''a'' \<and> ac_status a = st_active \<and> ac_trigger_id a = ''322a174e96db'' \<and>
     ac_plugin_id a = []" by blast
  with L(1) [of "''322a174e96db''" t] L(2) [of "''807e66392855''" a]
  show ?thesis by (auto simp: get_trigger_def get_action_def)
qed

theorem change_trigger_effect_witness:
  "fst (suspend_trigger sample_reg ''322a174e96db'') = Inr (''322a174e96db'', ''t'', False) \<and>
   fst (suspend_trigger (snd (suspend_trigger sample_reg ''322a174e96db'')) ''322a174e96db'') = Inr (''322a174e96db'', ''t'', True)"
proof -
  from sample_entities obtain t where t: "get_trigger sample_reg ''322a174e96db'' = Some t"
    "tr_id t = ''322a174e96db''" "tr_type t = ''t''" "tr_status t = st_active" by blast
  note f = find_trigger_by_id [OF sample_reg_inv t(1)]
  obtain out r' where o: "suspend_trigger sample_reg ''322a174e96db'' = (out, r')"
    by (cases "suspend_trigger sample_reg ''322a174e96db''")
  note c = change_trigger_effect [OF sample_reg_inv, where s = st_suspended and ident = "''322a174e96db''" and k = "[]",
      folded suspend_trigger_def, unfolded o]
  show ?thesis
  proof (cases out)
    case (Inl e)
    with c f show ?thesis by simp
  next
    case (Inr p)
    with c f t o show ?thesis by (cases p) auto
  qed
qed

end
