(* ===== verification/Engine.thy ===== *)
theory Engine
  imports Registry_Props
begin

text \<open>
  The trigger engine (\<open>triggerengine/engine.go\<close>, \<open>router.go\<close>): activation of drivers, debouncing,
  and the four concurrency modes. Its goroutines are the dispatch loop of each active
  trigger, the callbacks of debounce timers, the workers that run \<open>handleEvent\<close>, and
  dispatchers that wait for an aborted worker. A step is what one of them does between two
  points where it can block; \<open>engine_step\<close> computes it. An \<open>activeTrigger\<close> is a slot of the heap
  \<open>en_slots\<close>: goroutines keep its address after it has left the \<open>active\<close> map. The registry is
  seen through the lookup given to each step.
\<close>

record event =
  te_type :: string
  te_context :: "(string, string) amap"

section \<open>Handling an event\<close>

text \<open>
  \<open>handleEvent\<close>. The state \<open>'s\<close> is the registry with whatever the executor touches;
  \<open>exec\<close> is the executor callback and \<open>fired\<close> sets \<open>LastFired\<close>.
\<close>

definition event_vars :: "nat \<Rightarrow> event \<Rightarrow> (string, string) amap" where
  "event_vars now ev =
     AList.update ''TriggerType'' (te_type ev)
       (AList.update ''TriggeredOn'' (rfc3339_format now) (put_all [] (te_context ev)))"

definition trigger_active :: "trigger option \<Rightarrow> bool" where
  "trigger_active t = (case t of None \<Rightarrow> False | Some t \<Rightarrow> tr_status t = st_active)"

definition handle_event :: "('s \<Rightarrow> string \<Rightarrow> trigger option) \<Rightarrow> ('s \<Rightarrow> string \<Rightarrow> action list) \<Rightarrow>
    ('s \<Rightarrow> string \<Rightarrow> nat \<Rightarrow> 's) \<Rightarrow> ('s \<Rightarrow> action \<Rightarrow> (string, string) amap \<Rightarrow> 's) \<Rightarrow> ('s \<Rightarrow> 's) \<Rightarrow>
    nat \<Rightarrow> string \<Rightarrow> event \<Rightarrow> 's \<Rightarrow> 's" where
  "handle_event get_trig get_acts fired exec on_fired now tid ev s =
     (if \<not> trigger_active (get_trig s tid) then s
      else
        let s1 = fired s tid now;
            s2 = foldl (\<lambda>s a. if ac_status a = st_active then exec s a (event_vars now ev) else s) s1 (get_acts s1 tid)
        in on_fired s2)"

section \<open>The state\<close>

record slot =
  sl_tid :: string
  sl_running :: bool
  sl_queue :: "event list"
  sl_timer :: "nat option"
  sl_callbacks :: "nat list"
  sl_pending :: "event option"
  sl_abort :: "nat option"
  sl_cancelled :: bool

text \<open>
  \<open>sl_timer\<close> is the armed debounce timer and \<open>sl_callbacks\<close> the expired timers whose callback
  has not run yet, each with the slot whose context its closure captured. \<open>sl_abort\<close> stands for
  \<open>abortCancel\<close> and \<open>abortDone\<close>, which are set together: the worker they belong to.
\<close>

definition new_slot :: "string \<Rightarrow> slot" where
  "new_slot tid = \<lparr>sl_tid = tid, sl_running = False, sl_queue = [], sl_timer = None, sl_callbacks = [],
     sl_pending = None, sl_abort = None, sl_cancelled = False\<rparr>"

datatype wmode = Parallel | Drop | Abort | Queue

record worker =
  wk_id :: nat
  wk_slot :: nat
  wk_ctx :: nat
  wk_mode :: wmode
  wk_event :: event
  wk_begun :: bool
  wk_aborted :: bool

record waiter =
  wt_slot :: nat
  wt_ctx :: nat
  wt_event :: event
  wt_for :: nat
  wt_loop :: "nat option"

text \<open>
  \<open>en_lock\<close> is the worker a \<open>Deactivate\<close> waits for while it holds the engine's mutex;
  \<open>en_accepted\<close> and \<open>en_begun\<close> record what the code does not: the events a slot accepted for
  exclusive handling and those whose handling began, in order.
\<close>

record engine =
  en_active :: "(string, nat) amap"
  en_slots :: "slot list"
  en_loops :: "nat list"
  en_workers :: "worker list"
  en_waiters :: "waiter list"
  en_next :: nat
  en_stopped :: bool
  en_lock :: "nat option"
  en_accepted :: "(nat \<times> event) list"
  en_begun :: "(nat \<times> event) list"

definition new_engine :: engine where
  "new_engine = \<lparr>en_active = [], en_slots = [], en_loops = [], en_workers = [], en_waiters = [],
     en_next = 0, en_stopped = False, en_lock = None, en_accepted = [], en_begun = []\<rparr>"

datatype outcome = Disabled | Panic | Next engine

definition upd_slot :: "nat \<Rightarrow> (slot \<Rightarrow> slot) \<Rightarrow> engine \<Rightarrow> engine" where
  "upd_slot i f e = e\<lparr>en_slots := (en_slots e)[i := f (en_slots e ! i)]\<rparr>"

section \<open>Dispatching\<close>

text \<open>\<open>go func() { ... }()\<close>: a new worker on slot \<open>i\<close> under the context of slot \<open>c\<close>.\<close>

definition spawn :: "nat \<Rightarrow> nat \<Rightarrow> wmode \<Rightarrow> event \<Rightarrow> engine \<Rightarrow> engine" where
  "spawn i c m ev e = e\<lparr>en_workers := en_workers e @ [\<lparr>wk_id = en_next e, wk_slot = i, wk_ctx = c, wk_mode = m,
       wk_event = ev, wk_begun = False, wk_aborted = False\<rparr>],
     en_next := Suc (en_next e)\<rparr>"

definition accept :: "nat \<Rightarrow> event \<Rightarrow> engine \<Rightarrow> engine" where
  "accept i ev e = e\<lparr>en_accepted := en_accepted e @ [(i, ev)]\<rparr>"

definition start_exclusive :: "nat \<Rightarrow> nat \<Rightarrow> wmode \<Rightarrow> event \<Rightarrow> engine \<Rightarrow> engine" where
  "start_exclusive i c m ev e = accept i ev (spawn i c m ev (upd_slot i (\<lambda>s. s\<lparr>sl_running := True\<rparr>) e))"

definition start_abort :: "nat \<Rightarrow> nat \<Rightarrow> event \<Rightarrow> engine \<Rightarrow> engine" where
  "start_abort i c ev e =
     spawn i c Abort ev (upd_slot i (\<lambda>s. s\<lparr>sl_running := True, sl_abort := Some (en_next e)\<rparr>) e)"

definition abort_worker :: "nat \<Rightarrow> engine \<Rightarrow> engine" where
  "abort_worker w e = e\<lparr>en_workers := map (\<lambda>x. if wk_id x = w then x\<lparr>wk_aborted := True\<rparr> else x) (en_workers e)\<rparr>"

definition effective_max_queue :: "int \<Rightarrow> nat" where
  "effective_max_queue q = (if q \<le> 0 then 100 else nat q)"

definition enqueue_and_drain :: "nat \<Rightarrow> nat \<Rightarrow> int \<Rightarrow> event \<Rightarrow> engine \<Rightarrow> engine" where
  "enqueue_and_drain i c q ev e =
     (let s = en_slots e ! i in
      if sl_running s then
        if effective_max_queue q \<le> length (sl_queue s) then e
        else accept i ev (upd_slot i (\<lambda>s. s\<lparr>sl_queue := sl_queue s @ [ev]\<rparr>) e)
      else start_exclusive i c Queue ev e)"

text \<open>
  \<open>dispatchWithConcurrency\<close>; \<open>loop\<close> is the dispatch loop that calls it, if one does. In abort mode
  with a running worker it cancels that worker and then waits; calling a nil \<open>abortCancel\<close> panics.
\<close>

definition dispatch :: "trigger option \<Rightarrow> nat \<Rightarrow> nat \<Rightarrow> nat option \<Rightarrow> event \<Rightarrow> engine \<Rightarrow> outcome" where
  "dispatch current i c loop ev e =
     (case current of
        None \<Rightarrow> Next e
      | Some t \<Rightarrow>
          if tr_status t \<noteq> st_active then Next e
          else if tr_concurrency_mode t = ''parallel'' then Next (spawn i c Parallel ev e)
          else if tr_concurrency_mode t = ''drop'' then
            (if sl_running (en_slots e ! i) then Next e else Next (start_exclusive i c Drop ev e))
          else if tr_concurrency_mode t = ''abort'' then
            (if sl_running (en_slots e ! i) then
               (case sl_abort (en_slots e ! i) of
                  None \<Rightarrow> Panic
                | Some w \<Rightarrow> Next ((abort_worker w e)\<lparr>en_waiters := en_waiters e @
                    [\<lparr>wt_slot = i, wt_ctx = c, wt_event = ev, wt_for = w, wt_loop = loop\<rparr>]\<rparr>))
             else Next (start_abort i c ev e))
          else Next (enqueue_and_drain i c (tr_max_queue_size t) ev e))"

definition submit_event :: "(string \<Rightarrow> trigger option) \<Rightarrow> nat \<Rightarrow> string \<Rightarrow> event \<Rightarrow> engine \<Rightarrow> outcome" where
  "submit_event lk l tid ev e =
     (case lk tid of
        None \<Rightarrow> Next e
      | Some t \<Rightarrow>
          if tr_status t \<noteq> st_active then Next e
          else if en_lock e \<noteq> None then Disabled
          else case map_of (en_active e) tid of
            None \<Rightarrow> Next e
          | Some i \<Rightarrow>
              if 0 < tr_debounce t then
                Next (upd_slot i (\<lambda>s. s\<lparr>sl_pending := Some ev, sl_timer := Some l\<rparr>) e)
              else dispatch (lk tid) i l (Some l) ev e)"

section \<open>Life cycle\<close>

text \<open>
  The first factory that handles the trigger type gives the driver; \<open>start\<close> is \<open>driver.Start()\<close>,
  an error or nothing.
\<close>

fun pick_driver :: "(trigger \<Rightarrow> string + 'd option) list \<Rightarrow> trigger \<Rightarrow> string + 'd" where
  "pick_driver [] t = Inl (''no plugin found for trigger type '' @ go_quote (tr_type t))"
| "pick_driver (f # fs) t =
     (case f t of
        Inl err \<Rightarrow> Inl (''plugin error for trigger type '' @ tr_type t @ '': '' @ err)
      | Inr (Some d) \<Rightarrow> Inr d
      | Inr None \<Rightarrow> pick_driver fs t)"

definition activate :: "(trigger \<Rightarrow> string + 'd option) list \<Rightarrow> ('d \<Rightarrow> string option) \<Rightarrow> trigger \<Rightarrow> engine \<Rightarrow>
    string option \<times> engine" where
  "activate fs start t e =
     (if en_stopped e then (Some ''engine is stopped'', e)
      else if map_of (en_active e) (tr_id t) \<noteq> None then (None, e)
      else case pick_driver fs t of
        Inl err \<Rightarrow> (Some err, e)
      | Inr d \<Rightarrow>
          (case start d of
             Some err \<Rightarrow> (Some (''failed to start plugin for trigger type '' @ tr_type t @ '': '' @ err), e)
           | None \<Rightarrow>
               (None, e\<lparr>en_slots := en_slots e @ [new_slot (tr_id t)],
                        en_active := AList.update (tr_id t) (length (en_slots e)) (en_active e),
                        en_loops := en_loops e @ [length (en_slots e)]\<rparr>)))"

definition deactivate :: "string \<Rightarrow> engine \<Rightarrow> engine" where
  "deactivate tid e =
     (case map_of (en_active e) tid of
        None \<Rightarrow> e
      | Some i \<Rightarrow>
          (upd_slot i (\<lambda>s. s\<lparr>sl_timer := None, sl_cancelled := True\<rparr>) e)
            \<lparr>en_active := AList.delete tid (en_active e), en_lock := sl_abort (en_slots e ! i)\<rparr>)"

definition stop_all :: "engine \<Rightarrow> engine" where
  "stop_all e = (foldl (\<lambda>e i. upd_slot i (\<lambda>s. s\<lparr>sl_cancelled := True\<rparr>) e) e (amap_vals (en_active e)))
     \<lparr>en_active := [], en_stopped := True\<rparr>"

section \<open>Steps\<close>

datatype engine_ev =
    Activate trigger | Deactivate string | Stop_All | Release
  | Receive nat event | Closed nat | Loop_Done nat
  | Timer nat | Callback nat nat
  | Begin nat | Finish nat | Wake nat

definition loop_waits :: "engine \<Rightarrow> nat \<Rightarrow> bool" where
  "loop_waits e l = list_ex (\<lambda>w. wt_loop w = Some l) (en_waiters e)"

definition find_worker :: "engine \<Rightarrow> nat \<Rightarrow> worker option" where
  "find_worker e w = find (\<lambda>x. wk_id x = w) (en_workers e)"

definition worker_done :: "engine \<Rightarrow> nat \<Rightarrow> engine" where
  "worker_done e w = e\<lparr>en_workers := filter (\<lambda>x. wk_id x \<noteq> w) (en_workers e)\<rparr>"

definition set_worker :: "engine \<Rightarrow> worker \<Rightarrow> engine" where
  "set_worker e x = e\<lparr>en_workers := map (\<lambda>y. if wk_id y = wk_id x then x else y) (en_workers e)\<rparr>"

definition drop_nth :: "nat \<Rightarrow> 'a list \<Rightarrow> 'a list" where
  "drop_nth n xs = take n xs @ drop (Suc n) xs"

definition exclusive :: "wmode \<Rightarrow> bool" where
  "exclusive m \<longleftrightarrow> m = Drop \<or> m = Queue"

text \<open>What the goroutine of a worker does when \<open>handleEvent\<close> returns.\<close>

definition finish_worker :: "worker \<Rightarrow> engine \<Rightarrow> engine" where
  "finish_worker x e =
     (let i = wk_slot x in
      case wk_mode x of
        Parallel \<Rightarrow> worker_done e (wk_id x)
      | Drop \<Rightarrow> worker_done (upd_slot i (\<lambda>s. s\<lparr>sl_running := False\<rparr>) e) (wk_id x)
      | Abort \<Rightarrow> worker_done (upd_slot i (\<lambda>s. s\<lparr>sl_running := False, sl_abort := None\<rparr>) e) (wk_id x)
      | Queue \<Rightarrow>
          (case sl_queue (en_slots e ! i) of
             [] \<Rightarrow> worker_done (upd_slot i (\<lambda>s. s\<lparr>sl_running := False\<rparr>) e) (wk_id x)
           | ev # rest \<Rightarrow>
               set_worker (upd_slot i (\<lambda>s. s\<lparr>sl_queue := rest\<rparr>) e) (x\<lparr>wk_event := ev, wk_begun := False\<rparr>)))"

definition begin_worker :: "worker \<Rightarrow> engine \<Rightarrow> engine" where
  "begin_worker x e =
     (let e1 = set_worker e (x\<lparr>wk_begun := True\<rparr>) in
      if exclusive (wk_mode x) then e1\<lparr>en_begun := en_begun e @ [(wk_slot x, wk_event x)]\<rparr> else e1)"

fun engine_step :: "(string \<Rightarrow> trigger option) \<Rightarrow> (trigger \<Rightarrow> string + 'd option) list \<Rightarrow> ('d \<Rightarrow> string option) \<Rightarrow>
    engine \<Rightarrow> engine_ev \<Rightarrow> outcome" where
  "engine_step lk fs start e (Activate t) =
     (if en_lock e \<noteq> None then Disabled else Next (snd (activate fs start t e)))"
| "engine_step lk fs start e (Deactivate tid) = (if en_lock e \<noteq> None then Disabled else Next (deactivate tid e))"
| "engine_step lk fs start e Stop_All = (if en_lock e \<noteq> None then Disabled else Next (stop_all e))"
| "engine_step lk fs start e Release =
     (case en_lock e of
        None \<Rightarrow> Disabled
      | Some w \<Rightarrow> if find_worker e w = None then Next (e\<lparr>en_lock := None\<rparr>) else Disabled)"
| "engine_step lk fs start e (Receive l ev) =
     (if l \<in> set (en_loops e) \<and> \<not> loop_waits e l then submit_event lk l (sl_tid (en_slots e ! l)) ev e else Disabled)"
| "engine_step lk fs start e (Closed l) =
     (if l \<in> set (en_loops e) \<and> \<not> loop_waits e l then Next (e\<lparr>en_loops := removeAll l (en_loops e)\<rparr>) else Disabled)"
| "engine_step lk fs start e (Loop_Done l) =
     (if l \<in> set (en_loops e) \<and> \<not> loop_waits e l \<and> sl_cancelled (en_slots e ! l)
      then Next (e\<lparr>en_loops := removeAll l (en_loops e)\<rparr>) else Disabled)"
| "engine_step lk fs start e (Timer i) =
     (if i < length (en_slots e) then
        (case sl_timer (en_slots e ! i) of
           None \<Rightarrow> Disabled
         | Some c \<Rightarrow> Next (upd_slot i (\<lambda>s. s\<lparr>sl_timer := None, sl_callbacks := sl_callbacks s @ [c]\<rparr>) e))
      else Disabled)"
| "engine_step lk fs start e (Callback i n) =
     (if i < length (en_slots e) \<and> n < length (sl_callbacks (en_slots e ! i)) then
        (let s = en_slots e ! i;
             c = sl_callbacks s ! n;
             e1 = upd_slot i (\<lambda>s. s\<lparr>sl_pending := None, sl_callbacks := drop_nth n (sl_callbacks s)\<rparr>) e
         in case sl_pending s of
              None \<Rightarrow> Next e1
            | Some ev \<Rightarrow> dispatch (lk (sl_tid s)) i c None ev e1)
      else Disabled)"
| "engine_step lk fs start e (Begin w) =
     (case find_worker e w of
        None \<Rightarrow> Disabled
      | Some x \<Rightarrow> if wk_begun x then Disabled else Next (begin_worker x e))"
| "engine_step lk fs start e (Finish w) =
     (case find_worker e w of
        None \<Rightarrow> Disabled
      | Some x \<Rightarrow> if wk_begun x then Next (finish_worker x e) else Disabled)"
| "engine_step lk fs start e (Wake n) =
     (if n < length (en_waiters e) \<and> find_worker e (wt_for (en_waiters e ! n)) = None then
        (let w = en_waiters e ! n
         in Next (start_abort (wt_slot w) (wt_ctx w) (wt_event w) (e\<lparr>en_waiters := drop_nth n (en_waiters e)\<rparr>)))
      else Disabled)"

end
