(* ===== verification/Engine_Facts.thy ===== *)
theory Engine_Facts
  imports Engine
begin

text \<open>
  The engine's guarantees for the modes \<open>drop\<close>, \<open>queue\<close> and \<open>parallel\<close>: a trigger has at most one
  exclusive worker, its queue is bounded, and accepted events are handled in order, each once.
\<close>

section \<open>Views of the state\<close>

definition ex_workers :: "engine \<Rightarrow> nat \<Rightarrow> worker list" where
  "ex_workers e i = filter (\<lambda>x. exclusive (wk_mode x) \<and> wk_slot x = i) (en_workers e)"

definition pending_events :: "engine \<Rightarrow> nat \<Rightarrow> event list" where
  "pending_events e i = map wk_event (filter (\<lambda>x. \<not> wk_begun x) (ex_workers e i))"

definition of_slot :: "nat \<Rightarrow> (nat \<times> event) list \<Rightarrow> event list" where
  "of_slot i xs = map snd (filter (\<lambda>p. fst p = i) xs)"

lemma of_slot_simps [simp]:
  "of_slot i [] = []" "of_slot i (xs @ ys) = of_slot i xs @ of_slot i ys"
  "of_slot i [(j, ev)] = (if j = i then [ev] else [])"
  by (simp_all add: of_slot_def)

definition slot_ok :: "nat \<Rightarrow> (string \<Rightarrow> bool) \<Rightarrow> engine \<Rightarrow> nat \<Rightarrow> bool" where
  "slot_ok B M e i \<longleftrightarrow>
     (let s = en_slots e ! i in
      (if sl_running s then length (ex_workers e i) = 1 else ex_workers e i = [] \<and> sl_queue s = []) \<and>
      list_all (\<lambda>x. wk_mode x = (if M (sl_tid s) then Drop else Queue)) (ex_workers e i) \<and>
      (if M (sl_tid s) then sl_queue s = [] else length (sl_queue s) \<le> B) \<and> sl_abort s = None \<and>
      of_slot i (en_accepted e) = of_slot i (en_begun e) @ pending_events e i @ sl_queue s)"

definition engine_inv :: "nat \<Rightarrow> (string \<Rightarrow> bool) \<Rightarrow> engine \<Rightarrow> bool" where
  "engine_inv B M e \<longleftrightarrow>
     distinct (map wk_id (en_workers e)) \<and>
     (\<forall>x \<in> set (en_workers e). wk_id x < en_next e \<and> wk_slot x < length (en_slots e) \<and> wk_mode x \<noteq> Abort) \<and>
     (\<forall>i < length (en_slots e). slot_ok B M e i) \<and>
     (\<forall>tid i. map_of (en_active e) tid = Some i \<longrightarrow> i < length (en_slots e) \<and> sl_tid (en_slots e ! i) = tid) \<and>
     (\<forall>p \<in> set (en_accepted e) \<union> set (en_begun e). fst p < length (en_slots e)) \<and>
     en_waiters e = [] \<and> en_lock e = None"

lemma engine_invD:
  assumes "engine_inv B M e"
  shows "distinct (map wk_id (en_workers e))"
    "x \<in> set (en_workers e) \<Longrightarrow> wk_id x < en_next e"
    "x \<in> set (en_workers e) \<Longrightarrow> wk_slot x < length (en_slots e)"
    "x \<in> set (en_workers e) \<Longrightarrow> wk_mode x \<noteq> Abort"
    "i < length (en_slots e) \<Longrightarrow> slot_ok B M e i"
    "map_of (en_active e) tid = Some i \<Longrightarrow> i < length (en_slots e) \<and> sl_tid (en_slots e ! i) = tid"
    "en_waiters e = []" "en_lock e = None"
  using assms by (auto simp: engine_inv_def)

lemma new_engine_inv: "engine_inv B M new_engine"
  by (simp add: engine_inv_def new_engine_def)

section \<open>Slot updates that leave queue and worker alone\<close>

lemma upd_slot_fields [simp]:
  "en_workers (upd_slot i f e) = en_workers e" "en_waiters (upd_slot i f e) = en_waiters e"
  "en_next (upd_slot i f e) = en_next e" "en_lock (upd_slot i f e) = en_lock e"
  "en_active (upd_slot i f e) = en_active e" "en_accepted (upd_slot i f e) = en_accepted e"
  "en_begun (upd_slot i f e) = en_begun e" "en_loops (upd_slot i f e) = en_loops e"
  "length (en_slots (upd_slot i f e)) = length (en_slots e)"
  "en_stopped (upd_slot i f e) = en_stopped e"
  by (simp_all add: upd_slot_def)

lemma upd_slot_nth:
  "j < length (en_slots e) \<Longrightarrow> en_slots (upd_slot i f e) ! j = (if j = i then f (en_slots e ! i) else en_slots e ! j)"
  by (simp add: upd_slot_def nth_list_update)

lemma ex_workers_upd [simp]: "ex_workers (upd_slot i f e) = ex_workers e"
  by (simp add: ex_workers_def fun_eq_iff)

lemma pending_events_upd [simp]: "pending_events (upd_slot i f e) = pending_events e"
  by (simp add: pending_events_def fun_eq_iff)

lemma upd_slot_inv:
  assumes "engine_inv B M e"
    and "\<And>s. sl_running (f s) = sl_running s \<and> sl_queue (f s) = sl_queue s \<and> sl_abort (f s) = sl_abort s \<and> sl_tid (f s) = sl_tid s"
  shows "engine_inv B M (upd_slot i f e)"
  using assms by (simp add: engine_inv_def slot_ok_def upd_slot_nth Let_def)

section \<open>Dispatching\<close>

lemma spawn_parallel_inv:
  assumes inv: "engine_inv B M e" and "i < length (en_slots e)"
  shows "engine_inv B M (spawn i c Parallel ev e)"
proof -
  have "ex_workers (spawn i c Parallel ev e) j = ex_workers e j" for j
    by (simp add: ex_workers_def spawn_def exclusive_def)
  then have "slot_ok B M (spawn i c Parallel ev e) j = slot_ok B M e j" for j
    by (simp add: slot_ok_def pending_events_def spawn_def)
  with inv assms(2) show ?thesis
    by (auto simp: engine_inv_def spawn_def less_Suc_eq)
qed

lemma start_exclusive_inv:
  assumes inv: "engine_inv B M e" and i: "i < length (en_slots e)" and idle: "\<not> sl_running (en_slots e ! i)"
    and mode: "m = (if M (sl_tid (en_slots e ! i)) then Drop else Queue)"
  shows "engine_inv B M (start_exclusive i c m ev e)"
proof -
  let ?e = "start_exclusive i c m ev e"
  have m: "exclusive m" using mode by (simp add: exclusive_def)
  let ?x = "\<lparr>wk_id = en_next e, wk_slot = i, wk_ctx = c, wk_mode = m, wk_event = ev, wk_begun = False, wk_aborted = False\<rparr>"
  have w: "en_workers ?e = en_workers e @ [?x]" by (simp add: start_exclusive_def spawn_def accept_def)
  have ex: "ex_workers ?e j = ex_workers e j @ (if j = i then [?x] else [])" for j
    unfolding ex_workers_def w using m by simp
  have pe: "pending_events ?e j = pending_events e j @ (if j = i then [ev] else [])" for j
    unfolding pending_events_def ex by simp
  have l: "length (en_slots ?e) = length (en_slots e)" "en_next ?e = Suc (en_next e)" "en_active ?e = en_active e"
    "en_accepted ?e = en_accepted e @ [(i, ev)]" "en_begun ?e = en_begun e" "en_waiters ?e = en_waiters e"
    "en_lock ?e = en_lock e"
    by (simp_all add: start_exclusive_def spawn_def accept_def)
  have s: "en_slots ?e ! j = (if j = i then (en_slots e ! i)\<lparr>sl_running := True\<rparr> else en_slots e ! j)"
    if "j < length (en_slots e)" for j
    using that by (simp add: start_exclusive_def spawn_def accept_def upd_slot_nth)
  have "slot_ok B M ?e j" if j: "j < length (en_slots e)" for j
  proof (cases "j = i")
    case True
    with engine_invD(5) [OF inv i] idle mode show ?thesis
      unfolding slot_ok_def Let_def s [OF j] ex pe l by (auto simp: pending_events_def)
  next
    case False
    with engine_invD(5) [OF inv j] show ?thesis
      unfolding slot_ok_def Let_def s [OF j] ex pe l by simp
  qed
  moreover have "m \<noteq> Abort" using m by (auto simp: exclusive_def)
  ultimately show ?thesis
    using inv i s by (auto simp: engine_inv_def l w less_Suc_eq)
qed

lemma enqueue_inv:
  assumes inv: "engine_inv B M e" and i: "i < length (en_slots e)" and q: "effective_max_queue q \<le> B"
    and mode: "\<not> M (sl_tid (en_slots e ! i))"
  shows "engine_inv B M (enqueue_and_drain i c q ev e)"
proof (cases "sl_running (en_slots e ! i)")
  case False
  then show ?thesis using start_exclusive_inv [OF inv i False]
    using mode by (simp add: enqueue_and_drain_def)
next
  case True
  show ?thesis
  proof (cases "effective_max_queue q \<le> length (sl_queue (en_slots e ! i))")
    case full: True
    with True inv show ?thesis by (simp add: enqueue_and_drain_def)
  next
    case False
    let ?e = "accept i ev (upd_slot i (\<lambda>s. s\<lparr>sl_queue := sl_queue s @ [ev]\<rparr>) e)"
    have s: "en_slots ?e ! j = (if j = i then (en_slots e ! i)\<lparr>sl_queue := sl_queue (en_slots e ! i) @ [ev]\<rparr> else en_slots e ! j)"
      if "j < length (en_slots e)" for j
      using that by (simp add: accept_def upd_slot_nth)
    have ex: "ex_workers ?e j = ex_workers e j" "pending_events ?e j = pending_events e j" for j
      by (simp_all add: ex_workers_def pending_events_def accept_def)
    have "slot_ok B M ?e j" if j: "j < length (en_slots e)" for j
      using engine_invD(5) [OF inv j] False True q mode
      unfolding slot_ok_def Let_def s [OF j] ex by (auto simp: accept_def)
    with inv i s have "engine_inv B M ?e" by (auto simp: engine_inv_def accept_def)
    with True False show ?thesis by (simp add: enqueue_and_drain_def)
  qed
qed

text \<open>
  The triggers that the lookup shows: no abort mode, queues within the bound, and no trigger
  both in drop mode (\<open>M\<close>) and in queue mode.
\<close>

definition queue_lookup :: "nat \<Rightarrow> (string \<Rightarrow> bool) \<Rightarrow> (string \<Rightarrow> trigger option) \<Rightarrow> bool" where
  "queue_lookup B M lk \<longleftrightarrow> (\<forall>tid t. lk tid = Some t \<longrightarrow>
     tr_concurrency_mode t \<noteq> ''abort'' \<and> effective_max_queue (tr_max_queue_size t) \<le> B \<and>
     (tr_concurrency_mode t \<noteq> ''parallel'' \<longrightarrow> (tr_concurrency_mode t = ''drop'') = M tid))"

lemma dispatch_inv:
  assumes inv: "engine_inv B M e" and i: "i < length (en_slots e)" and lk: "queue_lookup B M lk"
    and tid: "sl_tid (en_slots e ! i) = tid"
  shows "\<exists>e'. dispatch (lk tid) i c loop ev e = Next e' \<and> engine_inv B M e'"
proof (cases "lk tid")
  case None
  with inv show ?thesis by (simp add: dispatch_def)
next
  case (Some t)
  with lk have t: "tr_concurrency_mode t \<noteq> ''abort''" "effective_max_queue (tr_max_queue_size t) \<le> B"
    "tr_concurrency_mode t \<noteq> ''parallel'' \<longrightarrow> (tr_concurrency_mode t = ''drop'') = M tid"
    by (auto simp: queue_lookup_def)
  show ?thesis
    using Some t inv spawn_parallel_inv [OF inv i] start_exclusive_inv [OF inv i, of Drop]
      enqueue_inv [OF inv i t(2)] tid
    by (auto simp: dispatch_def)
qed

section \<open>Workers\<close>

lemma find_workerD:
  assumes "find_worker e w = Some x"
  shows "x \<in> set (en_workers e)" "wk_id x = w"
  using find_Some_set [of "\<lambda>x. wk_id x = w"] assms by (auto simp: find_worker_def)

lemma same_worker:
  assumes "engine_inv B M e" "x \<in> set (en_workers e)" "y \<in> set (en_workers e)" "wk_id x = wk_id y"
  shows "x = y"
  using engine_invD(1) [OF assms(1)] assms(2-) by (auto simp: distinct_map inj_on_def)

lemma ex_workers_mem: "x \<in> set (ex_workers e i) \<longleftrightarrow> x \<in> set (en_workers e) \<and> exclusive (wk_mode x) \<and> wk_slot x = i"
  by (auto simp: ex_workers_def)

lemma sole_worker:
  assumes inv: "engine_inv B M e" and x: "x \<in> set (en_workers e)" "exclusive (wk_mode x)"
  shows "sl_running (en_slots e ! wk_slot x)" "ex_workers e (wk_slot x) = [x]"
proof -
  have m: "x \<in> set (ex_workers e (wk_slot x))" using x by (simp add: ex_workers_mem)
  have s: "slot_ok B M e (wk_slot x)" by (rule engine_invD(5) [OF inv engine_invD(3) [OF inv x(1)]])
  then show "sl_running (en_slots e ! wk_slot x)" using m by (auto simp: slot_ok_def Let_def split: if_splits)
  with s m show "ex_workers e (wk_slot x) = [x]" by (auto simp: slot_ok_def Let_def length_Suc_conv)
qed

lemma set_worker_fields [simp]:
  "en_slots (set_worker e x) = en_slots e" "en_waiters (set_worker e x) = en_waiters e"
  "en_next (set_worker e x) = en_next e" "en_lock (set_worker e x) = en_lock e"
  "en_active (set_worker e x) = en_active e" "en_accepted (set_worker e x) = en_accepted e"
  "en_begun (set_worker e x) = en_begun e"
  by (simp_all add: set_worker_def)

lemma worker_done_fields [simp]:
  "en_slots (worker_done e w) = en_slots e" "en_waiters (worker_done e w) = en_waiters e"
  "en_next (worker_done e w) = en_next e" "en_lock (worker_done e w) = en_lock e"
  "en_active (worker_done e w) = en_active e" "en_accepted (worker_done e w) = en_accepted e"
  "en_begun (worker_done e w) = en_begun e"
  by (simp_all add: worker_done_def)

lemma ex_workers_done:
  assumes inv: "engine_inv B M e" and x: "x \<in> set (en_workers e)"
  shows "ex_workers (worker_done e (wk_id x)) j =
    (if exclusive (wk_mode x) \<and> j = wk_slot x then [] else ex_workers e j)"
proof (cases "exclusive (wk_mode x) \<and> j = wk_slot x")
  case True
  then have "ex_workers e j = [x]" using sole_worker(2) [OF inv x] by simp
  moreover have "ex_workers (worker_done e (wk_id x)) j = filter (\<lambda>y. wk_id y \<noteq> wk_id x) (ex_workers e j)"
    by (simp add: ex_workers_def worker_done_def conj_commute)
  ultimately show ?thesis using True by simp
next
  case False
  have "(exclusive (wk_mode y) \<and> wk_slot y = j \<and> wk_id y \<noteq> wk_id x) = (exclusive (wk_mode y) \<and> wk_slot y = j)"
    if "y \<in> set (en_workers e)" for y
    using same_worker [OF inv that x] False by auto
  then have "filter (\<lambda>y. exclusive (wk_mode y) \<and> wk_slot y = j \<and> wk_id y \<noteq> wk_id x) (en_workers e) = ex_workers e j"
    unfolding ex_workers_def by (rule filter_cong [OF refl])
  with False show ?thesis by (simp add: ex_workers_def worker_done_def) (simp add: conj_ac cong: conj_cong)
qed

lemma ex_workers_set:
  assumes inv: "engine_inv B M e" and x: "x \<in> set (en_workers e)"
    and y: "wk_id y = wk_id x" "wk_slot y = wk_slot x" "wk_mode y = wk_mode x"
  shows "ex_workers (set_worker e y) j = (if exclusive (wk_mode x) \<and> j = wk_slot x then [y] else ex_workers e j)"
proof -
  let ?g = "\<lambda>z. if wk_id z = wk_id y then y else z" and ?P = "\<lambda>z. exclusive (wk_mode z) \<and> wk_slot z = j"
  have "?P (?g z) = ?P z" if z: "z \<in> set (en_workers e)" for z
  proof (cases "wk_id z = wk_id y")
    case True
    then have "z = x" using same_worker [OF inv z x] y(1) by simp
    with y show ?thesis by simp
  qed simp
  then have "filter (?P \<circ> ?g) (en_workers e) = filter ?P (en_workers e)" by (intro filter_cong) auto
  then have m: "ex_workers (set_worker e y) j = map ?g (ex_workers e j)"
    unfolding ex_workers_def set_worker_def by (simp add: filter_map)
  show ?thesis
  proof (cases "exclusive (wk_mode x) \<and> j = wk_slot x")
    case True
    then have "ex_workers e j = [x]" using sole_worker(2) [OF inv x] by simp
    with True m y(1) show ?thesis by simp
  next
    case False
    have "?g z = z" if z: "z \<in> set (ex_workers e j)" for z
      using same_worker [OF inv _ x, of z] z False y(1) by (auto simp: ex_workers_mem)
    then have "map ?g (ex_workers e j) = ex_workers e j" by (rule map_idI)
    then show ?thesis using False by (simp only: m if_False)
  qed
qed

lemma set_worker_ids: "map wk_id (en_workers (set_worker e y)) = map wk_id (en_workers e)"
  by (simp add: set_worker_def)

lemma set_worker_mem: "z \<in> set (en_workers (set_worker e y)) \<Longrightarrow> z = y \<or> z \<in> set (en_workers e)"
  by (auto simp: set_worker_def)

lemma begin_worker_inv:
  assumes inv: "engine_inv B M e" and w: "find_worker e w = Some x" "\<not> wk_begun x"
  shows "engine_inv B M (begin_worker x e)"
proof -
  note x = find_workerD(1) [OF w(1)]
  let ?y = "x\<lparr>wk_begun := True\<rparr>" and ?e = "begin_worker x e"
  have f: "en_workers ?e = en_workers (set_worker e ?y)" "en_slots ?e = en_slots e" "en_accepted ?e = en_accepted e"
    "en_begun ?e = en_begun e @ (if exclusive (wk_mode x) then [(wk_slot x, wk_event x)] else [])"
    "en_next ?e = en_next e" "en_active ?e = en_active e" "en_waiters ?e = en_waiters e" "en_lock ?e = en_lock e"
    by (simp_all add: begin_worker_def Let_def)
  have ex: "ex_workers ?e j = (if exclusive (wk_mode x) \<and> j = wk_slot x then [?y] else ex_workers e j)" for j
    using ex_workers_set [OF inv x, of ?y j] by (simp add: ex_workers_def f(1))
  have "slot_ok B M ?e j" if j: "j < length (en_slots e)" for j
  proof (cases "exclusive (wk_mode x) \<and> j = wk_slot x")
    case True
    then have "ex_workers e j = [x]" using sole_worker(2) [OF inv x] by simp
    with True w(2) engine_invD(5) [OF inv j] show ?thesis
      unfolding slot_ok_def Let_def f ex pending_events_def by (auto split: if_splits)
  next
    case False
    with engine_invD(5) [OF inv j] show ?thesis
      unfolding slot_ok_def Let_def f ex pending_events_def by auto
  qed
  moreover have "wk_id z < en_next e \<and> wk_slot z < length (en_slots e) \<and> wk_mode z \<noteq> Abort"
    if "z \<in> set (en_workers ?e)" for z
    using set_worker_mem [of z e ?y] that engine_invD(2,3,4) [OF inv] x by (auto simp: f)
  ultimately show ?thesis
    using inv engine_invD(3) [OF inv x] unfolding engine_inv_def f set_worker_ids by (auto simp: f)
qed

lemma worker_done_inv:
  assumes inv: "engine_inv B M e" and x: "x \<in> set (en_workers e)" and f: "\<And>s. sl_tid (f s) = sl_tid s"
    and i: "\<And>j. j < length (en_slots e) \<Longrightarrow> slot_ok B M (worker_done (upd_slot i f e) (wk_id x)) j"
  shows "engine_inv B M (worker_done (upd_slot i f e) (wk_id x))"
  using inv i f unfolding engine_inv_def
  by (auto simp: worker_done_def distinct_map_filter upd_slot_nth)

text \<open>A worker that was alone on its slot leaves it idle, or goes on with the next event of the queue.\<close>

lemma finish_idle_inv:
  assumes inv: "engine_inv B M e" and w: "find_worker e w = Some x" "wk_begun x"
    and m: "exclusive (wk_mode x)" and q: "sl_queue (en_slots e ! wk_slot x) = []"
  shows "engine_inv B M (worker_done (upd_slot (wk_slot x) (\<lambda>s. s\<lparr>sl_running := False\<rparr>) e) (wk_id x))"
proof -
  note x = find_workerD(1) [OF w(1)]
  let ?i = "wk_slot x"
  have ex: "ex_workers (worker_done (upd_slot ?i f e) (wk_id x)) j =
    (if exclusive (wk_mode x) \<and> j = ?i then [] else ex_workers e j)" for f j
    using ex_workers_done [OF inv x, of j] by (simp add: ex_workers_def worker_done_def)
  show ?thesis
  proof (rule worker_done_inv [OF inv x], simp)
    fix j assume j: "j < length (en_slots e)"
    have "ex_workers e ?i = [x]" by (rule sole_worker(2) [OF inv x m])
    with j m q w(2) engine_invD(5) [OF inv j] show "slot_ok B M (worker_done (upd_slot ?i (\<lambda>s. s\<lparr>sl_running := False\<rparr>) e) (wk_id x)) j"
      unfolding slot_ok_def Let_def ex pending_events_def by (auto simp: upd_slot_nth split: if_splits)
  qed
qed

lemma finish_next_inv:
  assumes inv: "engine_inv B M e" and w: "find_worker e w = Some x" "wk_begun x"
    and Queue: "wk_mode x = Queue" and Cons: "sl_queue (en_slots e ! wk_slot x) = ev # rest"
  shows "engine_inv B M (finish_worker x e)"
proof -
  note x = find_workerD(1) [OF w(1)]
  let ?i = "wk_slot x"
  let ?u = "upd_slot ?i (\<lambda>s. s\<lparr>sl_queue := rest\<rparr>) e" and ?y = "x\<lparr>wk_event := ev, wk_begun := False\<rparr>"
  let ?e = "set_worker ?u ?y"
  have e: "finish_worker x e = ?e" using Queue Cons by (simp add: finish_worker_def Let_def)
  have exq: "exclusive (wk_mode x)" using Queue by (simp add: exclusive_def)
  have ex2: "ex_workers ?e j = (if j = ?i then [?y] else ex_workers e j)" for j
    using ex_workers_set [OF inv x, of ?y j] exq by (simp add: ex_workers_def set_worker_def)
  have one: "ex_workers e ?i = [x]" by (rule sole_worker(2) [OF inv x exq])
  have "slot_ok B M ?e j" if j: "j < length (en_slots e)" for j
    using engine_invD(5) [OF inv j] one sole_worker(1) [OF inv x exq] Cons w(2) j
    unfolding slot_ok_def Let_def ex2 pending_events_def by (auto simp: upd_slot_nth split: if_splits)
  moreover have "wk_id z < en_next e \<and> wk_slot z < length (en_slots e) \<and> wk_mode z \<noteq> Abort"
    if "z \<in> set (en_workers ?e)" for z
    using set_worker_mem [OF that] engine_invD(2,3,4) [OF inv] x by auto
  ultimately show ?thesis
    using inv unfolding e engine_inv_def set_worker_ids by (auto simp: upd_slot_nth)
qed

lemma finish_worker_inv:
  assumes inv: "engine_inv B M e" and w: "find_worker e w = Some x" "wk_begun x"
  shows "engine_inv B M (finish_worker x e)"
proof -
  note x = find_workerD(1) [OF w(1)]
  note idle = finish_idle_inv [OF inv w]
  show ?thesis
  proof (cases "wk_mode x")
    case Parallel
    have "slot_ok B M (worker_done e (wk_id x)) j" if j: "j < length (en_slots e)" for j
      using engine_invD(5) [OF inv j] Parallel
      unfolding slot_ok_def Let_def pending_events_def ex_workers_done [OF inv x] by (simp add: exclusive_def)
    with inv show ?thesis
      unfolding engine_inv_def by (auto simp: finish_worker_def Parallel worker_done_def distinct_map_filter)
  next
    case Abort
    with engine_invD(4) [OF inv x] show ?thesis by simp
  next
    case Drop
    then have m: "exclusive (wk_mode x)" by (simp add: exclusive_def)
    have "M (sl_tid (en_slots e ! wk_slot x))" "sl_queue (en_slots e ! wk_slot x) = []"
      using engine_invD(5) [OF inv engine_invD(3) [OF inv x]] sole_worker(2) [OF inv x m] Drop
      by (auto simp: slot_ok_def Let_def split: if_splits)
    with idle [OF m] Drop show ?thesis by (simp add: finish_worker_def)
  next
    case Queue
    with idle finish_next_inv [OF inv w Queue] show ?thesis
      by (cases "sl_queue (en_slots e ! wk_slot x)") (auto simp: finish_worker_def exclusive_def)
  qed
qed

section \<open>Life cycle and steps\<close>

text \<open>The invariant reads these fields only, and asks less of a smaller \<open>active\<close> map.\<close>

lemma engine_inv_frame:
  assumes inv: "engine_inv B M e"
    and f: "en_workers e' = en_workers e" "en_slots e' = en_slots e" "en_next e' = en_next e"
      "en_accepted e' = en_accepted e" "en_begun e' = en_begun e" "en_waiters e' = en_waiters e" "en_lock e' = None"
    and active: "\<And>tid i. map_of (en_active e') tid = Some i \<Longrightarrow> map_of (en_active e) tid = Some i"
  shows "engine_inv B M e'"
proof -
  have "ex_workers e' j = ex_workers e j" "pending_events e' j = pending_events e j" for j
    by (simp_all add: ex_workers_def pending_events_def f)
  then have "slot_ok B M e' j = slot_ok B M e j" for j by (simp add: slot_ok_def f)
  moreover have "\<forall>tid i. map_of (en_active e') tid = Some i \<longrightarrow> i < length (en_slots e) \<and> sl_tid (en_slots e ! i) = tid"
    using active engine_invD(6) [OF inv] by metis
  ultimately show ?thesis using inv unfolding engine_inv_def f by blast
qed

lemma activate_inv:
  assumes inv: "engine_inv B M e"
  shows "engine_inv B M (snd (activate fs start t e))"
proof -
  let ?n = "length (en_slots e)"
  let ?e = "e\<lparr>en_slots := en_slots e @ [new_slot (tr_id t)], en_active := AList.update (tr_id t) ?n (en_active e),
     en_loops := en_loops e @ [?n]\<rparr>"
  have ex: "ex_workers ?e j = ex_workers e j" "pending_events ?e j = pending_events e j" for j
    by (simp_all add: ex_workers_def pending_events_def)
  have h: "\<forall>p \<in> set (en_accepted e) \<union> set (en_begun e). fst p < ?n" using inv unfolding engine_inv_def by blast
  have o: "of_slot ?n xs = []" if "\<forall>p \<in> set xs. fst p < ?n" for xs
    using that by (auto simp: of_slot_def filter_empty_conv)
  have none: "ex_workers e ?n = []" "of_slot ?n (en_accepted e) = []" "of_slot ?n (en_begun e) = []"
    using engine_invD(3) [OF inv] by (fastforce simp: ex_workers_def filter_empty_conv) (rule o, use h in blast)+
  have "slot_ok B M ?e j" if j: "j < Suc ?n" for j
  proof (cases "j = ?n")
    case True
    then show ?thesis using none unfolding slot_ok_def Let_def ex
      by (simp add: new_slot_def pending_events_def)
  next
    case False
    with j have "j < ?n" by simp
    with engine_invD(5) [OF inv this] show ?thesis unfolding slot_ok_def Let_def ex by (simp add: nth_append)
  qed
  with inv have "engine_inv B M ?e"
    unfolding engine_inv_def by (auto simp: less_Suc_eq nth_append new_slot_def)
  with inv show ?thesis
    by (auto simp: activate_def split: sum.splits option.splits)
qed

lemma deactivate_inv:
  assumes inv: "engine_inv B M e"
  shows "engine_inv B M (deactivate tid e)"
proof (cases "map_of (en_active e) tid")
  case None
  with inv show ?thesis by (simp add: deactivate_def)
next
  case (Some i)
  let ?u = "upd_slot i (\<lambda>s. s\<lparr>sl_timer := None, sl_cancelled := True\<rparr>) e"
  have u: "engine_inv B M ?u" by (rule upd_slot_inv [OF inv]) simp
  have "slot_ok B M e i" using engine_invD(5,6) [OF inv] Some by blast
  then have "sl_abort (en_slots e ! i) = None" by (simp add: slot_ok_def Let_def)
  with Some show ?thesis
    by (intro engine_inv_frame [OF u]) (auto simp: deactivate_def split: if_splits)
qed

lemma stop_all_inv:
  assumes "engine_inv B M e"
  shows "engine_inv B M (stop_all e)"
proof -
  have u: "engine_inv B M (foldl (\<lambda>e i. upd_slot i (\<lambda>s. s\<lparr>sl_cancelled := True\<rparr>) e) e is)" for "is"
    using assms by (induction "is" arbitrary: e) (simp_all add: upd_slot_inv)
  show ?thesis
    by (rule engine_inv_frame [OF u [of "amap_vals (en_active e)"]])
      (simp_all add: stop_all_def engine_invD(8) [OF u])
qed

lemma submit_inv:
  assumes inv: "engine_inv B M e" and lk: "queue_lookup B M lk"
  shows "submit_event lk l tid ev e = Disabled \<or> (\<exists>e'. submit_event lk l tid ev e = Next e' \<and> engine_inv B M e')"
proof (cases "map_of (en_active e) tid")
  case None
  with inv show ?thesis by (auto simp: submit_event_def split: option.splits)
next
  case (Some i)
  note i = engine_invD(6) [OF inv Some]
  have "engine_inv B M (upd_slot i (\<lambda>s. s\<lparr>sl_pending := Some ev, sl_timer := Some l\<rparr>) e)"
    by (rule upd_slot_inv [OF inv]) simp
  moreover have "\<exists>e'. dispatch (lk tid) i l (Some l) ev e = Next e' \<and> engine_inv B M e'"
    using dispatch_inv [OF inv _ lk] i by blast
  ultimately show ?thesis
    using Some inv by (auto simp: submit_event_def split: option.splits)
qed

lemma engine_step_inv:
  assumes inv: "engine_inv B M e" and lk: "queue_lookup B M lk"
  shows "engine_step lk fs start e ev = Disabled \<or> (\<exists>e'. engine_step lk fs start e ev = Next e' \<and> engine_inv B M e')"
proof (cases ev)
  case (Receive l e')
  with submit_inv [OF inv lk] show ?thesis by simp
next
  case (Callback i n)
  let ?u = "upd_slot i (\<lambda>s. s\<lparr>sl_pending := None, sl_callbacks := drop_nth n (sl_callbacks s)\<rparr>) e"
  have u: "engine_inv B M ?u" by (rule upd_slot_inv [OF inv]) simp
  have "\<exists>e'. dispatch (lk (sl_tid (en_slots e ! i))) i c None x ?u = Next e' \<and> engine_inv B M e'"
    if "i < length (en_slots e)" for c x
    by (rule dispatch_inv [OF u _ lk]) (simp_all add: that upd_slot_nth)
  with u Callback show ?thesis by (auto simp: Let_def split: option.splits)
next
  case (Closed l)
  have "engine_inv B M (e\<lparr>en_loops := removeAll l (en_loops e)\<rparr>)"
    by (rule engine_inv_frame [OF inv]) (simp_all add: engine_invD(8) [OF inv])
  with Closed show ?thesis by simp
next
  case (Loop_Done l)
  have "engine_inv B M (e\<lparr>en_loops := removeAll l (en_loops e)\<rparr>)"
    by (rule engine_inv_frame [OF inv]) (simp_all add: engine_invD(8) [OF inv])
  with Loop_Done show ?thesis by simp
next
  case (Timer i)
  have "engine_inv B M (upd_slot i (\<lambda>s. s\<lparr>sl_timer := None, sl_callbacks := sl_callbacks s @ [c]\<rparr>) e)" for c
    by (rule upd_slot_inv [OF inv]) simp
  with Timer show ?thesis by (auto split: option.splits)
next
  case (Begin w)
  with begin_worker_inv [OF inv, of w] show ?thesis by (auto split: option.splits)
next
  case (Finish w)
  with finish_worker_inv [OF inv, of w] show ?thesis by (auto split: option.splits)
qed (use inv activate_inv [OF inv] deactivate_inv [OF inv] stop_all_inv [OF inv] engine_invD(7,8) [OF inv] in auto)

section \<open>Reachable states\<close>

text \<open>
  The states the engine can get into by steps that satisfy \<open>Q\<close>, each under the lookup, the
  factories and the drivers of its moment.
\<close>

inductive engine_reach :: "(engine \<Rightarrow> (string \<Rightarrow> trigger option) \<Rightarrow> engine_ev \<Rightarrow> bool) \<Rightarrow> engine \<Rightarrow> bool" for Q where
  reach_new: "engine_reach Q new_engine"
| reach_step: "engine_reach Q e \<Longrightarrow> Q e lk ev \<Longrightarrow>
    engine_step lk fs (start :: string \<Rightarrow> string option) e ev = Next e' \<Longrightarrow> engine_reach Q e'"

definition queue_steps :: "nat \<Rightarrow> (string \<Rightarrow> bool) \<Rightarrow> engine \<Rightarrow> (string \<Rightarrow> trigger option) \<Rightarrow> engine_ev \<Rightarrow> bool" where
  "queue_steps B M e lk ev = queue_lookup B M lk"

lemma engine_reach_inv: "engine_reach (queue_steps B M) e \<Longrightarrow> engine_inv B M e"
proof (induction rule: engine_reach.induct)
  case reach_new
  show ?case by (rule new_engine_inv)
next
  case (reach_step e lk ev fs start e')
  then have "queue_lookup B M lk" by (simp add: queue_steps_def)
  from engine_step_inv [OF reach_step.IH this, of fs start ev] reach_step.hyps(3) show ?case by auto
qed

text \<open>A run of the engine under one lookup; \<open>None\<close> if a step is not enabled or panics.\<close>

fun engine_run :: "(string \<Rightarrow> trigger option) \<Rightarrow> (trigger \<Rightarrow> string + string option) list \<Rightarrow> (string \<Rightarrow> string option) \<Rightarrow>
    engine \<Rightarrow> engine_ev list \<Rightarrow> engine option" where
  "engine_run lk fs start e [] = Some e"
| "engine_run lk fs start e (ev # evs) =
     (case engine_step lk fs start e ev of Next e' \<Rightarrow> engine_run lk fs start e' evs | _ \<Rightarrow> None)"

lemma engine_run_append:
  "engine_run lk fs start e (xs @ ys) = Option.bind (engine_run lk fs start e xs) (\<lambda>e'. engine_run lk fs start e' ys)"
  by (induction xs arbitrary: e) (auto split: outcome.splits)

lemma engine_run_reach:
  "engine_reach (queue_steps B M) e \<Longrightarrow> queue_lookup B M lk \<Longrightarrow> engine_run lk fs start e evs = Some e' \<Longrightarrow>
     engine_reach (queue_steps B M) e'"
proof (induction evs arbitrary: e)
  case (Cons ev evs)
  then obtain e1 where s: "engine_step lk fs start e ev = Next e1" "engine_run lk fs start e1 evs = Some e'"
    by (auto split: outcome.splits)
  have "queue_steps B M e lk ev" using Cons.prems(2) by (simp add: queue_steps_def)
  from Cons.IH [OF reach_step [OF Cons.prems(1) this s(1)] Cons.prems(2) s(2)] show ?case .
qed simp


definition sample_trig :: trigger where
  "sample_trig = \<lparr>tr_id = ''t1'', tr_type = ''T'', tr_name = [], tr_group_id = ''g1'', tr_group_name = ''g'',
     tr_recurfile_id = ''r1'', tr_recurfile_path = ''/r'', tr_plugin_id = ''p'', tr_options = None, tr_status = st_active,
     tr_error_count = 0, tr_error_threshold = 0, tr_last_fired = 0, tr_concurrency_mode = ''queue'',
     tr_max_queue_size = 2, tr_debounce = 0\<rparr>"

definition sample_lookup :: "trigger \<Rightarrow> string \<Rightarrow> trigger option" where
  "sample_lookup t tid = (if tid = tr_id t then Some t else None)"

definition sample_event :: "string \<Rightarrow> event" where
  "sample_event n = \<lparr>te_type = n, te_context = []\<rparr>"

lemmas engine_eval = engine_run.simps engine_step.simps new_engine_def new_slot_def activate_def deactivate_def
  submit_event_def dispatch_def enqueue_and_drain_def start_exclusive_def start_abort_def abort_worker_def spawn_def accept_def
  upd_slot_def effective_max_queue_def loop_waits_def find_worker_def worker_done_def set_worker_def
  finish_worker_def begin_worker_def exclusive_def sample_lookup_def Let_def drop_nth_def

definition sample_run :: "trigger \<Rightarrow> engine_ev list \<Rightarrow> engine option" where
  "sample_run t evs = engine_run (sample_lookup t) [\<lambda>t. Inr (Some ''d'')] (\<lambda>d. None) new_engine evs"


section \<open>Progress\<close>

definition drain_evs :: "worker \<Rightarrow> event list \<Rightarrow> engine_ev list" where
  "drain_evs x q = (if wk_begun x then [] else [Begin (wk_id x)]) @ Finish (wk_id x) #
     concat (map (\<lambda>_. [Begin (wk_id x), Finish (wk_id x)]) q)"

lemma find_ex_worker:
  assumes inv: "engine_inv B M e" and x: "x \<in> set (en_workers e)"
  shows "find_worker e (wk_id x) = Some x"
proof (cases "find_worker e (wk_id x)")
  case None
  with x show ?thesis by (auto simp: find_worker_def find_None_iff)
next
  case (Some y)
  with same_worker [OF inv x, of y] find_workerD [OF Some] show ?thesis by simp
qed

lemma drain_begin:
  assumes inv: "engine_inv B M e" and x: "x \<in> set (ex_workers e i)"
  shows "\<exists>e1. engine_run lk fs start e (if wk_begun x then [] else [Begin (wk_id x)]) = Some e1 \<and> engine_inv B M e1 \<and>
    find_worker e1 (wk_id x) = Some (x\<lparr>wk_begun := True\<rparr>) \<and> en_slots e1 = en_slots e \<and> en_accepted e1 = en_accepted e"
proof (cases "wk_begun x")
  case True
  then have "x\<lparr>wk_begun := True\<rparr> = x" by (cases x) simp
  with True inv x find_ex_worker [OF inv] show ?thesis by (simp add: ex_workers_mem)
next
  case False
  have w: "find_worker e (wk_id x) = Some x" using find_ex_worker [OF inv] x by (simp add: ex_workers_mem)
  let ?e1 = "begin_worker x e"
  have inv1: "engine_inv B M ?e1" by (rule begin_worker_inv [OF inv w False])
  have "x\<lparr>wk_begun := True\<rparr> \<in> set (en_workers ?e1)"
    using find_workerD(1) [OF w] by (auto simp: begin_worker_def set_worker_def Let_def)
  from find_ex_worker [OF inv1 this] have "find_worker ?e1 (wk_id x) = Some (x\<lparr>wk_begun := True\<rparr>)" by simp
  with False w inv1 show ?thesis by (simp add: begin_worker_def Let_def)
qed

lemma drain_run:
  assumes "engine_inv B M e" "x \<in> set (ex_workers e i)" "sl_queue (en_slots e ! i) = q"
  shows "\<exists>e'. engine_run lk fs start e (drain_evs x q) = Some e' \<and> engine_inv B M e' \<and>
    \<not> sl_running (en_slots e' ! i) \<and> length (en_slots e') = length (en_slots e) \<and> en_accepted e' = en_accepted e"
  using assms
proof (induction q arbitrary: e x)
  case Nil
  note inv = Nil.prems(1)
  let ?y = "x\<lparr>wk_begun := True\<rparr>"
  from Nil.prems(2) have x: "x \<in> set (en_workers e)" "exclusive (wk_mode x)" "wk_slot x = i" by (auto simp: ex_workers_mem)
  have i: "i < length (en_slots e)" using engine_invD(3) [OF inv x(1)] x(3) by simp
  from drain_begin [OF inv Nil.prems(2)] obtain e1 where e1:
    "engine_run lk fs start e (if wk_begun x then [] else [Begin (wk_id x)]) = Some e1" "engine_inv B M e1"
    "find_worker e1 (wk_id x) = Some ?y" "en_slots e1 = en_slots e" "en_accepted e1 = en_accepted e" by blast
  have "engine_inv B M (finish_worker ?y e1)" by (rule finish_worker_inv [OF e1(2,3)]) simp
  moreover have "engine_run lk fs start e (drain_evs x []) = Some (finish_worker ?y e1)"
    unfolding drain_evs_def by (subst engine_run_append) (simp add: e1)
  moreover have "\<not> sl_running (en_slots (finish_worker ?y e1) ! i) \<and> length (en_slots (finish_worker ?y e1)) = length (en_slots e) \<and>
      en_accepted (finish_worker ?y e1) = en_accepted e"
    using x i Nil.prems(3) e1(4,5) by (cases "wk_mode x") (auto simp: finish_worker_def Let_def upd_slot_nth exclusive_def)
  ultimately show ?case by blast
next
  case (Cons ev rest)
  note inv = Cons.prems(1)
  let ?y = "x\<lparr>wk_begun := True\<rparr>" and ?z = "x\<lparr>wk_event := ev, wk_begun := False\<rparr>"
  from Cons.prems(2) have x: "x \<in> set (en_workers e)" "exclusive (wk_mode x)" "wk_slot x = i" by (auto simp: ex_workers_mem)
  have i: "i < length (en_slots e)" using engine_invD(3) [OF inv x(1)] x(3) by simp
  have Q: "wk_mode x = Queue"
    using engine_invD(5) [OF inv i] Cons.prems(2,3) by (auto simp: slot_ok_def Let_def list_all_iff split: if_splits)
  from drain_begin [OF inv Cons.prems(2)] obtain e1 where e1:
    "engine_run lk fs start e (if wk_begun x then [] else [Begin (wk_id x)]) = Some e1" "engine_inv B M e1"
    "find_worker e1 (wk_id x) = Some ?y" "en_slots e1 = en_slots e" "en_accepted e1 = en_accepted e" by blast
  let ?e2 = "finish_worker ?y e1"
  have inv2: "engine_inv B M ?e2" by (rule finish_worker_inv [OF e1(2,3)]) simp
  have e2: "?e2 = set_worker (upd_slot i (\<lambda>s. s\<lparr>sl_queue := rest\<rparr>) e1) ?z"
    using Q Cons.prems(3) e1(4) x(3) by (simp add: finish_worker_def Let_def)
  have z: "?z \<in> set (ex_workers ?e2 i)"
    unfolding e2 ex_workers_mem using find_workerD(1) [OF e1(3)] x by (auto simp: set_worker_def)
  have q: "sl_queue (en_slots ?e2 ! i) = rest" unfolding e2 using i e1(4) by (simp add: upd_slot_nth)
  have "engine_run lk fs start e (drain_evs x (ev # rest)) = engine_run lk fs start ?e2 (drain_evs ?z rest)"
    unfolding drain_evs_def by (subst engine_run_append) (simp add: e1)
  moreover have "length (en_slots ?e2) = length (en_slots e)" "en_accepted ?e2 = en_accepted e"
    unfolding e2 using e1(4,5) by simp_all
  ultimately show ?case using Cons.IH [OF inv2 z q] by simp
qed



end
