(* ===== verification/Engine_Abort.thy ===== *)
theory Engine_Abort
  imports Engine_Facts
begin

text \<open>
  Abort mode: a new event cancels the running worker and starts when that has finished. Without
  debouncing, and while a trigger keeps its slot, there is never more than one worker. With
  debouncing there can be two, and a change of the mode under a running worker panics: both
  are shown by runs.
\<close>

definition slot_workers :: "engine \<Rightarrow> nat \<Rightarrow> worker list" where
  "slot_workers e i = filter (\<lambda>x. wk_slot x = i) (en_workers e)"

definition abort_steps :: "engine \<Rightarrow> (string \<Rightarrow> trigger option) \<Rightarrow> engine_ev \<Rightarrow> bool" where
  "abort_steps e lk ev \<longleftrightarrow>
     (\<forall>tid t. lk tid = Some t \<longrightarrow> tr_concurrency_mode t = ''abort'' \<and> tr_debounce t \<le> 0) \<and>
     (case ev of Activate t \<Rightarrow> tr_id t \<notin> sl_tid ` set (en_slots e) | _ \<Rightarrow> True)"

definition aslot_ok :: "engine \<Rightarrow> nat \<Rightarrow> bool" where
  "aslot_ok e i \<longleftrightarrow>
     (let s = en_slots e ! i in
      sl_timer s = None \<and> sl_callbacks s = [] \<and>
      (if sl_running s then \<exists>x. slot_workers e i = [x] \<and> sl_abort s = Some (wk_id x)
       else slot_workers e i = [] \<and> sl_abort s = None))"

definition waiter_ok :: "engine \<Rightarrow> waiter \<Rightarrow> bool" where
  "waiter_ok e w \<longleftrightarrow> wt_slot w < length (en_slots e) \<and> wt_loop w = Some (wt_slot w) \<and> wt_for w < en_next e \<and>
     (\<forall>x \<in> set (slot_workers e (wt_slot w)). wk_id x = wt_for w \<and> wk_aborted x)"

definition abort_inv :: "engine \<Rightarrow> bool" where
  "abort_inv e \<longleftrightarrow>
     distinct (map wk_id (en_workers e)) \<and>
     (\<forall>x \<in> set (en_workers e). wk_id x < en_next e \<and> wk_slot x < length (en_slots e) \<and> wk_mode x = Abort) \<and>
     distinct (map sl_tid (en_slots e)) \<and> (\<forall>l \<in> set (en_loops e). l < length (en_slots e)) \<and>
     (\<forall>tid i. map_of (en_active e) tid = Some i \<longrightarrow> i < length (en_slots e) \<and> sl_tid (en_slots e ! i) = tid) \<and>
     (\<forall>i < length (en_slots e). aslot_ok e i) \<and>
     (\<forall>w \<in> set (en_waiters e). waiter_ok e w) \<and> distinct (map wt_slot (en_waiters e))"

lemma abort_invD:
  assumes "abort_inv e"
  shows "distinct (map wk_id (en_workers e))"
    "x \<in> set (en_workers e) \<Longrightarrow> wk_id x < en_next e"
    "x \<in> set (en_workers e) \<Longrightarrow> wk_slot x < length (en_slots e)"
    "x \<in> set (en_workers e) \<Longrightarrow> wk_mode x = Abort"
    "distinct (map sl_tid (en_slots e))" "l \<in> set (en_loops e) \<Longrightarrow> l < length (en_slots e)"
    "map_of (en_active e) tid = Some i \<Longrightarrow> i < length (en_slots e) \<and> sl_tid (en_slots e ! i) = tid"
    "i < length (en_slots e) \<Longrightarrow> aslot_ok e i"
    "w \<in> set (en_waiters e) \<Longrightarrow> waiter_ok e w" "distinct (map wt_slot (en_waiters e))"
  using assms by (auto simp: abort_inv_def)

lemma abort_inv_frame:
  assumes inv: "abort_inv e"
    and f: "en_workers e' = en_workers e" "length (en_slots e') = length (en_slots e)" "en_next e' = en_next e"
      "set (en_loops e') \<subseteq> set (en_loops e)" "en_waiters e' = en_waiters e"
    and s: "\<And>i. i < length (en_slots e) \<Longrightarrow> sl_tid (en_slots e' ! i) = sl_tid (en_slots e ! i) \<and>
      sl_running (en_slots e' ! i) = sl_running (en_slots e ! i) \<and> sl_abort (en_slots e' ! i) = sl_abort (en_slots e ! i) \<and>
      sl_timer (en_slots e' ! i) = None \<and> sl_callbacks (en_slots e' ! i) = []"
    and active: "\<And>tid i. map_of (en_active e') tid = Some i \<Longrightarrow> map_of (en_active e) tid = Some i"
  shows "abort_inv e'"
proof -
  have w: "slot_workers e' = slot_workers e" by (simp add: slot_workers_def f fun_eq_iff)
  have "aslot_ok e' i" if i: "i < length (en_slots e)" for i
    using abort_invD(8) [OF inv i] s [OF i] by (simp add: aslot_ok_def Let_def w)
  moreover have "waiter_ok e' x" if x: "x \<in> set (en_waiters e)" for x
    using abort_invD(9) [OF inv x] by (simp add: waiter_ok_def w f)
  moreover have "map sl_tid (en_slots e') = map sl_tid (en_slots e)"
    by (rule nth_equalityI) (simp_all add: f s)
  moreover have "\<forall>tid i. map_of (en_active e') tid = Some i \<longrightarrow> i < length (en_slots e) \<and> sl_tid (en_slots e' ! i) = tid"
    using active abort_invD(7) [OF inv] s by metis
  ultimately show ?thesis
    using inv f(4) unfolding abort_inv_def f by auto
qed

lemma start_abort_inv:
  assumes inv: "abort_inv e" and i: "i < length (en_slots e)" and idle: "slot_workers e i = []"
    and nw: "\<And>w. w \<in> set (en_waiters e) \<Longrightarrow> wt_slot w \<noteq> i"
  shows "abort_inv (start_abort i c ev e)"
proof -
  let ?e = "start_abort i c ev e"
  let ?x = "\<lparr>wk_id = en_next e, wk_slot = i, wk_ctx = c, wk_mode = Abort, wk_event = ev, wk_begun = False, wk_aborted = False\<rparr>"
  have f: "en_workers ?e = en_workers e @ [?x]" "length (en_slots ?e) = length (en_slots e)"
    "en_next ?e = Suc (en_next e)" "en_loops ?e = en_loops e" "en_waiters ?e = en_waiters e" "en_active ?e = en_active e"
    by (simp_all add: start_abort_def spawn_def)
  have s: "en_slots ?e ! j = (if j = i then (en_slots e ! i)\<lparr>sl_running := True, sl_abort := Some (en_next e)\<rparr> else en_slots e ! j)"
    if "j < length (en_slots e)" for j
    using that by (simp add: start_abort_def spawn_def upd_slot_nth)
  have w: "slot_workers ?e j = slot_workers e j @ (if j = i then [?x] else [])" for j
    by (simp add: slot_workers_def f)
  have "aslot_ok ?e j" if j: "j < length (en_slots e)" for j
    using abort_invD(8) [OF inv j] idle unfolding aslot_ok_def Let_def s [OF j] w by (auto split: if_splits)
  moreover have "waiter_ok ?e x" if x: "x \<in> set (en_waiters e)" for x
    using abort_invD(9) [OF inv x] nw [OF x] by (auto simp: waiter_ok_def w f)
  moreover have "map sl_tid (en_slots ?e) = map sl_tid (en_slots e)"
    by (rule nth_equalityI) (simp_all add: f s)
  moreover have "\<forall>tid i. map_of (en_active e) tid = Some i \<longrightarrow> i < length (en_slots e) \<and> sl_tid (en_slots ?e ! i) = tid"
    using abort_invD(7) [OF inv] s by auto
  ultimately show ?thesis
    using inv i abort_invD(2) [OF inv] unfolding abort_inv_def f by (fastforce simp: less_Suc_eq)
qed

lemma abort_running_inv:
  assumes inv: "abort_inv e" and i: "i < length (en_slots e)" and run: "sl_running (en_slots e ! i)"
    and w: "sl_abort (en_slots e ! i) = Some w"
    and nw: "\<And>x. x \<in> set (en_waiters e) \<Longrightarrow> wt_slot x \<noteq> i"
  shows "abort_inv ((abort_worker w e)\<lparr>en_waiters := en_waiters e @
    [\<lparr>wt_slot = i, wt_ctx = c, wt_event = ev, wt_for = w, wt_loop = Some i\<rparr>]\<rparr>)"
proof -
  let ?g = "\<lambda>x. if wk_id x = w then x\<lparr>wk_aborted := True\<rparr> else x"
  let ?w = "\<lparr>wt_slot = i, wt_ctx = c, wt_event = ev, wt_for = w, wt_loop = Some i\<rparr>"
  let ?e = "(abort_worker w e)\<lparr>en_waiters := en_waiters e @ [?w]\<rparr>"
  from abort_invD(8) [OF inv i] run w obtain x where x: "slot_workers e i = [x]" "wk_id x = w"
    by (auto simp: aslot_ok_def Let_def)
  have "x \<in> set (slot_workers e i)" by (simp add: x)
  then have wid: "w < en_next e" using abort_invD(2) [OF inv, of x] x(2) by (simp add: slot_workers_def)
  have f: "en_workers ?e = map ?g (en_workers e)" "en_slots ?e = en_slots e" "en_next ?e = en_next e"
    "en_loops ?e = en_loops e" "en_waiters ?e = en_waiters e @ [?w]" "en_active ?e = en_active e"
    by (simp_all add: abort_worker_def)
  have ids: "map wk_id (map ?g (en_workers e)) = map wk_id (en_workers e)" by simp
  have sw: "slot_workers ?e j = map ?g (slot_workers e j)" for j
    unfolding slot_workers_def f filter_map comp_def by (rule arg_cong [where f = "map _"], rule filter_cong) auto
  have "aslot_ok ?e j" if j: "j < length (en_slots e)" for j
    using abort_invD(8) [OF inv j] unfolding aslot_ok_def Let_def sw f by (auto split: if_splits)
  moreover have "waiter_ok ?e y" if y: "y \<in> set (en_waiters e)" for y
    using abort_invD(9) [OF inv y] unfolding waiter_ok_def sw f by auto
  moreover have "waiter_ok ?e ?w" using i wid x unfolding waiter_ok_def sw f by simp
  moreover have "i \<notin> wt_slot ` set (en_waiters e)" using nw by auto
  ultimately show ?thesis
    using inv unfolding abort_inv_def f ids by auto
qed

lemma abort_same_worker:
  assumes "abort_inv e" "x \<in> set (en_workers e)" "y \<in> set (en_workers e)" "wk_id x = wk_id y"
  shows "x = y"
  using abort_invD(1) [OF assms(1)] assms(2-) by (auto simp: distinct_map inj_on_def)

lemma abort_sole:
  assumes inv: "abort_inv e" and x: "x \<in> set (en_workers e)"
  shows "slot_workers e (wk_slot x) = [x]" "sl_running (en_slots e ! wk_slot x)"
    "sl_abort (en_slots e ! wk_slot x) = Some (wk_id x)"
proof -
  have "x \<in> set (slot_workers e (wk_slot x))" using x by (simp add: slot_workers_def)
  with abort_invD(8) [OF inv abort_invD(3) [OF inv x]]
  show "slot_workers e (wk_slot x) = [x]" "sl_running (en_slots e ! wk_slot x)"
    "sl_abort (en_slots e ! wk_slot x) = Some (wk_id x)"
    by (auto simp: aslot_ok_def Let_def split: if_splits)
qed

lemma abort_begin_inv:
  assumes inv: "abort_inv e" and w: "find_worker e w = Some x"
  shows "abort_inv (begin_worker x e)"
proof -
  note x = find_workerD(1) [OF w]
  let ?y = "x\<lparr>wk_begun := True\<rparr>"
  have m: "wk_mode x = Abort" by (rule abort_invD(4) [OF inv x])
  have b: "begin_worker x e = set_worker e ?y" using m by (simp add: begin_worker_def Let_def exclusive_def)
  let ?g = "\<lambda>z. if wk_id z = wk_id ?y then ?y else z"
  have g: "?g z = (if z = x then ?y else z)" if "z \<in> set (en_workers e)" for z
    using abort_same_worker [OF inv that x] by auto
  have sw: "slot_workers (set_worker e ?y) j = map (\<lambda>z. if z = x then ?y else z) (slot_workers e j)" for j
  proof -
    have "en_workers (set_worker e ?y) = map ?g (en_workers e)" by (simp add: set_worker_def)
    also have "\<dots> = map (\<lambda>z. if z = x then ?y else z) (en_workers e)" using g by (intro map_cong) auto
    finally have "slot_workers (set_worker e ?y) j = map (\<lambda>z. if z = x then ?y else z)
        (filter (\<lambda>z. wk_slot (if z = x then ?y else z) = j) (en_workers e))"
      by (simp add: slot_workers_def filter_map comp_def)
    also have "filter (\<lambda>z. wk_slot (if z = x then ?y else z) = j) (en_workers e) = slot_workers e j"
      unfolding slot_workers_def by (rule filter_cong) auto
    finally show ?thesis .
  qed
  have "aslot_ok (set_worker e ?y) j" if j: "j < length (en_slots e)" for j
    using abort_invD(8) [OF inv j] unfolding aslot_ok_def Let_def sw by (auto split: if_splits)
  moreover have "waiter_ok (set_worker e ?y) v" if v: "v \<in> set (en_waiters e)" for v
    using abort_invD(9) [OF inv v] unfolding waiter_ok_def sw by auto
  moreover have "wk_id z < en_next e \<and> wk_slot z < length (en_slots e) \<and> wk_mode z = Abort"
    if "z \<in> set (en_workers (set_worker e ?y))" for z
    using set_worker_mem [OF that] abort_invD(2,3,4) [OF inv] x by auto
  moreover have "en_loops (set_worker e ?y) = en_loops e" by (simp add: set_worker_def)
  ultimately show ?thesis using inv unfolding b abort_inv_def set_worker_ids by auto
qed

lemma abort_finish_inv:
  assumes inv: "abort_inv e" and w: "find_worker e w = Some x"
  shows "abort_inv (finish_worker x e)"
proof -
  note x = find_workerD(1) [OF w]
  let ?i = "wk_slot x"
  let ?e = "worker_done (upd_slot ?i (\<lambda>s. s\<lparr>sl_running := False, sl_abort := None\<rparr>) e) (wk_id x)"
  have fin: "finish_worker x e = ?e"
    using abort_invD(4) [OF inv x] by (simp add: finish_worker_def Let_def)
  have sub: "set (en_workers ?e) \<subseteq> set (en_workers e)" "distinct (map wk_id (en_workers ?e))"
    using abort_invD(1) [OF inv] by (auto simp: worker_done_def distinct_map_filter)
  have sw: "slot_workers ?e j = (if j = ?i then [] else slot_workers e j)" for j
  proof (cases "j = ?i")
    case True
    have "slot_workers ?e j = filter (\<lambda>y. wk_id y \<noteq> wk_id x) (slot_workers e j)"
      by (simp add: slot_workers_def worker_done_def conj_commute)
    with True abort_sole(1) [OF inv x] show ?thesis by simp
  next
    case False
    have "filter (\<lambda>y. wk_id y \<noteq> wk_id x \<and> wk_slot y = j) (en_workers e) = slot_workers e j"
      unfolding slot_workers_def using abort_same_worker [OF inv _ x] False by (intro filter_cong) auto
    with False show ?thesis by (simp add: slot_workers_def worker_done_def conj_commute)
  qed
  have s: "en_slots ?e ! j = (if j = ?i then (en_slots e ! ?i)\<lparr>sl_running := False, sl_abort := None\<rparr> else en_slots e ! j)"
    if "j < length (en_slots e)" for j using that by (simp add: upd_slot_nth)
  have "aslot_ok ?e j" if j: "j < length (en_slots e)" for j
    using abort_invD(8) [OF inv j] unfolding aslot_ok_def Let_def sw s [OF j] by auto
  moreover have "waiter_ok ?e v" if v: "v \<in> set (en_waiters e)" for v
    using abort_invD(9) [OF inv v] unfolding waiter_ok_def sw by auto
  moreover have "map sl_tid (en_slots ?e) = map sl_tid (en_slots e)"
    by (rule nth_equalityI) (auto simp: upd_slot_nth)
  moreover have "\<forall>tid i. map_of (en_active e) tid = Some i \<longrightarrow> i < length (en_slots e) \<and> sl_tid (en_slots ?e ! i) = tid"
    using abort_invD(7) [OF inv] by (auto simp: upd_slot_nth)
  moreover have "en_loops ?e = en_loops e" by (simp add: worker_done_def)
  ultimately show ?thesis using inv sub unfolding fin abort_inv_def by auto
qed

lemma abort_activate_inv:
  assumes inv: "abort_inv e" and fresh: "tr_id t \<notin> sl_tid ` set (en_slots e)"
  shows "abort_inv (snd (activate fs start t e))"
proof -
  let ?n = "length (en_slots e)"
  let ?e = "e\<lparr>en_slots := en_slots e @ [new_slot (tr_id t)], en_active := AList.update (tr_id t) ?n (en_active e),
     en_loops := en_loops e @ [?n]\<rparr>"
  have w: "slot_workers ?e j = slot_workers e j" for j by (simp add: slot_workers_def)
  have none: "slot_workers e ?n = []"
    using abort_invD(3) [OF inv] by (fastforce simp: slot_workers_def filter_empty_conv)
  have "aslot_ok ?e j" if j: "j < Suc ?n" for j
    using abort_invD(8) [OF inv, of j] j none unfolding aslot_ok_def Let_def w
    by (auto simp: nth_append new_slot_def less_Suc_eq)
  moreover have "waiter_ok ?e v" if v: "v \<in> set (en_waiters e)" for v
    using abort_invD(9) [OF inv v] unfolding waiter_ok_def w by auto
  moreover have "sl_tid (new_slot (tr_id t)) = tr_id t" by (simp add: new_slot_def)
  ultimately have "abort_inv ?e"
    using inv fresh unfolding abort_inv_def by (auto simp: nth_append less_Suc_eq)
  with inv show ?thesis by (auto simp: activate_def split: sum.splits option.splits)
qed

lemma abort_deactivate_inv:
  assumes inv: "abort_inv e"
  shows "abort_inv (deactivate tid e)"
proof (cases "map_of (en_active e) tid")
  case None
  with inv show ?thesis by (simp add: deactivate_def)
next
  case (Some i)
  show ?thesis
    using abort_invD(8) [OF inv] Some
    by (intro abort_inv_frame [OF inv]) (auto simp: deactivate_def upd_slot_nth aslot_ok_def Let_def split: if_splits)
qed

lemma abort_stop_inv:
  assumes inv: "abort_inv e"
  shows "abort_inv (stop_all e)"
proof -
  have u: "abort_inv (foldl (\<lambda>e i. upd_slot i (\<lambda>s. s\<lparr>sl_cancelled := True\<rparr>) e) e is)" for "is"
    using inv
  proof (induction "is" arbitrary: e)
    case (Cons i "is")
    have "abort_inv (upd_slot i (\<lambda>s. s\<lparr>sl_cancelled := True\<rparr>) e)"
      using abort_invD(8) [OF Cons.prems]
      by (intro abort_inv_frame [OF Cons.prems]) (auto simp: upd_slot_nth aslot_ok_def Let_def)
    with Cons.IH show ?case by simp
  qed simp
  show ?thesis
    using abort_invD(8) [OF u [of "amap_vals (en_active e)"]]
    by (intro abort_inv_frame [OF u [of "amap_vals (en_active e)"]]) (auto simp: stop_all_def aslot_ok_def Let_def)
qed

text \<open>Neither the lock nor the loops that run matter to a slot.\<close>

lemma abort_loops_inv:
  assumes "abort_inv e"
  shows "abort_inv (e\<lparr>en_lock := None\<rparr>)" "abort_inv (e\<lparr>en_loops := removeAll l (en_loops e)\<rparr>)"
  using abort_invD(8) [OF assms] by (auto intro!: abort_inv_frame [OF assms] simp: aslot_ok_def Let_def)

lemma abort_receive_inv:
  assumes inv: "abort_inv e" and Q: "abort_steps e lk (Receive l ev)"
  shows "engine_step lk fs start e (Receive l ev) = Disabled \<or> (\<exists>e'. engine_step lk fs start e (Receive l ev) = Next e' \<and> abort_inv e')"
proof (cases "l \<in> set (en_loops e) \<and> \<not> loop_waits e l")
  case False
  then show ?thesis by auto
next
  case here: True
  let ?tid = "sl_tid (en_slots e ! l)"
  have l: "l < length (en_slots e)" using abort_invD(6) [OF inv] here by simp
  have nw: "wt_slot w \<noteq> l" if "w \<in> set (en_waiters e)" for w
    using here abort_invD(9) [OF inv that] that by (auto simp: loop_waits_def list_ex_iff waiter_ok_def)
  have il: "i = l" if "map_of (en_active e) ?tid = Some i" for i
    using abort_invD(7) [OF inv that] abort_invD(5) [OF inv] l by (simp add: distinct_conv_nth) (metis nth_map)
  have idle: "slot_workers e l = []" if "\<not> sl_running (en_slots e ! l)"
    using abort_invD(8) [OF inv l] that by (simp add: aslot_ok_def Let_def)
  have run: "sl_abort (en_slots e ! l) \<noteq> None" if "sl_running (en_slots e ! l)"
    using abort_invD(8) [OF inv l] that by (auto simp: aslot_ok_def Let_def)
  have a: "tr_concurrency_mode t = ''abort'' \<and> tr_debounce t \<le> 0" if "lk ?tid = Some t" for t
    using Q that by (simp add: abort_steps_def)
  show ?thesis
    using here inv a il start_abort_inv [OF inv l idle nw, of l ev] abort_running_inv [OF inv l _ _ nw, of _ l ev] run
    by (auto simp: submit_event_def dispatch_def split: option.splits)
qed

text \<open>A waiter whose worker has ended starts its own: nothing else is on its slot.\<close>

lemma abort_wake_inv:
  assumes inv: "abort_inv e" and n: "n < length (en_waiters e)" and gone: "find_worker e (wt_for (en_waiters e ! n)) = None"
  shows "abort_inv (start_abort (wt_slot (en_waiters e ! n)) (wt_ctx (en_waiters e ! n)) (wt_event (en_waiters e ! n))
    (e\<lparr>en_waiters := drop_nth n (en_waiters e)\<rparr>))"
proof -
  let ?w = "en_waiters e ! n" and ?e = "e\<lparr>en_waiters := drop_nth n (en_waiters e)\<rparr>"
  have w: "waiter_ok e ?w" using abort_invD(9) [OF inv] n by simp
  have split: "en_waiters e = take n (en_waiters e) @ ?w # drop (Suc n) (en_waiters e)"
    using n by (simp add: id_take_nth_drop)
  have dn: "set (drop_nth n (en_waiters e)) \<subseteq> set (en_waiters e)"
    unfolding drop_nth_def by (auto dest: in_set_takeD in_set_dropD)
  have d: "distinct (map wt_slot (take n (en_waiters e) @ ?w # drop (Suc n) (en_waiters e)))"
    using abort_invD(10) [OF inv] split by simp
  have sw: "slot_workers ?e = slot_workers e" by (simp add: slot_workers_def fun_eq_iff)
  have inv': "abort_inv ?e"
  proof -
    have d1: "distinct (map wt_slot (drop_nth n (en_waiters e)))" using d by (simp add: drop_nth_def)
    have ok: "aslot_ok ?e i = aslot_ok e i" "waiter_ok ?e v = waiter_ok e v" for i v
      by (simp_all add: aslot_ok_def waiter_ok_def sw)
    have "\<forall>v \<in> set (drop_nth n (en_waiters e)). waiter_ok e v" using abort_invD(9) [OF inv] dn by blast
    with inv d1 show ?thesis unfolding abort_inv_def ok by simp
  qed
  have idle: "slot_workers ?e (wt_slot ?w) = []"
  proof -
    have "x \<notin> set (slot_workers e (wt_slot ?w))" for x
      using w gone by (auto simp: waiter_ok_def find_worker_def find_None_iff slot_workers_def)
    then show ?thesis unfolding sw by (metis list.set_intros(1) neq_Nil_conv)
  qed
  have "wt_slot v \<noteq> wt_slot ?w" if "v \<in> set (en_waiters ?e)" for v
  proof -
    have "wt_slot ?w \<notin> wt_slot ` set (drop_nth n (en_waiters e))" using d by (auto simp: drop_nth_def)
    moreover have "wt_slot v \<in> wt_slot ` set (drop_nth n (en_waiters e))" using that by simp
    ultimately show ?thesis by metis
  qed
  from start_abort_inv [OF inv' _ idle this] w show ?thesis by (simp add: waiter_ok_def)
qed

lemma abort_step_inv:
  assumes inv: "abort_inv e" and Q: "abort_steps e lk ev"
  shows "engine_step lk fs start e ev = Disabled \<or> (\<exists>e'. engine_step lk fs start e ev = Next e' \<and> abort_inv e')"
proof (cases ev)
  case (Activate t)
  with abort_activate_inv [OF inv, of t fs start] Q show ?thesis by (simp add: abort_steps_def)
next
  case (Receive l ev')
  with abort_receive_inv [OF inv] Q show ?thesis by blast
next
  case (Timer i)
  with abort_invD(8) [OF inv, of i] show ?thesis by (auto simp: aslot_ok_def Let_def)
next
  case (Callback i n)
  with abort_invD(8) [OF inv, of i] show ?thesis by (auto simp: aslot_ok_def Let_def)
next
  case (Begin w)
  with abort_begin_inv [OF inv, of w] show ?thesis by (auto split: option.splits)
next
  case (Finish w)
  with abort_finish_inv [OF inv, of w] show ?thesis by (auto split: option.splits)
next
  case (Wake n)
  with abort_wake_inv [OF inv, of n] show ?thesis by (auto simp: Let_def)
qed (use abort_deactivate_inv [OF inv] abort_stop_inv [OF inv] abort_loops_inv [OF inv] in \<open>auto split: option.splits\<close>)

lemma abort_reach_inv: "engine_reach abort_steps e \<Longrightarrow> abort_inv e"
proof (induction rule: engine_reach.induct)
  case reach_new
  show ?case by (simp add: abort_inv_def new_engine_def)
next
  case (reach_step e lk ev fs start e')
  from abort_step_inv [OF reach_step.IH reach_step.hyps(2), of fs start] reach_step.hyps(3) show ?case by auto
qed

lemma abort_run_reach:
  "engine_reach Q e \<Longrightarrow> engine_run lk fs start e evs = Some e' \<Longrightarrow>
     (\<And>e ev. ev \<in> set evs \<Longrightarrow> Q e lk ev) \<Longrightarrow> engine_reach Q e'"
proof (induction evs arbitrary: e)
  case (Cons ev evs)
  then obtain e1 where s: "engine_step lk fs start e ev = Next e1" "engine_run lk fs start e1 evs = Some e'"
    by (auto split: outcome.splits)
  have "Q e lk ev" using Cons.prems(3) by simp
  from Cons.IH [OF reach_step [OF Cons.prems(1) this s(1)] s(2) Cons.prems(3)] show ?case by simp
qed simp

text \<open>
  C4: abort mode without debouncing, for triggers activated once: there is never more than one
  worker of a trigger, it is the one that \<open>abortCancel\<close> belongs to, so a new event never calls a
  nil function; a dispatcher that waits has cancelled that worker, and no two dispatchers wait
  for one trigger.
\<close>

theorem engine_abort_exclusive:
  assumes "engine_reach abort_steps e" "i < length (en_slots e)" "abort_steps e lk ev"
  shows "length (slot_workers e i) \<le> 1 \<and>
    sl_abort (en_slots e ! i) = (case slot_workers e i of [] \<Rightarrow> None | x # _ \<Rightarrow> Some (wk_id x)) \<and>
    list_all (\<lambda>w. list_all (\<lambda>x. wk_id x = wt_for w \<and> wk_aborted x) (slot_workers e (wt_slot w))) (en_waiters e) \<and>
    distinct (map wt_slot (en_waiters e)) \<and> engine_step lk fs start e ev \<noteq> Panic"
proof -
  note inv = abort_reach_inv [OF assms(1)]
  have "engine_step lk fs start e ev \<noteq> Panic" using abort_step_inv [OF inv assms(3), of fs start] by auto
  moreover have "length (slot_workers e i) \<le> 1 \<and>
    sl_abort (en_slots e ! i) = (case slot_workers e i of [] \<Rightarrow> None | x # _ \<Rightarrow> Some (wk_id x))"
    using abort_invD(8) [OF inv assms(2)] by (auto simp: aslot_ok_def Let_def split: if_splits)
  ultimately show ?thesis
    using abort_invD(9,10) [OF inv] by (auto simp: list_all_iff waiter_ok_def)
qed

definition abort_trig :: "int \<Rightarrow> trigger" where
  "abort_trig d = sample_trig\<lparr>tr_concurrency_mode := ''abort'', tr_debounce := d\<rparr>"

theorem engine_abort_exclusive_witness:
  "\<exists>e. sample_run (abort_trig 0) [Activate (abort_trig 0), Receive 0 (sample_event ''a''), Begin 0, Receive 0 (sample_event ''b'')] = Some e \<and>
     map wk_aborted (slot_workers e 0) = [True] \<and> length (en_waiters e) = 1 \<and>
     list_all (\<lambda>w. list_all (\<lambda>x. wk_id x = wt_for w \<and> wk_aborted x) (slot_workers e (wt_slot w))) (en_waiters e)"
proof -
  let ?lk = "sample_lookup (abort_trig 0)"
  have Q: "abort_steps e ?lk ev" if "\<And>t. ev \<noteq> Activate t" for e ev
    using that by (cases ev) (auto simp: abort_steps_def sample_lookup_def abort_trig_def)
  have Q0: "abort_steps new_engine ?lk (Activate (abort_trig 0))"
    by (simp add: abort_steps_def sample_lookup_def abort_trig_def new_engine_def)
  let ?fs = "[\<lambda>t. Inr (Some ''d'')] :: (trigger \<Rightarrow> string + string option) list" and ?st = "\<lambda>d. None"
  obtain e1 where e1: "engine_step ?lk ?fs ?st new_engine (Activate (abort_trig 0)) = Next e1"
    by (simp add: engine_eval)
  have r1: "engine_reach abort_steps e1" by (rule reach_step [where Q = abort_steps, OF reach_new Q0 e1])
  obtain e where e: "sample_run (abort_trig 0) [Activate (abort_trig 0), Receive 0 (sample_event ''a''), Begin 0, Receive 0 (sample_event ''b'')] = Some e"
    and f: "map wk_aborted (slot_workers e 0) = [True]" "length (en_waiters e) = 1" "length (en_slots e) = 1"
    by (simp add: sample_run_def abort_trig_def sample_trig_def engine_eval slot_workers_def)
  have "engine_run ?lk ?fs ?st e1 [Receive 0 (sample_event ''a''), Begin 0, Receive 0 (sample_event ''b'')] = Some e"
    using e e1 by (simp add: sample_run_def)
  from abort_run_reach [OF r1 this] Q have "engine_reach abort_steps e" by auto
  from engine_abort_exclusive [OF this _ Q [of Release], of 0 "[]" "\<lambda>_. None"] e f show ?thesis by auto
qed

text \<open>
  With debouncing the dispatchers are timer callbacks, and two of them can wait for one worker:
  both are woken by its end, the second does not look at \<open>running\<close> again, and two workers run.
\<close>

lemma abort_debounce_overlap:
  "\<exists>e. sample_run (abort_trig 1)
     [Activate (abort_trig 1),
      Receive 0 (sample_event ''a''), Timer 0, Callback 0 0, Begin 0,
      Receive 0 (sample_event ''b''), Timer 0, Callback 0 0,
      Receive 0 (sample_event ''c''), Timer 0, Callback 0 0,
      Finish 0, Wake 0, Wake 0, Begin 1, Begin 2] = Some e \<and>
   length (filter wk_begun (slot_workers e 0)) = 2"
  by (simp add: sample_run_def abort_trig_def sample_trig_def engine_eval slot_workers_def)

text \<open>
  If a reload changes the mode to \<open>abort\<close> while a worker of the \<open>queue\<close> mode runs, an event that
  arrives before the reload deactivates the trigger calls the nil \<open>abortCancel\<close>.
\<close>

lemma mode_change_panics:
  "\<exists>e. sample_run sample_trig [Activate sample_trig, Receive 0 (sample_event ''a'')] = Some e \<and>
     engine_step (sample_lookup (abort_trig 0)) [] (\<lambda>_ :: string. None) e (Receive 0 (sample_event ''b'')) = Panic"
  by (simp add: sample_run_def abort_trig_def sample_trig_def engine_eval)

text \<open>A debounce timer survives \<open>StopAll\<close>, and its callback still starts a worker.\<close>

lemma stop_all_keeps_timers:
  "\<exists>e. sample_run (sample_trig\<lparr>tr_debounce := 1\<rparr>)
     [Activate (sample_trig\<lparr>tr_debounce := 1\<rparr>), Receive 0 (sample_event ''a''), Stop_All, Timer 0, Callback 0 0] = Some e \<and>
     en_stopped e \<and> length (en_workers e) = 1"
  by (simp add: sample_run_def sample_trig_def engine_eval stop_all_def amap_vals_def)

text \<open>A trigger whose plugin exited stays in the \<open>active\<close> map, so activating it again does nothing.\<close>

lemma crashed_stays_active:
  "\<exists>e. sample_run sample_trig [Activate sample_trig, Closed 0, Activate sample_trig] = Some e \<and>
     en_loops e = [] \<and> map_of (en_active e) (tr_id sample_trig) = Some 0"
  by (simp add: sample_run_def sample_trig_def engine_eval)

end
