(* ===== verification/Engine_Lookup.thy ===== *)
theory Engine_Lookup
  imports Engine_Abort
begin

text \<open>
  What the engine asks of its \<open>TriggerLookup\<close>, the registry as the provider, the life cycle of a
  driver, and the router that hands the events of external plugins to the dispatch loops.
\<close>

section \<open>The lookup interface\<close>

locale trigger_lookup =
  fixes get_trig :: "'s \<Rightarrow> string \<Rightarrow> trigger option"
    and get_acts :: "'s \<Rightarrow> string \<Rightarrow> action list"
    and ok :: "'s \<Rightarrow> bool"
  assumes trig_id: "ok s \<Longrightarrow> get_trig s tid = Some t \<Longrightarrow> tr_id t = tid"
    and acts_of: "ok s \<Longrightarrow> a \<in> set (get_acts s tid) \<Longrightarrow> ac_trigger_id a = tid"
    and acts_none: "get_trig s tid = None \<Longrightarrow> get_acts s tid = []"
begin

text \<open>\<open>handleEvent\<close> runs the active actions of an active trigger, in order, and nothing else.\<close>

lemma handle_event_eq:
  "handle_event get_trig get_acts fired exec on_fired now tid ev s =
     (if \<not> trigger_active (get_trig s tid) then s
      else on_fired (foldl (\<lambda>s a. exec s a (event_vars now ev)) (fired s tid now)
        (filter (\<lambda>a. ac_status a = st_active) (get_acts (fired s tid now) tid))))"
proof -
  have "foldl (\<lambda>s a. if ac_status a = st_active then exec s a v else s) s0 as =
      foldl (\<lambda>s a. exec s a v) s0 (filter (\<lambda>a. ac_status a = st_active) as)" for s0 as v
    by (induction as arbitrary: s0) auto
  then show ?thesis by (simp add: handle_event_def Let_def)
qed

lemma handle_event_own_actions:
  assumes "ok s" "ok (fired s tid now)" "a \<in> set (filter (\<lambda>a. ac_status a = st_active) (get_acts (fired s tid now) tid))"
  shows "ac_trigger_id a = tid" "ac_status a = st_active"
  using assms acts_of by auto

end

lemma get_actions_none: "get_trigger r tid = None \<Longrightarrow> get_actions_for_trigger r tid = []"
  by (simp add: get_trigger_def get_actions_for_trigger_def)

lemma get_actions_own: "a \<in> set (get_actions_for_trigger r tid) \<Longrightarrow> ac_trigger_id a = tid"
  by (auto simp: get_actions_for_trigger_def split: option.splits)

interpretation rl: trigger_lookup get_trigger get_actions_for_trigger reg_inv
proof unfold_locales
  fix r tid t a
  show "reg_inv r \<Longrightarrow> get_trigger r tid = Some t \<Longrightarrow> tr_id t = tid"
    using links_trigger(1) [OF reg_invD(2)] by (simp add: get_trigger_def)
  show "reg_inv r \<Longrightarrow> a \<in> set (get_actions_for_trigger r tid) \<Longrightarrow> ac_trigger_id a = tid"
    by (rule get_actions_own)
  show "get_trigger r tid = None \<Longrightarrow> get_actions_for_trigger r tid = []"
    by (rule get_actions_none)
qed

section \<open>Activation and deactivation\<close>

text \<open>
  activating a trigger. On a stopped engine it is an error, on an active trigger a success
  that changes nothing; otherwise the first factory that handles the type decides: its error, the
  lack of any driver, or the driver's failure to start is reported and the engine is unchanged,
  and on success the trigger is active on a new idle slot with a live loop. Deactivating it then
  takes it out of the \<open>active\<close> map and cancels its context and its armed timer, and leaves other
  triggers alone.
\<close>

theorem activate_deactivate:
  "let (err, e1) = activate fs start t e; e2 = deactivate (tr_id t) e1 in
    (en_stopped e \<longrightarrow> err = Some ''engine is stopped'' \<and> e1 = e) \<and>
    (\<not> en_stopped e \<and> map_of (en_active e) (tr_id t) \<noteq> None \<longrightarrow> err = None \<and> e1 = e) \<and>
    (\<not> en_stopped e \<and> map_of (en_active e) (tr_id t) = None \<longrightarrow>
       (case pick_driver fs t of
          Inl m \<Rightarrow> err = Some m \<and> e1 = e
        | Inr d \<Rightarrow> (case start d of
            Some m \<Rightarrow> err = Some (''failed to start plugin for trigger type '' @ tr_type t @ '': '' @ m) \<and> e1 = e
          | None \<Rightarrow> err = None \<and> map_of (en_active e1) (tr_id t) = Some (length (en_slots e)) \<and>
              en_slots e1 = en_slots e @ [new_slot (tr_id t)] \<and> length (en_slots e) \<in> set (en_loops e1) \<and>
              map_of (en_active e2) (tr_id t) = None \<and>
              sl_cancelled (en_slots e2 ! length (en_slots e)) \<and> sl_timer (en_slots e2 ! length (en_slots e)) = None \<and>
              (tid \<noteq> tr_id t \<longrightarrow> map_of (en_active e2) tid = map_of (en_active e) tid))))"
  by (auto simp: activate_def deactivate_def upd_slot_def Let_def split: sum.splits option.splits)

theorem activate_deactivate_witness:
  "fst (activate [\<lambda>t. Inr None, \<lambda>t. Inr (Some ''d'')] (\<lambda>d. None) sample_trig new_engine) = None \<and>
   fst (activate [\<lambda>t. Inl ''boom'', \<lambda>t. Inr (Some ''d'')] (\<lambda>d. None) sample_trig new_engine) \<noteq> None"
  using activate_deactivate [of "[\<lambda>t. Inr None, \<lambda>t. Inr (Some ''d'')]" "\<lambda>d. None" sample_trig new_engine "[]"]
    activate_deactivate [of "[\<lambda>t. Inl ''boom'', \<lambda>t. Inr (Some ''d'')]" "\<lambda>d. None" sample_trig new_engine "[]"]
  by (auto simp: new_engine_def Let_def split: prod.splits)

section \<open>The router of plugin events\<close>

text \<open>
  \<open>PluginEventRouter\<close>: trigger identifiers to the channels of their drivers. A channel is a
  buffer of 16 events in the heap \<open>ro_bufs\<close>, filled by \<open>Deliver\<close> and emptied by a dispatch loop.
\<close>

record router =
  ro_channels :: "(string, nat) amap"
  ro_bufs :: "event list list"

definition new_router :: router where
  "new_router = \<lparr>ro_channels = [], ro_bufs = []\<rparr>"

definition channel_cap :: nat where "channel_cap = 16"

definition router_register :: "string \<Rightarrow> nat \<Rightarrow> router \<Rightarrow> router" where
  "router_register tid ch r = r\<lparr>ro_channels := AList.update tid ch (ro_channels r)\<rparr>"

definition router_deregister :: "string \<Rightarrow> router \<Rightarrow> router" where
  "router_deregister tid r = r\<lparr>ro_channels := AList.delete tid (ro_channels r)\<rparr>"

definition router_deliver :: "string \<Rightarrow> event \<Rightarrow> router \<Rightarrow> string option \<times> router" where
  "router_deliver tid ev r =
     (case map_of (ro_channels r) tid of
        None \<Rightarrow> (Some (''trigger '' @ tid @ '' is not registered''), r)
      | Some ch \<Rightarrow>
          if length (ro_bufs r ! ch) < channel_cap
          then (None, r\<lparr>ro_bufs := (ro_bufs r)[ch := ro_bufs r ! ch @ [ev]]\<rparr>)
          else (Some (''trigger '' @ tid @ '' event channel is full''), r))"

text \<open>A driver starts: \<open>make(chan TriggerEvent, 16)\<close>, then \<open>Register\<close>. A loop receives: the oldest event.\<close>

definition driver_channel :: "string \<Rightarrow> router \<Rightarrow> nat \<times> router" where
  "driver_channel tid r =
     (length (ro_bufs r), router_register tid (length (ro_bufs r)) (r\<lparr>ro_bufs := ro_bufs r @ [[]]\<rparr>))"

definition router_receive :: "nat \<Rightarrow> router \<Rightarrow> event option \<times> router" where
  "router_receive ch r =
     (case ro_bufs r ! ch of
        [] \<Rightarrow> (None, r)
      | ev # rest \<Rightarrow> (Some ev, r\<lparr>ro_bufs := (ro_bufs r)[ch := rest]\<rparr>))"

datatype router_op = Start_Driver string | Stop_Driver string | Deliver string event | Receive_From nat

fun router_step :: "router \<Rightarrow> router_op \<Rightarrow> router" where
  "router_step r (Start_Driver tid) = snd (driver_channel tid r)"
| "router_step r (Stop_Driver tid) = router_deregister tid r"
| "router_step r (Deliver tid ev) = snd (router_deliver tid ev r)"
| "router_step r (Receive_From ch) = (if ch < length (ro_bufs r) then snd (router_receive ch r) else r)"

definition router_ok :: "router \<Rightarrow> bool" where
  "router_ok r \<longleftrightarrow> (\<forall>tid ch. map_of (ro_channels r) tid = Some ch \<longrightarrow> ch < length (ro_bufs r)) \<and>
     list_all (\<lambda>b. length b \<le> channel_cap) (ro_bufs r)"

lemma router_step_ok: "router_ok r \<Longrightarrow> router_ok (router_step r p)"
proof (cases p)
  case (Deliver tid ev)
  assume ok: "router_ok r"
  show ?thesis
  proof (cases "map_of (ro_channels r) tid")
    case None
    with ok Deliver show ?thesis by (simp add: router_deliver_def)
  next
    case (Some ch)
    with ok have "ch < length (ro_bufs r)" by (auto simp: router_ok_def)
    with ok Deliver Some show ?thesis
      by (auto simp: router_deliver_def router_ok_def list_all_length nth_list_update)
  qed
next
  case (Receive_From ch)
  assume ok: "router_ok r"
  then have "length (ro_bufs r ! ch) \<le> channel_cap" if "ch < length (ro_bufs r)"
    using that by (simp add: router_ok_def list_all_length)
  with ok Receive_From show ?thesis
    by (auto simp: router_receive_def router_ok_def list_all_length nth_list_update split: list.splits)
qed (auto simp: router_ok_def driver_channel_def router_register_def router_deregister_def split: if_splits intro: less_SucI)

interpretation rom: machine router_step "\<lambda>_ _. True" router_ok
  by unfold_locales (rule router_step_ok)


end
