(* ===== verification/Atomic_File.thy ===== *)
theory Atomic_File
  imports Go_Values
begin

text \<open>
  Crash-safe files (\<open>infra/fs/atomicfile\<close>) and the PID file (\<open>infra/os/process\<close>). A file system
  state is the directory that holds the file, names to contents; every operation of the source
  stays in that directory. Failures of the system calls are given by an environment, and a crash
  is a stop between two of them or in the middle of writing.
\<close>

type_synonym dir = "(string, string) amap"

record os_env =
  os_mkdir :: "string option"
  os_create :: "string option"
  os_write :: "(string \<times> nat) option"
  os_close :: "string option"
  os_rename :: "string option"
  os_stuck :: "string \<Rightarrow> bool"

text \<open>
  \<open>os_write = Some (e, n)\<close>: the write fails with \<open>e\<close> after \<open>n\<close> bytes. \<open>os_stuck\<close>: the names that
  \<open>os.Remove\<close> fails on. Paths are taken to be free of the special characters of \<open>filepath.Glob\<close>.
\<close>

definition os_fine :: os_env where
  "os_fine = \<lparr>os_mkdir = None, os_create = None, os_write = None, os_close = None, os_rename = None, os_stuck = (\<lambda>_. False)\<rparr>"

definition rename_file :: "string \<Rightarrow> string \<Rightarrow> dir \<Rightarrow> dir" where
  "rename_file a b d = (case map_of d a of None \<Rightarrow> d | Some c \<Rightarrow> AList.update b c (AList.delete a d))"

definition temp_prefix :: "string \<Rightarrow> string" where
  "temp_prefix path = trim_suffix (path_base path) (path_ext (path_base path))"

definition temp_name :: "string \<Rightarrow> string \<Rightarrow> string" where
  "temp_name path ts = temp_prefix path @ ''-'' @ ts @ path_ext (path_base path) @ ''.tmp''"

section \<open>Writing\<close>

definition af_write :: "os_env \<Rightarrow> string \<Rightarrow> string \<Rightarrow> string \<Rightarrow> dir \<Rightarrow> string option \<times> dir" where
  "af_write env path ts data d =
     (case os_mkdir env of
        Some e \<Rightarrow> (Some (''creating directory: '' @ e), d)
      | None \<Rightarrow>
          (case os_create env of
             Some e \<Rightarrow> (Some (''writing temp file: '' @ e), d)
           | None \<Rightarrow>
               (case os_write env of
                  Some (e, n) \<Rightarrow> (Some (''writing temp file: '' @ e), AList.update (temp_name path ts) (take n data) d)
                | None \<Rightarrow>
                    (let d1 = AList.update (temp_name path ts) data d in
                     case os_rename env of
                       Some e \<Rightarrow> (Some (''renaming temp file: '' @ e),
                         if os_stuck env (temp_name path ts) then d1 else AList.delete (temp_name path ts) d1)
                     | None \<Rightarrow> (None, rename_file (temp_name path ts) (path_base path) d1)))))"

section \<open>Recovery\<close>

text \<open>
  \<open>filepath.Glob\<close> of \<open>prefix-*ext.tmp\<close>, for a directory and a prefix without pattern characters.
\<close>

definition temp_match :: "string \<Rightarrow> string \<Rightarrow> bool" where
  "temp_match path name \<longleftrightarrow>
     (let pre = temp_prefix path @ ''-''; suf = path_ext (path_base path) @ ''.tmp''
      in has_prefix name pre \<and> has_suffix name suf \<and> length pre + length suf \<le> length name)"

definition temp_files :: "string \<Rightarrow> dir \<Rightarrow> string list" where
  "temp_files path d = sort (filter (temp_match path) (amap_keys d))"

definition remove_files :: "os_env \<Rightarrow> string list \<Rightarrow> dir \<Rightarrow> dir" where
  "remove_files env ns d = foldl (\<lambda>d n. if os_stuck env n then d else AList.delete n d) d ns"

text \<open>Both branches of the source's test for the canonical file promote the newest temporary file.\<close>

definition af_recover :: "os_env \<Rightarrow> string \<Rightarrow> dir \<Rightarrow> string option \<times> dir" where
  "af_recover env path d =
     (let entries = temp_files path d in
      if entries = [] then (None, d)
      else
        let newest = last entries in
        case os_rename env of
          Some e \<Rightarrow> (Some (''promoting temp file: '' @ e), d)
        | None \<Rightarrow>
            (None, remove_files env (filter (\<lambda>n. n \<noteq> newest) entries) (rename_file newest (path_base path) d)))"

section \<open>Names\<close>

lemma length_trim_suffix: "length s \<le> length (trim_suffix s p) + length p"
  by (auto simp: trim_suffix_def has_suffix_iff)

lemma temp_name_length: "length (path_base path) < length (temp_name path ts)"
  using length_trim_suffix [of "path_base path" "path_ext (path_base path)"]
  by (simp add: temp_name_def temp_prefix_def)

lemma temp_name_ne [simp]: "temp_name path ts \<noteq> path_base path" "path_base path \<noteq> temp_name path ts"
  using temp_name_length [of path ts] by (metis less_irrefl)+

lemma temp_match_name [simp]: "temp_match path (temp_name path ts)"
  by (simp add: temp_match_def temp_name_def Let_def has_prefix_iff has_suffix_iff)

lemma temp_match_base [simp]: "\<not> temp_match path (path_base path)"
  using length_trim_suffix [of "path_base path" "path_ext (path_base path)"]
  by (auto simp: temp_match_def Let_def temp_prefix_def)

lemma rename_lookup:
  "map_of d a = Some c \<Longrightarrow> map_of (rename_file a b d) n = (if n = b then Some c else if n = a then None else map_of d n)"
  by (simp add: rename_file_def)

lemma remove_files_lookup:
  "map_of (remove_files env ns d) n = (if n \<in> set ns \<and> \<not> os_stuck env n then None else map_of d n)"
  by (induction ns arbitrary: d) (auto simp: remove_files_def)

lemma temp_files_set: "n \<in> set (temp_files path d) \<longleftrightarrow> temp_match path n \<and> map_of d n \<noteq> None"
  by (auto simp: temp_files_def amap_keys_def amap_map_of_None)

section \<open>What a writer promises\<close>

text \<open>
  The contract behind which the state, the configuration and recurfiles are saved: without an error the
  file holds the data, with one it is as it was, and beside it at most the temporary file changes.
\<close>

locale whole_writer =
  fixes put :: "string \<Rightarrow> dir \<Rightarrow> string option \<times> dir"
    and target temp :: string
  assumes write_ok: "put data d = (None, d') \<Longrightarrow> map_of d' target = Some data"
    and write_err: "put data d = (Some e, d') \<Longrightarrow> map_of d' target = map_of d target"
    and write_other: "put data d = (r, d') \<Longrightarrow> n \<noteq> target \<Longrightarrow> n \<noteq> temp \<Longrightarrow> map_of d' n = map_of d n"
begin

lemma write_whole: "put data d = (r, d') \<Longrightarrow> map_of d' target = (if r = None then Some data else map_of d target)"
  by (cases r) (auto dest: write_ok write_err)

text \<open>What is true of the content before and of the data is true of the content after.\<close>

lemma write_keeps:
  assumes "put data d = (r, d')" "P data" "\<And>c. map_of d target = Some c \<Longrightarrow> P c" "map_of d' target = Some c"
  shows "P c"
  using assms(2-4) write_whole [OF assms(1)] by (auto split: if_splits)

end

interpretation aw: whole_writer "af_write env path ts" "path_base path" "temp_name path ts" for env path ts
  by unfold_locales (auto simp: af_write_def rename_lookup Let_def split: option.splits prod.splits if_splits)

section \<open>Crashes\<close>

text \<open>
  The directory states a write goes through: before, with a temporary file that holds the first
  \<open>n\<close> bytes, and renamed.
\<close>

definition write_states :: "string \<Rightarrow> string \<Rightarrow> string \<Rightarrow> dir \<Rightarrow> dir list" where
  "write_states path ts data d =
     d # map (\<lambda>n. AList.update (temp_name path ts) (take n data) d) [0..<Suc (length data)] @
     [snd (af_write os_fine path ts data d)]"

lemma af_write_fine:
  "af_write os_fine path ts data d =
     (None, rename_file (temp_name path ts) (path_base path) (AList.update (temp_name path ts) data d))"
  by (simp add: af_write_def os_fine_def)

lemma temp_files_one:
  assumes "temp_files path d = []" "map_of d' = (map_of d)(temp_name path ts \<mapsto> c)" "amap_ok d'"
  shows "temp_files path d' = [temp_name path ts]"
proof -
  have m: "set (temp_files path d') = {temp_name path ts}"
  proof -
    have "\<not> (temp_match path n \<and> map_of d n \<noteq> None)" for n
      using assms(1) temp_files_set [of n path d] by auto
    then show ?thesis by (auto simp: temp_files_set assms(2) split: if_splits)
  qed
  have "distinct (temp_files path d')"
    using assms(3) by (simp add: temp_files_def amap_keys_def amap_ok_def)
  with m show ?thesis
    by (metis distinct_card length_0_conv length_Suc_conv card.empty card_insert_disjoint finite.emptyI insert_absorb
      list.set_intros(1) One_nat_def empty_iff singleton_iff)
qed

text \<open>
  C10: a write is atomic. Whenever it is stopped, the file has its old content or exactly the new
  one, and other files are untouched; a write that reports an error leaves the file as it was,
  and one that reports none leaves the new content and no temporary file.
\<close>

theorem write_atomic:
  "list_all (\<lambda>s. map_of s (path_base path) \<in> {map_of d (path_base path), Some data} \<and>
      (name = path_base path \<or> name = temp_name path ts \<or> map_of s name = map_of d name)) (write_states path ts data d) \<and>
    (case af_write env path ts data d of
       (Some e, d') \<Rightarrow> map_of d' (path_base path) = map_of d (path_base path)
     | (None, d') \<Rightarrow> map_of d' (path_base path) = Some data \<and> map_of d' (temp_name path ts) = None)"
proof -
  have "map_of s (path_base path) \<in> {map_of d (path_base path), Some data} \<and>
      (name = path_base path \<or> name = temp_name path ts \<or> map_of s name = map_of d name)"
    if "s \<in> set (write_states path ts data d)" for s
    using that by (auto simp: write_states_def af_write_fine rename_lookup simp del: upt_Suc split: if_splits)
  moreover have "case af_write env path ts data d of
       (Some e, d') \<Rightarrow> map_of d' (path_base path) = map_of d (path_base path)
     | (None, d') \<Rightarrow> map_of d' (path_base path) = Some data \<and> map_of d' (temp_name path ts) = None"
    by (auto simp: af_write_def rename_lookup Let_def split: option.splits prod.splits)
  ultimately show ?thesis by (simp add: list_all_iff)
qed

text \<open>
  recovery. In a directory without temporary files it changes nothing; with one left by a
  crashed write it promotes that file, whatever it holds, and leaves no temporary file behind:
  the new content if the crash came after writing, but the truncated one if it came during it;
  if the rename fails, it reports that and changes nothing.
\<close>

theorem recover_promotes:
  assumes "amap_ok d" "temp_files path d = []"
  shows "af_recover env path d = (None, d) \<and>
    (let d' = AList.update (temp_name path ts) (take n data) d in
     case af_recover env path d' of
       (Some e, d'') \<Rightarrow> os_rename env \<noteq> None \<and> d'' = d'
     | (None, d'') \<Rightarrow> map_of d'' (path_base path) = Some (take n data) \<and> temp_files path d'' = [] \<and>
         (name = path_base path \<or> map_of d'' name = map_of d name))"
proof -
  let ?d = "AList.update (temp_name path ts) (take n data) d"
  have one: "temp_files path ?d = [temp_name path ts]"
    by (rule temp_files_one [OF assms(2)]) (use assms(1) in auto)
  have none: "map_of d (temp_name path ts) = None"
    using assms(2) temp_files_set [of "temp_name path ts" path d] by simp
  have l: "map_of (rename_file (temp_name path ts) (path_base path) ?d) m =
      (if m = path_base path then Some (take n data) else if m = temp_name path ts then None else map_of d m)" for m
    by (simp add: rename_lookup)
  have "temp_files path (rename_file (temp_name path ts) (path_base path) ?d) = []"
  proof -
    have "m \<notin> set (temp_files path (rename_file (temp_name path ts) (path_base path) ?d))" for m
    proof -
      have "\<not> (temp_match path m \<and> map_of d m \<noteq> None)" using assms(2) temp_files_set [of m path d] by simp
      then show ?thesis unfolding temp_files_set l by (auto split: if_splits)
    qed
    then show ?thesis by (metis list.set_intros(1) neq_Nil_conv)
  qed
  moreover have "af_recover env path d = (None, d)" by (simp add: af_recover_def assms(2))
  ultimately show ?thesis
    using l none by (simp add: af_recover_def one Let_def remove_files_def split: option.splits)
qed

theorem recover_promotes_witness:
  "map_of (snd (af_recover os_fine ''/s/state.json''
      (AList.update (temp_name ''/s/state.json'' ''t'') ''{'' [(path_base ''/s/state.json'', ''{}'')]))) (path_base ''/s/state.json'') = Some ''{''"
proof -
  let ?d = "[(path_base ''/s/state.json'', ''{}'')]"
  have "temp_files ''/s/state.json'' ?d = []" by (simp add: temp_files_def amap_keys_def)
  from recover_promotes [OF _ this, where env = os_fine and ts = "''t''" and n = 1 and data = "''{}''" and name = "[]"] show ?thesis
    by (auto simp: Let_def amap_ok_def simp del: update.simps split: prod.splits option.splits) (simp add: os_fine_def)
qed

section \<open>The PID file\<close>

definition write_pid :: "os_env \<Rightarrow> string \<Rightarrow> string \<Rightarrow> int \<Rightarrow> dir \<Rightarrow> string option \<times> dir" where
  "write_pid env path tmp pid d =
     (case os_mkdir env of
        Some e \<Rightarrow> (Some (''could not create PID directory: '' @ e), d)
      | None \<Rightarrow>
          (case os_create env of
             Some e \<Rightarrow> (Some (''could not create temp PID file: '' @ e), d)
           | None \<Rightarrow>
               (case os_write env of
                  Some (e, n) \<Rightarrow> (Some (''could not write PID: '' @ e), d)
                | None \<Rightarrow>
                    (case os_close env of
                       Some e \<Rightarrow> (Some (''could not close temp PID file: '' @ e), d)
                     | None \<Rightarrow>
                         (case os_rename env of
                            Some e \<Rightarrow> (Some (''could not rename PID file: '' @ e), d)
                          | None \<Rightarrow> (None, rename_file tmp (path_base path) (AList.update tmp (itoa pid @ [CHR 0x0A]) d)))))))"

text \<open>\<open>Inl None\<close>: the file does not exist.\<close>

definition read_pid :: "string \<Rightarrow> dir \<Rightarrow> string option + int" where
  "read_pid path d =
     (case map_of d (path_base path) of
        None \<Rightarrow> Inl None
      | Some c \<Rightarrow>
          (case atoi (trim_space c) of
             None \<Rightarrow> Inl (Some (''invalid PID file contents''))
           | Some n \<Rightarrow> Inr n))"

definition remove_pid :: "os_env \<Rightarrow> string \<Rightarrow> dir \<Rightarrow> bool \<times> dir" where
  "remove_pid env path d =
     (if map_of d (path_base path) \<noteq> None \<and> os_stuck env (path_base path) then (False, d)
      else (True, AList.delete (path_base path) d))"

definition is_running :: "(int \<Rightarrow> bool) \<Rightarrow> string \<Rightarrow> dir \<Rightarrow> bool \<times> int \<times> string option" where
  "is_running alive path d =
     (case read_pid path d of
        Inl None \<Rightarrow> (False, 0, None)
      | Inl (Some e) \<Rightarrow> (False, 0, Some e)
      | Inr pid \<Rightarrow> if alive pid then (True, pid, None) else (False, pid, None))"

lemma digit_not_space: "is_digit c \<Longrightarrow> \<not> is_space c"
  by (auto simp: is_digit_def is_space_def)

lemma itoa_no_space: "c \<in> set (itoa i) \<Longrightarrow> \<not> is_space c"
proof -
  assume "c \<in> set (itoa i)"
  then have "is_digit c \<or> c = CHR ''-''"
    using nat_digits_all by (auto simp: itoa_def list_all_iff split: if_splits)
  then show ?thesis using digit_not_space by (auto simp: is_space_def)
qed

lemma trim_space_itoa: "trim_space (itoa i @ [CHR 0x0A]) = itoa i"
proof -
  have ne: "itoa i \<noteq> []" by (simp add: itoa_def)
  have "dropWhile is_space (itoa i @ [CHR 0x0A]) = itoa i @ [CHR 0x0A]"
    using ne itoa_no_space [of "hd (itoa i)" i] by (cases "itoa i") auto
  moreover have "dropWhile is_space (rev (itoa i)) = rev (itoa i)"
    using ne itoa_no_space [of "last (itoa i)" i] by (cases "rev (itoa i)") (auto simp: last_rev hd_rev dest: arg_cong [of _ _ rev])
  ultimately show ?thesis by (simp add: trim_space_def is_space_def)
qed

text \<open>
  the PID file. Writing a process identifier either fails and leaves the directory alone, or
  makes \<open>ReadPID\<close> return it, so that \<open>IsRunning\<close> tells exactly whether that process lives; after
  removing the file no daemon is running, without an error.
\<close>

theorem pid_roundtrip:
  assumes "- (2 ^ 63) \<le> pid" "pid < 2 ^ 63" "tmp \<noteq> path_base path" "map_of d tmp = None"
  shows "case write_pid env path tmp pid d of
      (Some e, d') \<Rightarrow> d' = d
    | (None, d') \<Rightarrow> read_pid path d' = Inr pid \<and> is_running alive path d' = (alive pid, pid, None) \<and>
        (name = path_base path \<or> map_of d' name = map_of d name) \<and>
        is_running alive path (snd (remove_pid os_fine path d')) = (False, 0, None)"
  using assms atoi_itoa [OF assms(1,2)]
  by (auto simp: write_pid_def read_pid_def is_running_def remove_pid_def os_fine_def rename_lookup trim_space_itoa
      split: option.splits prod.splits)

theorem pid_roundtrip_witness:
  "read_pid ''/run/recur.pid'' (snd (write_pid os_fine ''/run/recur.pid'' ''recur-pid-1.tmp'' 4242 [])) = Inr 4242"
proof -
  have "''recur-pid-1.tmp'' \<noteq> path_base ''/run/recur.pid''" by (simp add: path_base_def)
  from pid_roundtrip [OF _ _ this, where pid = 4242 and d = "[]" and env = os_fine] show ?thesis
    by (auto simp: write_pid_def os_fine_def split: prod.splits)
qed

end
