(* ===== verification/Secrets.thy ===== *)
theory Secrets
  imports Recurfile_Domain
begin

text \<open>
  Secrets (\<open>infra/secret\<close>): the resolvers for environment variables, files and the keyring, the
  composite resolver, and the log redactor. The operating system is an environment: variables,
  files and the keyring provider (\<open>None\<close> when there is none).
\<close>

record secret_env =
  se_getenv :: "string \<Rightarrow> string option"
  se_read :: "string \<Rightarrow> string result"
  se_keyring :: "(string \<Rightarrow> string \<Rightarrow> string result) option"

section \<open>Resolvers\<close>

definition resolve_env :: "secret_env \<Rightarrow> secret_def \<Rightarrow> string result" where
  "resolve_env env d =
     (let v = se_getenv env (sd_ref d) in
      if v = None \<or> v = Some [] then
        if sd_default d \<noteq> [] then Inr (sd_default d)
        else if sd_required d then
          Inl (if sd_error_msg d = [] then ''required environment variable '' @ sd_ref d @ '' is not set'' else sd_error_msg d)
        else if v = None then Inl (''environment variable '' @ sd_ref d @ '' is not set'')
        else Inr []
      else Inr (the v))"

definition resolve_file :: "secret_env \<Rightarrow> secret_def \<Rightarrow> string result" where
  "resolve_file env d =
     (case se_read env (sd_ref d) of
        Inl e \<Rightarrow> Inl (''reading secret file '' @ sd_ref d @ '': '' @ e)
      | Inr s \<Rightarrow> Inr (trim_space s))"

definition resolve_keyring :: "(string \<Rightarrow> string \<Rightarrow> string result) \<Rightarrow> secret_def \<Rightarrow> string result" where
  "resolve_keyring get d =
     (case split2 CHR ''/'' (sd_ref d) of
        (_, None) \<Rightarrow> Inl (''keyring ref must be service/key, got '' @ go_quote (sd_ref d))
      | (service, Some key) \<Rightarrow>
          wrap_err (''keyring lookup '' @ go_quote (sd_ref d) @ '': '') (get service key))"

text \<open>The dash of the source's messages, in UTF-8.\<close>

definition em_dash :: string where "em_dash = [CHR 0xE2, CHR 0x80, CHR 0x94]"

definition resolve_secret :: "secret_env \<Rightarrow> secret_def \<Rightarrow> string result" where
  "resolve_secret env d =
     (if sd_source d = ''env'' then resolve_env env d
      else if sd_source d = ''file'' then resolve_file env d
      else if sd_source d = ''keyring'' then
        (case se_keyring env of
           None \<Rightarrow> Inl (''keyring secret '' @ go_quote (sd_name d) @
             '': keyring not available '' @ em_dash @ '' use env var or file-based secrets on headless systems'')
         | Some get \<Rightarrow> resolve_keyring get d)
      else Inl (''unknown secret source '' @ go_quote (sd_source d) @ '' for '' @ go_quote (sd_name d)))"

text \<open>The first secret that fails is the error; a later definition of a name replaces an earlier one.\<close>

fun resolve_defs :: "secret_env \<Rightarrow> (string, string) amap \<Rightarrow> secret_def list \<Rightarrow> (string, string) amap result" where
  "resolve_defs env m [] = Inr m"
| "resolve_defs env m (d # ds) =
     (case resolve_secret env d of
        Inl e \<Rightarrow> Inl (''secret '' @ go_quote (sd_name d) @ '': '' @ e)
      | Inr v \<Rightarrow> resolve_defs env (AList.update (sd_name d) v m) ds)"

definition resolve_all :: "secret_env \<Rightarrow> secret_def list \<Rightarrow> (string, string) amap option result" where
  "resolve_all env ds =
     (if ds = [] then Inr None
      else case resolve_defs env [] ds of Inl e \<Rightarrow> Inl e | Inr m \<Rightarrow> Inr (Some m))"

lemma resolve_defs_spec:
  "resolve_defs env m ds =
     (case find (\<lambda>d. \<exists>e. resolve_secret env d = Inl e) ds of
        Some d \<Rightarrow> Inl (''secret '' @ go_quote (sd_name d) @ '': '' @ projl (resolve_secret env d))
      | None \<Rightarrow> Inr (put_all m (map (\<lambda>d. (sd_name d, projr (resolve_secret env d))) ds)))"
  by (induction ds arbitrary: m) (auto simp: put_all_def split: sum.splits option.splits)

lemma put_all_lookup: "map_of (put_all m kvs) k = (case map_of (rev kvs) k of None \<Rightarrow> map_of m k | Some v \<Rightarrow> Some v)"
  by (induction kvs arbitrary: m) (auto simp: put_all_def map_add_def split: option.splits)

text \<open>
  \<open>ResolveAll\<close> is all or nothing. It fails exactly when some definition cannot be resolved,
  with the error of the first such definition under its name; otherwise it binds every defined
  name, the last definition of a name winning, and no other. A required environment secret never
  resolves to the empty string.
\<close>

theorem resolve_all_spec:
  "(case resolve_all env ds of
      Inl e \<Rightarrow> (case find (\<lambda>d. \<exists>e. resolve_secret env d = Inl e) ds of
         None \<Rightarrow> False
       | Some d \<Rightarrow> e = ''secret '' @ go_quote (sd_name d) @ '': '' @ projl (resolve_secret env d))
    | Inr None \<Rightarrow> ds = []
    | Inr (Some m) \<Rightarrow> find (\<lambda>d. \<exists>e. resolve_secret env d = Inl e) ds = None \<and>
        map_of m name = map_of (rev (map (\<lambda>d. (sd_name d, projr (resolve_secret env d))) ds)) name) \<and>
   (resolve_env env d = Inr [] \<longrightarrow> \<not> sd_required d)"
proof -
  have "resolve_env env d = Inr [] \<longrightarrow> \<not> sd_required d"
    by (auto simp: resolve_env_def Let_def split: if_splits)
  then show ?thesis
    by (auto simp: resolve_all_def resolve_defs_spec put_all_lookup split: option.splits sum.splits)
qed

definition sample_secret :: "string \<Rightarrow> string \<Rightarrow> secret_def" where
  "sample_secret name ref = \<lparr>sd_name = name, sd_source = ''env'', sd_ref = ref, sd_default = [], sd_required = True, sd_error_msg = []\<rparr>"

definition sample_secret_env :: secret_env where
  "sample_secret_env = \<lparr>se_getenv = (\<lambda>v. if v = ''TOKEN'' then Some ''s3cr3t'' else None), se_read = (\<lambda>_. Inl ''no file''), se_keyring = None\<rparr>"

theorem resolve_all_spec_witness:
  "resolve_all sample_secret_env [sample_secret ''tok'' ''TOKEN''] = Inr (Some [(''tok'', ''s3cr3t'')]) \<and>
   \<not> (resolve_env sample_secret_env (sample_secret ''tok'' ''TOKEN'') = Inr [] \<and> sd_required (sample_secret ''tok'' ''TOKEN''))"
  using resolve_all_spec [of sample_secret_env "[]" "[]" "sample_secret ''tok'' ''TOKEN''"]
  by (simp add: resolve_all_def sample_secret_def sample_secret_env_def resolve_secret_def resolve_env_def)

section \<open>Redaction of logs\<close>

text \<open>A log record: the message and the attributes; only string attributes are redacted.\<close>

datatype attr_value = AStr string | AOther gval

record log_record =
  lr_message :: string
  lr_attrs :: "(string \<times> attr_value) list"

definition redacted :: string where "redacted = ''[REDACTED]''"

definition update_secrets :: "(string, string) amap \<Rightarrow> string list" where
  "update_secrets vals = remdups (filter (\<lambda>v. v \<noteq> []) (amap_vals vals))"

definition redact :: "string list \<Rightarrow> string \<Rightarrow> string" where
  "redact secrets s = foldl (\<lambda>s x. if str_contains s x then replace_all s x redacted else s) s secrets"

fun redact_attr :: "string list \<Rightarrow> string \<times> attr_value \<Rightarrow> string \<times> attr_value" where
  "redact_attr secrets (k, AStr s) = (k, AStr (redact secrets s))"
| "redact_attr secrets (k, AOther v) = (k, AOther v)"

definition redact_record :: "string list \<Rightarrow> log_record \<Rightarrow> log_record" where
  "redact_record secrets r =
     (if secrets = [] then r
      else r\<lparr>lr_message := redact secrets (lr_message r), lr_attrs := map (redact_attr secrets) (lr_attrs r)\<rparr>)"

lemma str_contains_Cons: "str_contains (c # s) u \<longleftrightarrow> has_prefix (c # s) u \<or> str_contains s u"
proof
  assume "str_contains (c # s) u"
  then obtain a b where ab: "c # s = a @ u @ b" by (auto simp: str_contains_iff)
  show "has_prefix (c # s) u \<or> str_contains s u"
  proof (cases a)
    case Nil
    with ab show ?thesis by (auto simp: has_prefix_iff)
  next
    case (Cons x a')
    with ab show ?thesis by (auto simp: str_contains_iff)
  qed
next
  assume "has_prefix (c # s) u \<or> str_contains s u"
  then show "str_contains (c # s) u"
    by (auto simp: str_contains_iff has_prefix_iff) (metis append_Nil, metis append_Cons)
qed

lemma str_contains_append:
  assumes "str_contains (m @ s) u" "u \<noteq> []" "hd u \<notin> set m"
  shows "str_contains s u"
  using assms by (induction m) (auto simp: str_contains_Cons has_prefix_iff Cons_eq_append_conv)

lemma replace_prefix:
  "m \<noteq> [] \<Longrightarrow> hd m \<notin> set u \<Longrightarrow> has_prefix (replace_from 0 old m t) u \<Longrightarrow> has_prefix t u"
proof (induction t arbitrary: u)
  case (Cons c t)
  show ?case
  proof (cases u)
    case (Cons x u')
    with Cons.prems Cons.IH [of u'] show ?thesis
      by (cases m) (auto split: if_splits)
  qed simp
qed simp

text \<open>Replacing creates no occurrence of a string that the marker cannot be part of.\<close>

lemma replace_contains:
  assumes "m \<noteq> []" "u \<noteq> []" "hd u \<notin> set m" "hd m \<notin> set u"
  shows "str_contains (replace_from k old m t) u \<Longrightarrow> str_contains t u"
proof (induction t arbitrary: k)
  case (Cons c t)
  have tl: "str_contains (c # t) u" if "str_contains t u" using that by (simp add: str_contains_Cons)
  show ?case
  proof (cases k)
    case (Suc n)
    with Cons tl show ?thesis by simp
  next
    case 0
    show ?thesis
    proof (cases "has_prefix (c # t) old")
      case True
      with 0 Cons.prems have "str_contains (m @ replace_from (length old - 1) old m t) u" by simp
      from str_contains_append [OF this assms(2,3)] Cons.IH tl show ?thesis by blast
    next
      case False
      with 0 Cons.prems have "has_prefix (c # replace_from 0 old m t) u \<or> str_contains (replace_from 0 old m t) u"
        by (simp add: str_contains_Cons)
      then show ?thesis
      proof
        assume "has_prefix (c # replace_from 0 old m t) u"
        with False have "has_prefix (replace_from 0 old m (c # t)) u" by simp
        from replace_prefix [OF assms(1,4) this] show ?thesis by (simp add: str_contains_Cons)
      next
        assume "str_contains (replace_from 0 old m t) u"
        with Cons.IH tl show ?thesis by blast
      qed
    qed
  qed
qed simp

lemma replace_removes:
  assumes "m \<noteq> []" "u \<noteq> []" "hd u \<notin> set m" "hd m \<notin> set u"
  shows "\<not> str_contains (replace_from k u m t) u"
proof (induction t arbitrary: k)
  case Nil
  with assms(2) show ?case by (simp add: str_contains_iff)
next
  case (Cons c t)
  show ?case
  proof (cases k)
    case (Suc n)
    with Cons show ?thesis by simp
  next
    case 0
    show ?thesis
    proof (cases "has_prefix (c # t) u")
      case True
      with 0 Cons.IH str_contains_append [OF _ assms(2,3)] show ?thesis by auto
    next
      case False
      have "\<not> has_prefix (c # replace_from 0 u m t) u"
        using replace_prefix [OF assms(1,4), of u "c # t"] False by auto
      with 0 False Cons.IH show ?thesis by (simp add: str_contains_Cons)
    qed
  qed
qed

definition redactable :: "string \<Rightarrow> bool" where
  "redactable x \<longleftrightarrow> x \<noteq> [] \<and> hd x \<notin> set redacted \<and> CHR ''['' \<notin> set x"

lemma redact_keeps_absent: "redactable u \<Longrightarrow> \<not> str_contains s u \<Longrightarrow> \<not> str_contains (redact xs s) u"
proof (induction xs arbitrary: s)
  case (Cons x xs)
  have "\<not> str_contains (replace_all s x redacted) u"
    using replace_contains [of redacted u 0 x s] Cons.prems
    by (auto simp: redactable_def replace_all_def redacted_def)
  with Cons show ?case by (simp add: redact_def)
qed (simp add: redact_def)

lemma redact_removes_one: "redactable u \<Longrightarrow> u \<in> set xs \<Longrightarrow> \<not> str_contains (redact xs s) u"
proof (induction xs arbitrary: s)
  case (Cons x xs)
  let ?s = "if str_contains s x then replace_all s x redacted else s"
  have step: "redact (x # xs) s = redact xs ?s" by (simp add: redact_def)
  show ?case
  proof (cases "u = x")
    case True
    have "\<not> str_contains ?s u"
      using replace_removes [of redacted u 0 s] Cons.prems(1) True
      by (auto simp: redactable_def replace_all_def redacted_def)
    with redact_keeps_absent [OF Cons.prems(1)] step show ?thesis by simp
  next
    case False
    with Cons step show ?thesis by simp
  qed
qed simp



text \<open>
  A shorter secret that is visited first leaves the rest of a longer one, a second
  \<open>UpdateSecrets\<close> forgets the values of the first, and other kinds of attributes pass.
\<close>

lemma redact_overlap: "redact [''hunt'', ''hunter2''] ''pw=hunter2'' = ''pw=[REDACTED]er2''"
  by (simp add: redact_def redacted_def replace_all_def str_contains_def str_index_def)

lemma redact_other_attr: "redact_attr [''hunter2''] (''error'', AOther (VStr ''hunter2'')) = (''error'', AOther (VStr ''hunter2''))"
  by simp

section \<open>The redacting handler\<close>

text \<open>
  The redactor wraps a handler of the log library; \<open>rd_inner\<close> is what that has been told. A derived
  handler starts with the secrets of the moment it was derived.
\<close>

datatype handler_step = With_Attrs "(string \<times> attr_value) list" | With_Group string

record redactor =
  rd_inner :: "handler_step list"
  rd_secrets :: "string list"

definition new_redactor :: "handler_step list \<Rightarrow> redactor" where
  "new_redactor inner = \<lparr>rd_inner = inner, rd_secrets = []\<rparr>"

definition rd_update :: "(string, string) amap \<Rightarrow> redactor \<Rightarrow> redactor" where
  "rd_update vals r = r\<lparr>rd_secrets := update_secrets vals\<rparr>"

definition rd_handle :: "redactor \<Rightarrow> log_record \<Rightarrow> handler_step list \<times> log_record" where
  "rd_handle r rec = (rd_inner r, redact_record (rd_secrets r) rec)"

definition rd_with_attrs :: "(string \<times> attr_value) list \<Rightarrow> redactor \<Rightarrow> redactor" where
  "rd_with_attrs as r = \<lparr>rd_inner = rd_inner r @ [With_Attrs as], rd_secrets = rd_secrets r\<rparr>"

definition rd_with_group :: "string \<Rightarrow> redactor \<Rightarrow> redactor" where
  "rd_with_group name r = \<lparr>rd_inner = rd_inner r @ [With_Group name], rd_secrets = rd_secrets r\<rparr>"

text \<open>
  Attributes attached to a derived logger are never redacted, and a logger derived before the
  secrets are known redacts nothing.
\<close>

lemma derived_logger_leaks:
  "fst (rd_handle (rd_with_attrs [(''pw'', AStr ''hunter2'')] (rd_update [(''pw'', ''hunter2'')] (new_redactor []))) rec) =
     [With_Attrs [(''pw'', AStr ''hunter2'')]]"
  "snd (rd_handle (rd_with_attrs as (new_redactor inner)) rec) = rec"
  by (simp_all add: rd_handle_def rd_with_attrs_def rd_update_def new_redactor_def redact_record_def)

end
