(* ===== verification/Executor.thy ===== *)
theory Executor
  imports Registry_Props Secrets
begin

text \<open>
  Executing actions: template resolution (\<open>subprocess/executor/template.go\<close>), subprocess requests
  (\<open>executor.go\<close>, \<open>action_plugin.go\<close>), and the shell and plugin executors of
  \<open>daemon/action.go\<close>. Running a process, JSON, and the part of \<open>text/template\<close> beyond plain
  fields and the \<open>secret\<close> function are parameters.
\<close>

section \<open>Templates\<close>

record ex_context =
  cx_test :: bool
  cx_set :: "(string, string) amap"
  cx_secrets :: "(string, string) amap option"

text \<open>A template of literal text, \<open>{{.Name}}\<close> and \<open>{{secret "name"}}\<close>; others are not simple.\<close>

datatype segment = Lit string | Field string | Secret_Ref string

definition is_tspace :: "char \<Rightarrow> bool" where
  "is_tspace c \<longleftrightarrow> c = CHR '' '' \<or> c = CHR 0x09"

definition field_char :: "char \<Rightarrow> bool" where
  "field_char c \<longleftrightarrow> c = CHR ''_'' \<or> is_digit c \<or> (97 \<le> ord c \<and> ord c \<le> 122) \<or> (65 \<le> ord c \<and> ord c \<le> 90)"

definition parse_action_text :: "string \<Rightarrow> segment option" where
  "parse_action_text a =
     (let t = rev (dropWhile is_tspace (rev (dropWhile is_tspace a))) in
      case t of
        [] \<Rightarrow> None
      | c # name \<Rightarrow>
          if c = CHR ''.'' then
            (if name \<noteq> [] \<and> \<not> is_digit (hd name) \<and> list_all field_char name then Some (Field name) else None)
          else if has_prefix t ''secret '' then
            (let q = dropWhile is_tspace (drop 7 t) in
             if 2 \<le> length q \<and> hd q = CHR 0x22 \<and> last q = CHR 0x22 \<and>
                list_all (\<lambda>c. c \<noteq> CHR 0x22 \<and> c \<noteq> CHR 0x5C \<and> c \<noteq> CHR 0x0A) (butlast (tl q))
             then Some (Secret_Ref (butlast (tl q))) else None)
          else None)"

function parse_template :: "string \<Rightarrow> segment list option" where
  "parse_template s =
     (case str_index s ''{{'' of
        None \<Rightarrow> Some [Lit s]
      | Some i \<Rightarrow>
          (let rest = drop (i + 2) s in
           case str_index rest ''}}'' of
             None \<Rightarrow> None
           | Some j \<Rightarrow>
               (case parse_action_text (take j rest) of
                  None \<Rightarrow> None
                | Some seg \<Rightarrow> map_option (\<lambda>segs. Lit (take i s) # seg # segs) (parse_template (drop (j + 2) rest)))))"
  by pat_completeness auto
termination
proof (relation "measure length")
  fix s i rest j and seg :: segment
  assume "str_index s ''{{'' = Some i" "rest = drop (i + 2) s" "str_index rest ''}}'' = Some j"
  moreover from this(1) have "s \<noteq> []" by (auto simp: str_index_def)
  ultimately show "(drop (j + 2) rest, s) \<in> measure length" by simp
qed simp

declare parse_template.simps [simp del]

text \<open>
  \<open>tp_other\<close> executes any other template: an error, or the text and whether it called \<open>secret\<close>.
  \<open>tp_err\<close> is the text \<open>Execute\<close> reports for the error of a function call.
\<close>

record template_env =
  tp_other :: "string \<Rightarrow> ex_context \<Rightarrow> string + (string \<times> bool)"
  tp_err :: "string \<Rightarrow> string \<Rightarrow> string"

definition template_data :: "ex_context \<Rightarrow> (string, string) amap" where
  "template_data c = put_all [(''Test'', if cx_test c then ''true'' else ''false'')] (cx_set c)"

definition secret_func :: "ex_context \<Rightarrow> string \<Rightarrow> string result" where
  "secret_func c name =
     (case cx_secrets c of
        None \<Rightarrow> Inl (''undefined secret '' @ go_quote name @ '' (no secrets section in recurfile)'')
      | Some m \<Rightarrow> (case map_of m name of
          None \<Rightarrow> Inl (''undefined secret '' @ go_quote name)
        | Some v \<Rightarrow> Inr v))"

fun exec_segs :: "ex_context \<Rightarrow> segment list \<Rightarrow> string + (string \<times> bool)" where
  "exec_segs c [] = Inr ([], False)"
| "exec_segs c (Lit s # segs) = map_sum (\<lambda>e. e) (\<lambda>(t, b). (s @ t, b)) (exec_segs c segs)"
| "exec_segs c (Field f # segs) =
     map_sum (\<lambda>e. e) (\<lambda>(t, b). ((case map_of (template_data c) f of None \<Rightarrow> ''<no value>'' | Some v \<Rightarrow> v) @ t, b))
       (exec_segs c segs)"
| "exec_segs c (Secret_Ref n # segs) =
     (case secret_func c n of
        Inl e \<Rightarrow> Inl e
      | Inr v \<Rightarrow> map_sum (\<lambda>e. e) (\<lambda>(t, b). (v @ t, True)) (exec_segs c segs))"

definition resolve_template :: "template_env \<Rightarrow> string \<Rightarrow> ex_context \<Rightarrow> string + (string \<times> bool)" where
  "resolve_template tp s c =
     (case parse_template s of
        None \<Rightarrow> tp_other tp s c
      | Some segs \<Rightarrow>
          (case exec_segs c segs of
             Inl e \<Rightarrow> Inl (''executing template: '' @ tp_err tp s e)
           | Inr r \<Rightarrow> Inr r))"

text \<open>The resolved options and the keys whose templates called \<open>secret\<close>.\<close>

fun resolve_opts :: "template_env \<Rightarrow> ex_context \<Rightarrow> gmap \<Rightarrow> string + (gmap \<times> string list)" where
  "resolve_opts tp c [] = Inr ([], [])"
| "resolve_opts tp c ((k, v) # kvs) =
     (case v of
        VStr s \<Rightarrow>
          (case resolve_template tp s c of
             Inl e \<Rightarrow> Inl (''option '' @ go_quote k @ '': '' @ e)
           | Inr (t, b) \<Rightarrow> map_sum (\<lambda>e. e) (\<lambda>(m, sens). ((k, VStr t) # m, if b then k # sens else sens)) (resolve_opts tp c kvs))
      | _ \<Rightarrow> map_sum (\<lambda>e. e) (\<lambda>(m, sens). ((k, v) # m, sens)) (resolve_opts tp c kvs))"

definition resolve_options :: "template_env \<Rightarrow> gmap option \<Rightarrow> ex_context \<Rightarrow> string + (gmap option \<times> string list)" where
  "resolve_options tp opts c =
     (case opts of
        None \<Rightarrow> Inr (None, [])
      | Some m \<Rightarrow>
          if m = [] then Inr (opts, [])
          else case resolve_opts tp c m of Inl e \<Rightarrow> Inl e | Inr (r, sens) \<Rightarrow> Inr (Some r, sens))"

section \<open>Subprocess requests\<close>

record request =
  rq_command :: string
  rq_args :: "string list"
  rq_stdin :: string
  rq_env :: "string list"
  rq_dir :: string
  rq_timeout :: int

record proc_result =
  pr_stdout :: string
  pr_stderr :: string
  pr_exit :: int
  pr_duration :: int

text \<open>What \<open>cmd.Run\<close> does: the process exits, the deadline passes without an exit status, or it cannot run.\<close>

datatype proc_outcome = Exited int | Deadline_Exceeded | Cannot_Run string

record proc_run =
  pu_outcome :: proc_outcome
  pu_stdout :: string
  pu_stderr :: string
  pu_duration :: int

definition execute :: "(request \<Rightarrow> proc_run) \<Rightarrow> request \<Rightarrow> string + proc_result" where
  "execute run q =
     (if rq_command q = [] then Inl ''command is required''
      else
        let r = run q;
            res = (\<lambda>code. Inr \<lparr>pr_stdout = pu_stdout r, pr_stderr = pu_stderr r, pr_exit = code, pr_duration = pu_duration r\<rparr>)
        in case pu_outcome r of
             Exited code \<Rightarrow> res code
           | Deadline_Exceeded \<Rightarrow> res (- 1)
           | Cannot_Run e \<Rightarrow> Inl (''executing '' @ rq_command q @ '': '' @ e))"

definition default_shell_command :: string where "default_shell_command = ''sh -c''"

definition shell_request :: "string \<Rightarrow> string \<Rightarrow> request" where
  "shell_request shell command =
     (let parts = (if str_fields shell = [] then str_fields default_shell_command else str_fields shell)
      in \<lparr>rq_command = hd parts, rq_args = tl parts @ [command], rq_stdin = [], rq_env = [], rq_dir = [], rq_timeout = 0\<rparr>)"

section \<open>Executors\<close>

record exec_result =
  xr_action_id :: string
  xr_action_type :: string
  xr_success :: bool
  xr_exit :: int
  xr_output :: string
  xr_error :: string
  xr_duration :: string

definition fail_result :: "action \<Rightarrow> string \<Rightarrow> exec_result" where
  "fail_result a e = \<lparr>xr_action_id = ac_id a, xr_action_type = ac_type a, xr_success = False, xr_exit = 0,
     xr_output = [], xr_error = e, xr_duration = []\<rparr>"

definition run_result :: "action \<Rightarrow> proc_result \<Rightarrow> exec_result" where
  "run_result a p = \<lparr>xr_action_id = ac_id a, xr_action_type = ac_type a, xr_success = (pr_exit p = 0), xr_exit = pr_exit p,
     xr_output = pr_stdout p, xr_error = pr_stderr p, xr_duration = dur_string (pr_duration p)\<rparr>"

definition trim_quotes :: "string \<Rightarrow> string" where
  "trim_quotes s = rev (dropWhile (\<lambda>c. c = CHR 0x22) (rev (dropWhile (\<lambda>c. c = CHR 0x22) s)))"

definition friendly_template_error :: "string \<Rightarrow> string" where
  "friendly_template_error msg =
     (case str_index msg ''map has no entry for key'' of
        None \<Rightarrow> ''template error: '' @ msg
      | Some i \<Rightarrow>
          (let k = trim_quotes (trim_space (drop (i + length ''map has no entry for key'') msg)) in
           ''context variable '' @ go_quote k @ '' not found '' @ em_dash @ '' provide it with --set '' @ k @
           ''=<value> when testing, or ensure the trigger sets it''))"

text \<open>The dereferenced fields of the configuration that the executors read.\<close>

record exec_config =
  ec_shell :: string
  ec_log_level :: string
  ec_plugins :: "(string, gmap) amap option"

definition opt_string :: "gmap \<Rightarrow> string \<Rightarrow> string" where
  "opt_string m k = (case map_of m k of Some (VStr s) \<Rightarrow> s | _ \<Rightarrow> [])"

text \<open>\<open>err\<close> is the text of a \<open>time.ParseDuration\<close> error. The result: the timeout, if any, and the warnings.\<close>

definition read_timeout :: "(string \<Rightarrow> string) \<Rightarrow> gmap \<Rightarrow> int option \<times> string list" where
  "read_timeout err m =
     (case map_of m ''timeout'' of
        Some (VStr ts) \<Rightarrow>
          if ts = [] \<or> ts = ''0'' then (None, [])
          else (case parse_duration ts of
              Some d \<Rightarrow> (Some d, [])
            | None \<Rightarrow> (None, [''invalid timeout '' @ go_quote ts @ '': '' @ err ts]))
      | _ \<Rightarrow> (None, []))"

text \<open>What a plugin's action reads from its standard input and writes to its standard output, as JSON.\<close>

record action_plugin_input =
  ai_action_type :: string
  ai_options :: gmap
  ai_config :: "gmap option"
  ai_test :: bool

record action_plugin_output =
  ao_success :: bool
  ao_output :: string
  ao_error :: string

record exec_env =
  xe_template :: template_env
  xe_run :: "request \<Rightarrow> proc_run"
  xe_fmt :: fmt_env
  xe_dur_err :: "string \<Rightarrow> string"
  xe_marshal :: "action_plugin_input \<Rightarrow> string result"
  xe_unmarshal :: "string \<Rightarrow> action_plugin_output option"
  xe_exists :: "string \<Rightarrow> bool"

definition shell_prepare :: "exec_env \<Rightarrow> exec_config \<Rightarrow> action \<Rightarrow> ex_context \<Rightarrow> (string + request) \<times> string list" where
  "shell_prepare xe cfg a c =
     (case resolve_options (xe_template xe) (ac_options a) c of
        Inl e \<Rightarrow> (Inl (friendly_template_error e), [])
      | Inr (opts, sens) \<Rightarrow>
          let m = (case opts of None \<Rightarrow> [] | Some m \<Rightarrow> m);
              sh = opt_string m ''_shorthand'';
              command = (if sh = [] then opt_string m ''command'' else sh)
          in if command = [] then (Inl ''no command specified in action options'', [])
             else
               let q = shell_request (ec_shell cfg) command;
                   q1 = (if ac_recurfile_path a \<noteq> [] then q\<lparr>rq_dir := path_dir (ac_recurfile_path a)\<rparr> else q);
                   q2 = (case map_of m ''env'' of
                       Some (VMap em) \<Rightarrow> q1\<lparr>rq_env := map (\<lambda>(k, v). k @ ''='' @ fmt_v (xe_fmt xe) v) em\<rparr>
                     | _ \<Rightarrow> q1);
                   (t, ws) = read_timeout (xe_dur_err xe) m
               in (Inr (case t of None \<Rightarrow> q2 | Some d \<Rightarrow> q2\<lparr>rq_timeout := d\<rparr>), ws))"

definition shell_execute :: "exec_env \<Rightarrow> exec_config \<Rightarrow> action \<Rightarrow> ex_context \<Rightarrow> exec_result \<times> string list" where
  "shell_execute xe cfg a c =
     (case shell_prepare xe cfg a c of
        (Inl e, ws) \<Rightarrow> (fail_result a e, ws)
      | (Inr q, ws) \<Rightarrow> (case execute (xe_run xe) q of Inl e \<Rightarrow> fail_result a e | Inr p \<Rightarrow> run_result a p, ws))"

definition build_action_env :: "fmt_env \<Rightarrow> string \<Rightarrow> string \<Rightarrow> bool \<Rightarrow> gmap \<Rightarrow> string list \<Rightarrow> string list \<Rightarrow> string list" where
  "build_action_env fe ty level test opts tsens msens =
     [''RECUR_ACTION_TYPE='' @ ty, ''RECUR_LOG_LEVEL='' @ level] @ (if test then [''RECUR_TEST=true''] else []) @
     map (\<lambda>(k, v). ''RECUR_OPT_'' @ to_upper k @ ''='' @ fmt_v fe v)
       (filter (\<lambda>(k, v). k \<notin> set tsens \<and> k \<notin> set msens) opts)"

definition plugin_option :: "installed_plugin \<Rightarrow> string \<Rightarrow> gmap \<times> string list \<Rightarrow> string \<times> gval \<Rightarrow> gmap \<times> string list" where
  "plugin_option p ty st kv =
     (case st of (m, ws) \<Rightarrow> case kv of (k, v) \<Rightarrow>
        if k = ''_shorthand'' then
          (case find_shorthand_option p ty of (name, fallback) \<Rightarrow>
             if name \<noteq> [] then
               (AList.update name v m,
                if fallback then ws @ [''action '' @ go_quote ty @ '': no shorthand option declared, using first option '' @ go_quote name]
                else ws)
             else (m, ws @ [''shorthand value present but no shorthand option in manifest'']))
        else (AList.update k v m, ws))"

definition manifest_sensitive :: "installed_plugin \<Rightarrow> string \<Rightarrow> string list" where
  "manifest_sensitive p ty =
     (case find_action_definition p ty of
        None \<Rightarrow> [] | Some d \<Rightarrow> map od_name (filter od_sensitive (ad_options d)))"

definition action_plugin_request :: "exec_env \<Rightarrow> string \<Rightarrow> action_plugin_input \<Rightarrow> string list \<Rightarrow> string \<Rightarrow> int \<Rightarrow> request result" where
  "action_plugin_request xe binary input env dir timeout =
     (case xe_marshal xe input of
        Inl e \<Rightarrow> Inl e
      | Inr payload \<Rightarrow> Inr \<lparr>rq_command = binary, rq_args = [], rq_stdin = payload, rq_env = env, rq_dir = dir, rq_timeout = timeout\<rparr>)"

definition plugin_prepare :: "exec_env \<Rightarrow> exec_config \<Rightarrow> installed_plugin list \<Rightarrow> action \<Rightarrow> ex_context \<Rightarrow>
    (string + request) \<times> string list" where
  "plugin_prepare xe cfg ps a c =
     (case find_by_identifier ps (ac_plugin_id a) of
        None \<Rightarrow> (Inl (''plugin '' @ go_quote (ac_plugin_id a) @ '' not found''), [])
      | Some p \<Rightarrow>
          (case resolve_options (xe_template xe) (ac_options a) c of
             Inl e \<Rightarrow> (Inl (friendly_template_error e), [])
           | Inr (ropts, sens) \<Rightarrow>
               let (m, ws) = foldl (plugin_option p (ac_type a)) ([], []) (case ropts of None \<Rightarrow> [] | Some m \<Rightarrow> m);
                   m1 = AList.delete ''command'' (AList.delete ''env'' m);
                   (t, tws) = read_timeout (xe_dur_err xe) m1;
                   m2 = AList.delete ''timeout'' m1;
                   pcfg = (case ec_plugins cfg of None \<Rightarrow> None | Some pl \<Rightarrow> map_of pl (mf_namespace (ip_manifest p)))
               in (case action_plugin_request xe (binary_path (xe_exists xe) p)
                      \<lparr>ai_action_type = ac_type a, ai_options = m2, ai_config = pcfg, ai_test = cx_test c\<rparr>
                      (build_action_env (xe_fmt xe) (ac_type a) (ec_log_level cfg) (cx_test c) m2 sens (manifest_sensitive p (ac_type a)))
                      (if ac_recurfile_path a \<noteq> [] then path_dir (ac_recurfile_path a) else [])
                      (case t of None \<Rightarrow> 30000000000 | Some d \<Rightarrow> d) of
                     Inl e \<Rightarrow> (Inl (''building plugin request: '' @ e), ws @ tws)
                   | Inr q \<Rightarrow> (Inr q, ws @ tws))))"

definition plugin_execute :: "exec_env \<Rightarrow> exec_config \<Rightarrow> installed_plugin list \<Rightarrow> action \<Rightarrow> ex_context \<Rightarrow>
    exec_result \<times> string list" where
  "plugin_execute xe cfg ps a c =
     (case plugin_prepare xe cfg ps a c of
        (Inl e, ws) \<Rightarrow> (fail_result a e, ws)
      | (Inr q, ws) \<Rightarrow>
          (case execute (xe_run xe) q of
             Inl e \<Rightarrow> fail_result a e
           | Inr r \<Rightarrow>
               (case xe_unmarshal xe (pr_stdout r) of
                  None \<Rightarrow> run_result a r
                | Some po \<Rightarrow> (run_result a r)\<lparr>xr_success := ao_success po, xr_output := ao_output po, xr_error := ao_error po\<rparr>), ws))"

definition dispatch_action :: "exec_env \<Rightarrow> exec_config \<Rightarrow> installed_plugin list \<Rightarrow> action \<Rightarrow> ex_context \<Rightarrow>
    exec_result \<times> string list" where
  "dispatch_action xe cfg ps a c =
     (if ac_plugin_id a \<noteq> [] then plugin_execute xe cfg ps a c else shell_execute xe cfg a c)"

end
