(* ===== verification/Executor_Props.thy ===== *)
theory Executor_Props
  imports Executor
begin

text \<open>
  Properties of action execution: the values of secrets that templates put into options stay out
  of the environment of a plugin process, and what the outcome of a process is reported as.
\<close>

section \<open>Secrets and the environment of a plugin\<close>

text \<open>Two contexts that differ in the values of their secrets only.\<close>

definition same_public :: "ex_context \<Rightarrow> ex_context \<Rightarrow> bool" where
  "same_public c d \<longleftrightarrow> cx_test c = cx_test d \<and> cx_set c = cx_set d \<and>
     (cx_secrets c = None \<longleftrightarrow> cx_secrets d = None) \<and>
     (\<forall>n. map_of (the (cx_secrets c)) n = None \<longleftrightarrow> map_of (the (cx_secrets d)) n = None)"

definition simple_value :: "gval \<Rightarrow> bool" where
  "simple_value v = (case v of VStr s \<Rightarrow> parse_template s \<noteq> None | _ \<Rightarrow> True)"

definition simple_options :: "gmap \<Rightarrow> bool" where
  "simple_options m \<longleftrightarrow> list_all (\<lambda>(k, v). k \<noteq> ''_shorthand'' \<and> simple_value v) m"

definition same_text :: "string + (string \<times> bool) \<Rightarrow> string + (string \<times> bool) \<Rightarrow> bool" where
  "same_text x y =
     (case (x, y) of
        (Inl e, Inl f) \<Rightarrow> e = f
      | (Inr (t, b), Inr (u, c)) \<Rightarrow> b = c \<and> (b \<or> t = u)
      | _ \<Rightarrow> False)"

definition same_opt :: "string list \<Rightarrow> string \<times> gval \<Rightarrow> string \<times> gval \<Rightarrow> bool" where
  "same_opt sens p q \<longleftrightarrow> fst p = fst q \<and> (fst p \<notin> set sens \<longrightarrow> snd p = snd q)"

lemma secret_func_public:
  assumes "same_public c d"
  shows "(\<exists>e. secret_func c n = Inl e \<and> secret_func d n = Inl e) \<or> (\<exists>v w. secret_func c n = Inr v \<and> secret_func d n = Inr w)"
proof (cases "cx_secrets c")
  case None
  with assms show ?thesis by (auto simp: same_public_def secret_func_def)
next
  case (Some m)
  with assms obtain m' where m': "cx_secrets d = Some m'" "map_of m n = None \<longleftrightarrow> map_of m' n = None"
    unfolding same_public_def by (metis option.exhaust option.sel)
  with Some show ?thesis by (cases "map_of m n"; cases "map_of m' n") (auto simp: secret_func_def)
qed

lemma exec_segs_public: "same_public c d \<Longrightarrow> same_text (exec_segs c segs) (exec_segs d segs)"
proof (induction segs)
  case Nil
  then show ?case by (simp add: same_text_def)
next
  case (Cons s segs)
  from Cons.prems have data: "template_data c = template_data d" by (simp add: same_public_def template_data_def)
  note IH = Cons.IH [OF Cons.prems]
  show ?case
  proof (cases s)
    case (Secret_Ref n)
    with IH secret_func_public [OF Cons.prems, of n] show ?thesis
      by (cases "exec_segs c segs"; cases "exec_segs d segs") (auto simp: same_text_def)
  qed (use IH data in \<open>cases "exec_segs c segs"; cases "exec_segs d segs"; auto simp: same_text_def\<close>)+
qed

lemma resolve_template_public:
  assumes "same_public c d" "parse_template s \<noteq> None"
  shows "same_text (resolve_template tp s c) (resolve_template tp s d)"
proof -
  from assms(2) obtain segs where "parse_template s = Some segs" by blast
  with exec_segs_public [OF assms(1), of segs] show ?thesis
    by (auto simp: resolve_template_def same_text_def split: sum.splits prod.splits)
qed

definition same_opts :: "string + (gmap \<times> string list) \<Rightarrow> string + (gmap \<times> string list) \<Rightarrow> bool" where
  "same_opts x y =
     (case (x, y) of
        (Inl e, Inl f) \<Rightarrow> e = f
      | (Inr (m, s), Inr (n, t)) \<Rightarrow> s = t \<and> list_all2 (same_opt s) m n
      | _ \<Rightarrow> False)"

lemma same_opt_more: "list_all2 (same_opt s) m n \<Longrightarrow> list_all2 (same_opt (k # s)) m n"
  by (erule list_all2_mono) (auto simp: same_opt_def)

lemma resolve_opts_public:
  assumes "same_public c d" "simple_options m"
  shows "same_opts (resolve_opts tp c m) (resolve_opts tp d m)"
  using assms(2)
proof (induction m)
  case Nil
  then show ?case by (simp add: same_opts_def)
next
  case (Cons kv m)
  obtain k v where kv: "kv = (k, v)" by (cases kv)
  from Cons have IH: "same_opts (resolve_opts tp c m) (resolve_opts tp d m)" and sv: "simple_value v"
    by (auto simp: simple_options_def kv)
  show ?case
  proof (cases "\<exists>s. v = VStr s")
    case True
    then obtain s where s: "v = VStr s" by blast
    with sv have "same_text (resolve_template tp s c) (resolve_template tp s d)"
      by (intro resolve_template_public [OF assms(1)]) (simp add: simple_value_def)
    with IH show ?thesis unfolding kv s
      by (cases "resolve_opts tp c m"; cases "resolve_opts tp d m"; cases "resolve_template tp s c"; cases "resolve_template tp s d")
        (auto simp: same_text_def same_opts_def same_opt_def intro: same_opt_more)
  next
    case False
    with IH show ?thesis unfolding kv
      by (cases v; cases "resolve_opts tp c m"; cases "resolve_opts tp d m") (auto simp: same_opts_def same_opt_def)
  qed
qed

lemma resolve_opts_keys: "resolve_opts tp c m = Inr (r, s) \<Longrightarrow> map fst r = map fst m"
  by (induction tp c m arbitrary: r s rule: resolve_opts.induct)
    (auto split: gval.splits sum.splits prod.splits if_splits simp: map_sum_def)

lemma fold_plugin_option:
  "\<lbrakk> distinct (map fst (acc @ m)); ''_shorthand'' \<notin> fst ` set m \<rbrakk> \<Longrightarrow>
     foldl (plugin_option p ty) (acc, ws) m = (acc @ m, ws)"
proof (induction m arbitrary: acc)
  case (Cons kv m)
  obtain k v where kv: "kv = (k, v)" by (cases kv)
  from Cons.prems(1) kv have "k \<notin> fst ` set acc" by auto
  then have "AList.update k v acc = acc @ [(k, v)]" by (induction acc) auto
  moreover from Cons.prems(2) kv have "k \<noteq> ''_shorthand''" by auto
  ultimately show ?case using Cons.IH [of "acc @ [(k, v)]"] Cons.prems kv by (simp add: plugin_option_def)
qed simp

lemma same_opts_delete:
  "list_all2 (same_opt s) m n \<Longrightarrow> list_all2 (same_opt s) (AList.delete k m) (AList.delete k n)"
  by (induction rule: list_all2_induct) (auto simp: same_opt_def)

lemma build_action_env_public:
  assumes "list_all2 (same_opt s) m n"
  shows "build_action_env fe ty lv t m s ms = build_action_env fe ty lv t n s ms"
proof -
  let ?f = "\<lambda>(k, v). ''RECUR_OPT_'' @ to_upper k @ ''='' @ fmt_v fe v"
  have "map ?f (filter (\<lambda>(k, v). k \<notin> set s \<and> k \<notin> set ms) m) = map ?f (filter (\<lambda>(k, v). k \<notin> set s \<and> k \<notin> set ms) n)"
    using assms by (induction rule: list_all2_induct) (auto simp: same_opt_def)
  then show ?thesis by (simp add: build_action_env_def)
qed

lemma fold_simple_options:
  assumes "resolve_opts te c m = Inr (r, s)" "amap_ok m" "simple_options m"
  shows "foldl (plugin_option p ty) ([], []) r = (r, [])"
proof -
  from resolve_opts_keys [OF assms(1)] have "map fst r = map fst m" .
  moreover from this have "fst ` set r = fst ` set m" by (metis list.set_map)
  moreover have "''_shorthand'' \<notin> fst ` set m" using assms(3) by (auto simp: simple_options_def list_all_iff)
  ultimately show ?thesis using fold_plugin_option [of "[]" r] assms(2) by (simp add: amap_ok_def)
qed

text \<open>
  C20: what a plugin process gets outside its standard input does not depend on the values of
  secrets: for options whose templates are text, fields and \<open>secret\<close> calls, given without the
  shorthand, and a JSON library that encodes them, two contexts that differ in secret values only give the same error, or requests
  with the same command, arguments, environment and directory.
\<close>

theorem plugin_env_independent:
  assumes "same_public c d" "ac_options a = Some m" "amap_ok m" "simple_options m"
    and "\<And>input. \<exists>payload. xe_marshal xe input = Inr payload"
  shows "case (fst (plugin_prepare xe cfg ps a c), fst (plugin_prepare xe cfg ps a d)) of
      (Inl e, Inl f) \<Rightarrow> e = f
    | (Inr q, Inr r) \<Rightarrow> rq_command q = rq_command r \<and> rq_args q = rq_args r \<and> rq_env q = rq_env r \<and> rq_dir q = rq_dir r
    | _ \<Rightarrow> False"
proof (cases "find_by_identifier ps (ac_plugin_id a)")
  case None
  then show ?thesis by (simp add: plugin_prepare_def)
next
  case (Some p)
  have "\<exists>payload. xe_marshal xe = (\<lambda>input. Inr (payload input))" using assms(5) by metis
  then obtain payload where json: "xe_marshal xe = (\<lambda>input. Inr (payload input))" by blast
  note fold = fold_simple_options [OF _ assms(3,4)]
  have test: "cx_test c = cx_test d" using assms(1) by (simp add: same_public_def)
  have eq: "same_opts (resolve_opts (xe_template xe) c m) (resolve_opts (xe_template xe) d m)"
    by (rule resolve_opts_public [OF assms(1,4)])
  show ?thesis
  proof (cases "m = []")
    case True
    with Some assms(2) test show ?thesis
      by (simp add: plugin_prepare_def action_plugin_request_def resolve_options_def split_def Let_def json)
  next
    case False
    show ?thesis
    proof (cases "resolve_opts (xe_template xe) c m")
      case (Inl e)
      with eq have "resolve_opts (xe_template xe) d m = Inl e"
        by (cases "resolve_opts (xe_template xe) d m") (auto simp: same_opts_def)
      with Inl False Some assms(2) show ?thesis by (simp add: plugin_prepare_def resolve_options_def)
    next
      case (Inr rs)
      then obtain r s where r: "resolve_opts (xe_template xe) c m = Inr (r, s)" by (cases rs) auto
      with eq obtain r' where r': "resolve_opts (xe_template xe) d m = Inr (r', s)" "list_all2 (same_opt s) r r'"
        by (cases "resolve_opts (xe_template xe) d m") (auto simp: same_opts_def)
      have "build_action_env fe ty lv t (AList.delete ''timeout'' (AList.delete ''command'' (AList.delete ''env'' r))) s ms =
            build_action_env fe ty lv t (AList.delete ''timeout'' (AList.delete ''command'' (AList.delete ''env'' r'))) s ms" for fe ty lv t ms
        by (intro build_action_env_public same_opts_delete r'(2))
      with r r' False Some assms(2) fold [OF r] fold [OF r'(1)] test show ?thesis
        by (simp add: plugin_prepare_def action_plugin_request_def resolve_options_def split_def Let_def json)
    qed
  qed
qed

definition mail_plugin :: installed_plugin where
  "mail_plugin = \<lparr>ip_id = ''mail0001'', ip_dir = ''/p'',
     ip_manifest = \<lparr>mf_name = ''mail'', mf_namespace = ''core.mail'', mf_version = [], mf_description = [],
       mf_dependencies = [], mf_configuration = [], mf_triggers = [],
       mf_actions = [\<lparr>ad_name = ''Send'', ad_description = [],
         ad_options = [\<lparr>od_name = ''token'', od_type = ''string'', od_default = VNil, od_description = [],
           od_shorthand = True, od_sensitive = False\<rparr>]\<rparr>]\<rparr>\<rparr>"

definition mail_action :: "gmap \<Rightarrow> action" where
  "mail_action m = \<lparr>ac_id = ''a'', ac_type = ''Send'', ac_name = [], ac_group_id = [], ac_group_name = [],
     ac_trigger_id = [], ac_recurfile_id = [], ac_recurfile_path = ''/w/Recurfile.yaml'', ac_plugin_id = ''core.mail'',
     ac_options = Some m, ac_status = st_active, ac_error_count = 0, ac_error_threshold = 0, ac_last_executed = 0\<rparr>"

definition mail_context :: "string \<Rightarrow> ex_context" where
  "mail_context v = \<lparr>cx_test = False, cx_set = [], cx_secrets = Some [(''pw'', v)]\<rparr>"

definition fmt_none :: fmt_env where
  "fmt_none = \<lparr>fmt_float = (\<lambda>_ _. []), fmt_dur = (\<lambda>_. [])\<rparr>"

definition mail_env :: exec_env where
  "mail_env = \<lparr>xe_template = \<lparr>tp_other = (\<lambda>_ _. Inl []), tp_err = (\<lambda>_ e. e)\<rparr>,
     xe_run = (\<lambda>_. \<lparr>pu_outcome = Exited 0, pu_stdout = [], pu_stderr = [], pu_duration = 0\<rparr>),
     xe_fmt = fmt_none, xe_dur_err = (\<lambda>_. []),
     xe_marshal = (\<lambda>_. Inr []), xe_unmarshal = (\<lambda>_. None), xe_exists = (\<lambda>_. True)\<rparr>"

definition mail_config :: exec_config where
  "mail_config = \<lparr>ec_shell = ''sh -c'', ec_log_level = ''info'', ec_plugins = None\<rparr>"

lemma parse_pw: "parse_template ''{{secret \"pw\"}}'' = Some [Lit [], Secret_Ref ''pw'', Lit []]"
  by (subst parse_template.simps, simp add: str_index_def parse_action_text_def is_tspace_def is_digit_def field_char_def)
    (simp add: parse_template.simps str_index_def)

theorem plugin_env_independent_witness:
  "rq_env (projr (fst (plugin_prepare mail_env mail_config [mail_plugin] (mail_action [(''token'', VStr ''{{secret \"pw\"}}'')]) (mail_context ''one'')))) =
   rq_env (projr (fst (plugin_prepare mail_env mail_config [mail_plugin] (mail_action [(''token'', VStr ''{{secret \"pw\"}}'')]) (mail_context ''two''))))"
proof -
  let ?m = "[(''token'', VStr ''{{secret \"pw\"}}'')]"
  have "same_public (mail_context ''one'') (mail_context ''two'')" by (simp add: same_public_def mail_context_def)
  moreover have "simple_options ?m" by (simp add: simple_options_def simple_value_def parse_pw)
  moreover have "\<exists>payload. xe_marshal mail_env input = Inr payload" for input by (simp add: mail_env_def)
  ultimately show ?thesis
    using plugin_env_independent [where xe = mail_env and cfg = mail_config and ps = "[mail_plugin]" and a = "mail_action ?m"
        and m = ?m and c = "mail_context ''one''" and d = "mail_context ''two''"]
    by (auto simp: mail_action_def amap_ok_def split: sum.splits)
qed

text \<open>
  The shorthand value is moved to the option that the manifest names, but stays marked as
  sensitive under \<open>_shorthand\<close> only: its secret reaches the environment.
\<close>

lemma shorthand_secret_in_env:
  "''RECUR_OPT_TOKEN=hunter2'' \<in> set (rq_env (projr (fst (plugin_prepare mail_env mail_config [mail_plugin]
     (mail_action [(''_shorthand'', VStr ''{{secret \"pw\"}}'')]) (mail_context ''hunter2'')))))"
proof -
  have "find_by_identifier [mail_plugin] ''core.mail'' = Some mail_plugin"
    by (simp add: find_by_identifier_def mail_plugin_def equal_fold_def to_lower_def lower_char_def)
  then show ?thesis
    by (simp add: plugin_prepare_def action_plugin_request_def mail_action_def resolve_options_def resolve_template_def parse_pw secret_func_def
        mail_context_def plugin_option_def find_shorthand_option_def find_action_definition_def mail_plugin_def
        equal_fold_def read_timeout_def build_action_env_def manifest_sensitive_def mail_env_def to_upper_def upper_char_def
        char_of_def bit_iff_odd)
qed

end
