(* ===== verification/External.thy ===== *)
theory External
  imports Engine_Lookup Executor_Props
begin

text \<open>
  \<open>triggerengine/external.go\<close>: the drivers of plugin processes. The factory of a plugin builds a
  driver for the trigger types of its manifest; \<open>Start\<close> spawns the process with the trigger's
  options and configuration as environment and JSON input; \<open>Stop\<close> and the process monitor take
  it down. Starting and signalling a process are parameters.
\<close>

section \<open>The driver\<close>

record ext_driver =
  xd_binary :: string
  xd_socket :: string
  xd_tid :: string
  xd_type :: string
  xd_options :: gmap
  xd_sensitive :: "string list"
  xd_config :: gmap
  xd_dir :: string
  xd_plugin :: string
  xd_level :: string
  xd_timeout :: int

definition default_shutdown_timeout :: int where "default_shutdown_timeout = 3000000000"

text \<open>\<open>lookup\<close> is the configuration of a plugin's namespace, if it has one.\<close>

definition external_factory :: "(string \<Rightarrow> bool) \<Rightarrow> string \<Rightarrow> int \<Rightarrow> (string \<Rightarrow> gmap option) \<Rightarrow> string \<Rightarrow>
    installed_plugin \<Rightarrow> trigger \<Rightarrow> string + ext_driver option" where
  "external_factory exists_path socket timeout lookup level p t =
     (if to_lower (tr_type t) \<notin> set (map (\<lambda>d. to_lower (td_name d)) (mf_triggers (ip_manifest p))) then Inr None
      else Inr (Some
        \<lparr>xd_binary = binary_path exists_path p, xd_socket = socket, xd_tid = tr_id t, xd_type = tr_type t,
         xd_options = (case tr_options t of None \<Rightarrow> [] | Some m \<Rightarrow> m),
         xd_sensitive = (case find_trigger_definition p (tr_type t) of
             None \<Rightarrow> [] | Some d \<Rightarrow> map od_name (filter od_sensitive (td_options d))),
         xd_config = (case lookup (mf_namespace (ip_manifest p)) of None \<Rightarrow> [] | Some m \<Rightarrow> m),
         xd_dir = (if tr_recurfile_path t \<noteq> [] then path_dir (tr_recurfile_path t) else []),
         xd_plugin = mf_name (ip_manifest p), xd_level = level,
         xd_timeout = (if timeout \<le> 0 then default_shutdown_timeout else timeout)\<rparr>))"

definition find_trigger_def :: "manifest \<Rightarrow> string \<Rightarrow> trigger_def option" where
  "find_trigger_def m ty = find (\<lambda>d. equal_fold (td_name d) ty) (mf_triggers m)"

section \<open>The environment of the process\<close>

text \<open>One value under its key; a nested map continues the key. The order is that of the maps.\<close>

fun flatten_value :: "fmt_env \<Rightarrow> string \<Rightarrow> gval \<Rightarrow> string list" and
    flatten_map :: "fmt_env \<Rightarrow> string \<Rightarrow> gmap \<Rightarrow> string list" where
  "flatten_value fe key (VMap m) = flatten_map fe (key @ ''_'') m"
| "flatten_value fe key (VList vs) = [key @ ''='' @ str_join '','' (map (fmt_v fe) vs)]"
| "flatten_value fe key v = [key @ ''='' @ fmt_v fe v]"
| "flatten_map fe pre [] = []"
| "flatten_map fe pre ((k, v) # kvs) = flatten_value fe (pre @ to_upper k) v @ flatten_map fe pre kvs"

definition flatten_env :: "fmt_env \<Rightarrow> gmap \<Rightarrow> string list" where
  "flatten_env fe m = flatten_map fe ''RECUR_'' m"

definition build_env_vars :: "fmt_env \<Rightarrow> ext_driver \<Rightarrow> string list" where
  "build_env_vars fe d =
     [''RECUR_SOCKET='' @ xd_socket d, ''RECUR_TRIGGER_ID='' @ xd_tid d,
      ''RECUR_TRIGGER_TYPE='' @ xd_type d, ''RECUR_LOG_LEVEL='' @ xd_level d] @
     flatten_env fe (filter (\<lambda>(k, v). k \<notin> set (xd_sensitive d)) (xd_options d)) @
     flatten_env fe (xd_config d)"

text \<open>The level of a line that the plugin writes to its standard error.\<close>

definition stderr_is_error :: "string \<Rightarrow> bool" where
  "stderr_is_error line \<longleftrightarrow>
     (let l = to_lower line in str_contains l ''error'' \<or> str_contains l ''fatal'' \<or> str_contains l ''panic'')"

section \<open>Starting and stopping\<close>

datatype signal = Term | Kill

text \<open>\<open>xs_done\<close>, \<open>xs_closed\<close> and \<open>xs_exited\<close> are the three channels, closed or not.\<close>

record ext_state =
  xs_started :: bool
  xs_done :: bool
  xs_closed :: bool
  xs_exited :: bool
  xs_warned :: bool
  xs_signals :: "signal list"

definition new_ext_state :: ext_state where
  "new_ext_state = \<lparr>xs_started = False, xs_done = False, xs_closed = False, xs_exited = False,
     xs_warned = False, xs_signals = []\<rparr>"

definition ext_start :: "string option \<Rightarrow> ext_driver \<Rightarrow> ext_state \<times> router \<Rightarrow>
    (string + nat) \<times> ext_state \<times> router" where
  "ext_start err d sr =
     (case err of
        Some e \<Rightarrow> (Inl (''starting plugin '' @ xd_plugin d @ '': '' @ e), sr)
      | None \<Rightarrow>
          (case driver_channel (xd_tid d) (snd sr) of
             (ch, r) \<Rightarrow> (Inr ch, (fst sr)\<lparr>xs_started := True\<rparr>, r)))"

text \<open>\<open>None\<close>: closing a closed channel panics.\<close>

definition ext_monitor :: "ext_driver \<Rightarrow> ext_state \<times> router \<Rightarrow> (ext_state \<times> router) option" where
  "ext_monitor d sr =
     (let (s, r) = sr in
      if xs_closed s \<or> xs_exited s then None
      else Some (s\<lparr>xs_done := True, xs_warned := xs_warned s \<or> \<not> xs_done s, xs_closed := True, xs_exited := True\<rparr>,
                 router_deregister (xd_tid d) r))"

text \<open>
  \<open>Stop\<close> up to its wait for \<open>exited\<close>; \<open>late\<close> says that the process outlived the shutdown
  timeout, so that it was killed. The wait itself is for the monitor.
\<close>

definition ext_stop :: "bool \<Rightarrow> ext_driver \<Rightarrow> ext_state \<times> router \<Rightarrow> ext_state \<times> router" where
  "ext_stop late d sr =
     (let (s, r) = sr; r1 = router_deregister (xd_tid d) r in
      if xs_done s then (s, r1)
      else if \<not> xs_started s then (s\<lparr>xs_done := True\<rparr>, r1)
      else (s\<lparr>xs_done := True, xs_signals := xs_signals s @ (if late then [Term, Kill] else [Term])\<rparr>, r1))"

datatype ext_op = Ext_Stop bool | Ext_Exit

text \<open>The process exits once; the monitor runs then.\<close>

fun ext_step :: "ext_driver \<Rightarrow> ext_state \<times> router \<Rightarrow> ext_op \<Rightarrow> (ext_state \<times> router) option" where
  "ext_step d sr (Ext_Stop late) = Some (ext_stop late d sr)"
| "ext_step d sr Ext_Exit = (if xs_started (fst sr) \<and> \<not> xs_exited (fst sr) then ext_monitor d sr else Some sr)"

fun ext_run :: "ext_driver \<Rightarrow> ext_state \<times> router \<Rightarrow> ext_op list \<Rightarrow> (ext_state \<times> router) option" where
  "ext_run d sr [] = Some sr"
| "ext_run d sr (p # ps) = (case ext_step d sr p of None \<Rightarrow> None | Some sr' \<Rightarrow> ext_run d sr' ps)"

section \<open>Properties\<close>

lemma flatten_env_public:
  "list_all2 (same_opt s) m n \<Longrightarrow>
     flatten_env fe (filter (\<lambda>(k, v). k \<notin> set s) m) = flatten_env fe (filter (\<lambda>(k, v). k \<notin> set s) n)"
proof -
  assume "list_all2 (same_opt s) m n"
  then have "filter (\<lambda>(k, v). k \<notin> set s) m = filter (\<lambda>(k, v). k \<notin> set s) n"
    by (induction rule: list_all2_induct) (auto simp: same_opt_def)
  then show ?thesis by (simp add: flatten_env_def)
qed

text \<open>
  the environment of a plugin process does not depend on the values of the options that its
  manifest declares sensitive.
\<close>

theorem plugin_process_env:
  assumes "external_factory ex so tmo lk lv p (t\<lparr>tr_options := Some m\<rparr>) = Inr (Some d)"
    and "external_factory ex so tmo lk lv p (t\<lparr>tr_options := Some n\<rparr>) = Inr (Some e)"
    and "find_trigger_definition p (tr_type t) = Some td"
    and "list_all2 (same_opt (map od_name (filter od_sensitive (td_options td)))) m n"
  shows "build_env_vars fe d = build_env_vars fe e"
  using assms(1-3) flatten_env_public [OF assms(4), of fe]
  by (auto simp: external_factory_def build_env_vars_def split: if_splits)

definition mail_manifest :: manifest where
  "mail_manifest = \<lparr>mf_name = ''mail'', mf_namespace = ''core.mail'', mf_version = [], mf_description = [],
     mf_dependencies = [], mf_configuration = [],
     mf_triggers = [\<lparr>td_name = ''Inbox'', td_description = [],
       td_options = [\<lparr>od_name = ''token'', od_type = ''string'', od_default = VNil, od_description = [],
         od_shorthand = False, od_sensitive = True\<rparr>], td_context = [], td_defaults = []\<rparr>], mf_actions = []\<rparr>"

definition mail_driver_plugin :: installed_plugin where
  "mail_driver_plugin = \<lparr>ip_id = ''mail0001'', ip_dir = ''/p'', ip_manifest = mail_manifest\<rparr>"

definition mail_trigger :: trigger where
  "mail_trigger = \<lparr>tr_id = ''0123456789ab'', tr_type = ''Inbox'', tr_name = [], tr_group_id = ''g'', tr_group_name = [],
     tr_recurfile_id = ''r'', tr_recurfile_path = ''/w/Recurfile.yaml'', tr_plugin_id = ''core.mail'', tr_options = None,
     tr_status = st_active, tr_error_count = 0, tr_error_threshold = 0, tr_last_fired = 0, tr_concurrency_mode = [],
     tr_max_queue_size = 0, tr_debounce = 0\<rparr>"

definition mail_driver :: "string \<Rightarrow> string + ext_driver option" where
  "mail_driver v = external_factory (\<lambda>_. True) ''/run/s'' 0 (\<lambda>_. None) ''info'' mail_driver_plugin
     (mail_trigger\<lparr>tr_options := Some [(''token'', VStr v), (''folder'', VStr ''in'')]\<rparr>)"

theorem plugin_process_env_witness:
  "build_env_vars fmt_none (the (projr (mail_driver ''one''))) = build_env_vars fmt_none (the (projr (mail_driver ''two'')))"
proof -
  have ex: "mail_driver v = Inr (Some (the (projr (mail_driver v))))" for v
    by (simp add: mail_driver_def external_factory_def mail_driver_plugin_def mail_manifest_def mail_trigger_def)
  have td: "find_trigger_definition mail_driver_plugin (tr_type mail_trigger) = Some (hd (mf_triggers mail_manifest))"
    by (simp add: find_trigger_definition_def mail_driver_plugin_def mail_manifest_def mail_trigger_def equal_fold_def)
  show ?thesis
    by (rule plugin_process_env [OF ex [of "''one''", unfolded mail_driver_def] ex [of "''two''", unfolded mail_driver_def] td,
        folded mail_driver_def])
      (simp add: mail_manifest_def same_opt_def)
qed

section \<open>The life of a driver\<close>

definition exits :: "ext_op list \<Rightarrow> bool" where "exits ps \<longleftrightarrow> Ext_Exit \<in> set ps"

definition ext_ok :: "ext_driver \<Rightarrow> ext_state \<times> router \<Rightarrow> bool" where
  "ext_ok d sr \<longleftrightarrow> xs_started (fst sr) \<and> xs_closed (fst sr) = xs_exited (fst sr) \<and> (xs_exited (fst sr) \<longrightarrow> xs_done (fst sr)) \<and>
     (xs_done (fst sr) \<longrightarrow> map_of (ro_channels (snd sr)) (xd_tid d) = None) \<and>
     (xs_signals (fst sr) \<noteq> [] \<longrightarrow> xs_done (fst sr)) \<and> xs_signals (fst sr) \<in> {[], [Term], [Term, Kill]} \<and>
     (xs_warned (fst sr) \<longrightarrow> xs_signals (fst sr) = [] \<and> xs_exited (fst sr))"

lemma ext_step_ok: "ext_ok d sr \<Longrightarrow> \<exists>sr'. ext_step d sr p = Some sr' \<and> ext_ok d sr' \<and>
    (xs_exited (fst sr) \<longrightarrow> xs_exited (fst sr')) \<and> (p = Ext_Exit \<longrightarrow> xs_exited (fst sr'))"
  by (cases sr; cases p)
    (auto simp: ext_ok_def ext_stop_def ext_monitor_def router_deregister_def Let_def)

lemma ext_run_ok: "ext_ok d sr \<Longrightarrow> \<exists>sr'. ext_run d sr ps = Some sr' \<and> ext_ok d sr' \<and>
    (xs_exited (fst sr) \<or> exits ps \<longrightarrow> xs_exited (fst sr'))"
proof (induction ps arbitrary: sr)
  case (Cons p ps)
  from ext_step_ok [OF Cons.prems, of p] obtain sr1 where 1: "ext_step d sr p = Some sr1" "ext_ok d sr1"
      "xs_exited (fst sr) \<longrightarrow> xs_exited (fst sr1)" "p = Ext_Exit \<longrightarrow> xs_exited (fst sr1)" by blast
  from Cons.IH [OF 1(2)] 1 show ?case by (auto simp: exits_def)
qed (auto simp: exits_def)



section \<open>The factories and the registry\<close>

text \<open>The factories \<open>Run\<close> gives to the engine: those of the plugins that declare triggers.\<close>

definition plugin_factories :: "(string \<Rightarrow> bool) \<Rightarrow> string \<Rightarrow> int \<Rightarrow> (string \<Rightarrow> gmap option) \<Rightarrow> string \<Rightarrow>
    installed_plugin list \<Rightarrow> (trigger \<Rightarrow> string + ext_driver option) list" where
  "plugin_factories ex so tmo lk lv ps =
     map (external_factory ex so tmo lk lv) (filter (\<lambda>p. mf_triggers (ip_manifest p) \<noteq> []) ps)"

lemma factory_handles: "external_factory ex so tmo lk lv p t = Inr None \<longleftrightarrow> find_trigger_definition p (tr_type t) = None"
  by (force simp: external_factory_def find_trigger_definition_def equal_fold_def find_None_iff)

lemma factory_no_error: "external_factory ex so tmo lk lv p t \<noteq> Inl e"
  by (simp add: external_factory_def)

text \<open>
  the engine and the registry agree on which plugin serves a trigger type: the driver is that of
  the first plugin the registry resolves the type to, and there is no driver exactly when the
  registry finds no plugin.
\<close>

theorem factories_agree_with_registry:
  "pick_driver (plugin_factories ex so tmo lk lv ps) t =
     (case find (\<lambda>p. find_trigger_definition p (tr_type t) \<noteq> None) ps of
        None \<Rightarrow> Inl (''no plugin found for trigger type '' @ go_quote (tr_type t))
      | Some p \<Rightarrow> Inr (the (projr (external_factory ex so tmo lk lv p t)))) \<and>
   resolve_plugin_for_trigger ps (tr_type t) =
     (case find (\<lambda>p. find_trigger_definition p (tr_type t) \<noteq> None) ps of
        None \<Rightarrow> [] | Some p \<Rightarrow> mf_namespace (ip_manifest p))"
proof -
  have "pick_driver (plugin_factories ex so tmo lk lv ps) t =
     (case find (\<lambda>p. find_trigger_definition p (tr_type t) \<noteq> None) ps of
        None \<Rightarrow> Inl (''no plugin found for trigger type '' @ go_quote (tr_type t))
      | Some p \<Rightarrow> Inr (the (projr (external_factory ex so tmo lk lv p t))))"
  proof (induction ps)
    case Nil
    then show ?case by (simp add: plugin_factories_def)
  next
    case (Cons p ps)
    have empty: "mf_triggers (ip_manifest p) = [] \<Longrightarrow> find_trigger_definition p (tr_type t) = None"
      by (simp add: find_trigger_definition_def)
    show ?case
    proof (cases "external_factory ex so tmo lk lv p t")
      case (Inl e)
      then show ?thesis using factory_no_error by blast
    next
      case (Inr o')
      with Cons empty factory_handles [of ex so tmo lk lv p t] show ?thesis
        by (cases o') (auto simp: plugin_factories_def)
    qed
  qed
  then show ?thesis by (simp add: resolve_plugin_for_trigger_def)
qed

end
