(* ===== verification/Archive.thy ===== *)
theory Archive
  imports Plugins Yaml_Parse
begin

text \<open>
  Bundles and archives: \<open>appbundle/bundle.go\<close> (packing and unpacking app bundles, choosing the
  recurfile), \<open>fs/plugin/archive.go\<close> (extracting plugin archives) and \<open>fs/plugin/install.go\<close>
  (copying or linking a plugin into place). The zip and tar formats, downloads and the failures
  of the operating system are parameters; paths are those of Unix.
\<close>

section \<open>The file system\<close>

record fsys =
  fs_files :: "(string, string) amap"
  fs_dirs :: "string list"
  fs_links :: "(string, string) amap"

text \<open>
  \<open>io_mkdir p\<close> and \<open>io_file p\<close>: the error of an operation on \<open>p\<close>, if it fails; a file
  operation fails before the file is created or after \<open>n\<close> bytes.
\<close>

record io_env =
  io_mkdir :: "string \<Rightarrow> string option"
  io_file :: "string \<Rightarrow> (string \<times> nat option) option"

definition io_fine :: io_env where "io_fine = \<lparr>io_mkdir = (\<lambda>_. None), io_file = (\<lambda>_. None)\<rparr>"

definition mkdir_all :: "io_env \<Rightarrow> string \<Rightarrow> fsys \<Rightarrow> string option \<times> fsys" where
  "mkdir_all io p fs =
     (case io_mkdir io p of Some e \<Rightarrow> (Some e, fs) | None \<Rightarrow> (None, fs\<lparr>fs_dirs := List.insert p (fs_dirs fs)\<rparr>))"

definition write_file :: "io_env \<Rightarrow> string \<Rightarrow> string \<Rightarrow> fsys \<Rightarrow> string option \<times> fsys" where
  "write_file io p data fs =
     (if p \<in> set (fs_dirs fs) then (Some (''open '' @ p @ '': is a directory''), fs)
      else case io_file io p of
        None \<Rightarrow> (None, fs\<lparr>fs_files := AList.update p data (fs_files fs)\<rparr>)
      | Some (e, None) \<Rightarrow> (Some e, fs)
      | Some (e, Some n) \<Rightarrow> (Some e, fs\<lparr>fs_files := AList.update p (take n data) (fs_files fs)\<rparr>))"

definition inside :: "string \<Rightarrow> string \<Rightarrow> bool" where
  "inside d p \<longleftrightarrow> p = d \<or> has_prefix p (d @ ''/'')"

definition remove_all :: "string \<Rightarrow> fsys \<Rightarrow> fsys" where
  "remove_all d fs = \<lparr>fs_files = filter (\<lambda>(p, _). \<not> inside d p) (fs_files fs),
     fs_dirs = filter (\<lambda>p. \<not> inside d p) (fs_dirs fs), fs_links = filter (\<lambda>(p, _). \<not> inside d p) (fs_links fs)\<rparr>"

section \<open>Choosing the recurfile of a bundle\<close>

definition is_yaml_name :: "string \<Rightarrow> bool" where
  "is_yaml_name base \<longleftrightarrow> has_suffix (to_lower base) ''.yaml'' \<or> has_suffix (to_lower base) ''.yml''"

definition select_recurfile :: "string list \<Rightarrow> string result" where
  "select_recurfile names =
     (case names of
        [] \<Rightarrow> Inl ''no recurfile found: a bundle must contain a YAML file at its root''
      | [n] \<Rightarrow> Inr n
      | _ \<Rightarrow>
          (case filter is_recurfile_name names of
             [n] \<Rightarrow> Inr n
           | _ \<Rightarrow> Inl (''ambiguous bundle: multiple root YAML files ('' @ str_join '', '' names @
               ''); keep a single root YAML or name one recurfile.yaml'')))"

definition find_recurfile_in :: "string \<Rightarrow> dir_entry list result \<Rightarrow> string result" where
  "find_recurfile_in dir entries =
     (case entries of
        Inl e \<Rightarrow> Inl e
      | Inr es \<Rightarrow>
          (case select_recurfile (filter is_yaml_name (map de_name (filter (\<lambda>e. \<not> de_is_dir e) es))) of
             Inl e \<Rightarrow> Inl e
           | Inr n \<Rightarrow> Inr (path_join dir n)))"

record ar_entry =
  ae_name :: string
  ae_dir :: bool
  ae_regular :: bool
  ae_data :: string

definition root_yaml :: "ar_entry \<Rightarrow> string option" where
  "root_yaml e =
     (let name = path_clean (ae_name e) in
      if ae_dir e \<or> str_contains name ''/'' \<or> \<not> is_yaml_name name then None else Some name)"

definition has_root_recurfile :: "ar_entry list \<Rightarrow> bool" where
  "has_root_recurfile es = (case select_recurfile (List.map_filter root_yaml es) of Inl _ \<Rightarrow> False | Inr _ \<Rightarrow> True)"

section \<open>Unpacking a bundle\<close>

definition extract_entry :: "io_env \<Rightarrow> ar_entry \<Rightarrow> string \<Rightarrow> fsys \<Rightarrow> string option \<times> fsys" where
  "extract_entry io e target fs =
     (if ae_dir e then mkdir_all io target fs
      else case mkdir_all io (path_dir target) fs of
        (Some err, fs1) \<Rightarrow> (Some err, fs1)
      | (None, fs1) \<Rightarrow> write_file io target (ae_data e) fs1)"

fun unpack_entries :: "io_env \<Rightarrow> string \<Rightarrow> ar_entry list \<Rightarrow> fsys \<Rightarrow> string option \<times> fsys" where
  "unpack_entries io dest [] fs = (None, fs)"
| "unpack_entries io dest (e # es) fs =
     (let target = path_join dest (path_clean (ae_name e)) in
      if \<not> inside dest target then (Some (''bundle entry escapes destination: '' @ ae_name e), fs)
      else case extract_entry io e target fs of
        (Some err, fs1) \<Rightarrow> (Some err, fs1)
      | (None, fs1) \<Rightarrow> unpack_entries io dest es fs1)"

definition unpack :: "io_env \<Rightarrow> string \<Rightarrow> ar_entry list result \<Rightarrow> string \<Rightarrow> fsys \<Rightarrow> string option \<times> fsys" where
  "unpack io bundle zr dest fs =
     (case zr of
        Inl e \<Rightarrow> (Some (''not a valid app bundle ('' @ path_base bundle @ ''): '' @ e), fs)
      | Inr es \<Rightarrow>
          if \<not> has_root_recurfile es then
            (Some (''not a valid app bundle: no recurfile at the root of '' @ path_base bundle), fs)
          else case mkdir_all io (path_clean dest) fs of
            (Some e, fs1) \<Rightarrow> (Some e, fs1)
          | (None, fs1) \<Rightarrow> unpack_entries io (path_clean dest) es fs1)"

section \<open>Packing a directory\<close>

text \<open>What is below \<open>src\<close>, in the order of \<open>filepath.WalkDir\<close>: relative names, \<open>None\<close> for a directory.\<close>

definition strip :: "string \<Rightarrow> string \<Rightarrow> string option" where
  "strip src p = (if has_prefix p (src @ ''/'') then Some (drop (length src + 1) p) else None)"

definition walk :: "string \<Rightarrow> fsys \<Rightarrow> (string \<times> string option) list" where
  "walk src fs =
     sort_key (\<lambda>(rel, _). str_split CHR ''/'' rel)
       (List.map_filter (\<lambda>p. map_option (\<lambda>r. (r, None)) (strip src p)) (fs_dirs fs) @
        List.map_filter (\<lambda>(p, c). map_option (\<lambda>r. (r, Some c)) (strip src p)) (fs_files fs))"

definition dir_entries :: "string \<Rightarrow> fsys \<Rightarrow> dir_entry list" where
  "dir_entries src fs =
     List.map_filter (\<lambda>(rel, c). if str_contains rel ''/'' then None
         else Some \<lparr>de_name = rel, de_is_dir = (c = None), de_is_symlink = False\<rparr>) (walk src fs)"

definition pack_entry :: "string \<times> string option \<Rightarrow> ar_entry" where
  "pack_entry rc =
     (case rc of
        (rel, None) \<Rightarrow> \<lparr>ae_name = rel @ ''/'', ae_dir = True, ae_regular = False, ae_data = []\<rparr>
      | (rel, Some c) \<Rightarrow> \<lparr>ae_name = rel, ae_dir = False, ae_regular = True, ae_data = c\<rparr>)"

definition pack :: "string \<Rightarrow> fsys \<Rightarrow> ar_entry list result" where
  "pack src fs =
     (case find_recurfile_in src (Inr (dir_entries src fs)) of
        Inl e \<Rightarrow> Inl e
      | Inr _ \<Rightarrow> Inr (map pack_entry (walk src fs)))"

section \<open>Extracting a plugin archive\<close>

definition is_url :: "string \<Rightarrow> bool" where
  "is_url p \<longleftrightarrow> has_prefix p ''http://'' \<or> has_prefix p ''https://''"

definition is_archive :: "string \<Rightarrow> bool" where
  "is_archive p \<longleftrightarrow> list_ex (has_suffix (to_lower p)) [''.tar.gz'', ''.tgz'', ''.zip'', ''.tar.bz2'', ''.tar.xz'']"

text \<open>The entries of a tar file up to its end or the error that stops the reader.\<close>

fun tar_entries :: "io_env \<Rightarrow> string \<Rightarrow> string option \<Rightarrow> ar_entry list \<Rightarrow> fsys \<Rightarrow> string option \<times> fsys" where
  "tar_entries io dest err [] fs = (map_option (\<lambda>e. ''tar read: '' @ e) err, fs)"
| "tar_entries io dest err (e # es) fs =
     (let target = path_join dest (path_clean (ae_name e)) in
      if \<not> has_prefix target dest \<or> \<not> ae_dir e \<and> \<not> ae_regular e then tar_entries io dest err es fs
      else case extract_entry io e target fs of
        (Some x, fs1) \<Rightarrow> (Some x, fs1)
      | (None, fs1) \<Rightarrow> tar_entries io dest err es fs1)"

fun zip_entries :: "io_env \<Rightarrow> string \<Rightarrow> ar_entry list \<Rightarrow> fsys \<Rightarrow> string option \<times> fsys" where
  "zip_entries io dest [] fs = (None, fs)"
| "zip_entries io dest (e # es) fs =
     (let target = path_join dest (path_clean (ae_name e)) in
      if \<not> has_prefix target dest then zip_entries io dest es fs
      else case extract_entry io e target fs of
        (Some x, fs1) \<Rightarrow> (Some x, fs1)
      | (None, fs1) \<Rightarrow> zip_entries io dest es fs1)"

text \<open>\<open>subs\<close> are the names of the subdirectories of \<open>dir\<close>, in the order of \<open>os.ReadDir\<close>.\<close>

definition find_plugin_dir :: "string \<Rightarrow> string list \<Rightarrow> fsys \<Rightarrow> string result" where
  "find_plugin_dir dir subs fs =
     (let has = (\<lambda>d. map_of (fs_files fs) (path_join d ''manifest.yaml'') \<noteq> None) in
      if has dir then Inr dir
      else case find has (map (path_join dir) subs) of
        Some d \<Rightarrow> Inr d
      | None \<Rightarrow> Inl ''no manifest.yaml found in archive'')"

definition sub_dirs :: "string \<Rightarrow> fsys \<Rightarrow> string list" where
  "sub_dirs dir fs = map de_name (filter de_is_dir (dir_entries dir fs))"

text \<open>\<open>tar\<close> and \<open>zr\<close> read the archive; \<open>tmp\<close> is the fresh directory of \<open>os.MkdirTemp\<close>.\<close>

definition extract_tar_gz :: "io_env \<Rightarrow> (ar_entry list \<times> string option) result \<Rightarrow> string \<Rightarrow> fsys \<Rightarrow> string result \<times> fsys" where
  "extract_tar_gz io tar tmp fs =
     (case tar of
        Inl e \<Rightarrow> (Inl e, fs)
      | Inr (es, err) \<Rightarrow>
          (case tar_entries io tmp err es (fs\<lparr>fs_dirs := tmp # fs_dirs fs\<rparr>) of
             (Some e, fs1) \<Rightarrow> (Inl e, remove_all tmp fs1)
           | (None, fs1) \<Rightarrow> (find_plugin_dir tmp (sub_dirs tmp fs1) fs1, fs1)))"

definition extract_zip :: "io_env \<Rightarrow> ar_entry list result \<Rightarrow> string \<Rightarrow> fsys \<Rightarrow> string result \<times> fsys" where
  "extract_zip io zr tmp fs =
     (case zr of
        Inl e \<Rightarrow> (Inl (''zip open: '' @ e), fs)
      | Inr es \<Rightarrow>
          (case zip_entries io tmp es (fs\<lparr>fs_dirs := tmp # fs_dirs fs\<rparr>) of
             (Some e, fs1) \<Rightarrow> (Inl e, remove_all tmp fs1)
           | (None, fs1) \<Rightarrow> (find_plugin_dir tmp (sub_dirs tmp fs1) fs1, fs1)))"

definition extract_archive :: "io_env \<Rightarrow> (ar_entry list \<times> string option) result \<Rightarrow> ar_entry list result \<Rightarrow> string \<Rightarrow> string \<Rightarrow>
    fsys \<Rightarrow> string result \<times> fsys" where
  "extract_archive io tar zr tmp path fs =
     (let l = to_lower path in
      if has_suffix l ''.tar.gz'' \<or> has_suffix l ''.tgz'' then extract_tar_gz io tar tmp fs
      else if has_suffix l ''.zip'' then extract_zip io zr tmp fs
      else (Inl (''unsupported archive format: '' @ path_base path), fs))"

section \<open>Installing a plugin\<close>

fun copy_entries :: "io_env \<Rightarrow> string \<Rightarrow> (string \<times> string option) list \<Rightarrow> fsys \<Rightarrow> string option \<times> fsys" where
  "copy_entries io dst [] fs = (None, fs)"
| "copy_entries io dst ((rel, c) # es) fs =
     (case (case c of None \<Rightarrow> mkdir_all io (dst @ ''/'' @ rel) fs | Some x \<Rightarrow> write_file io (dst @ ''/'' @ rel) x fs) of
        (Some e, fs1) \<Rightarrow> (Some e, fs1)
      | (None, fs1) \<Rightarrow> copy_entries io dst es fs1)"

definition copy_dir :: "io_env \<Rightarrow> string \<Rightarrow> string \<Rightarrow> fsys \<Rightarrow> string option \<times> fsys" where
  "copy_dir io src dst fs =
     (case mkdir_all io dst fs of
        (Some e, fs1) \<Rightarrow> (Some e, fs1)
      | (None, fs1) \<Rightarrow> copy_entries io dst (walk src fs) fs1)"

definition path_exists :: "fsys \<Rightarrow> string \<Rightarrow> bool" where
  "path_exists fs p \<longleftrightarrow> map_of (fs_files fs) p \<noteq> None \<or> p \<in> set (fs_dirs fs) \<or> map_of (fs_links fs) p \<noteq> None"

text \<open>\<open>load fs dir\<close> is \<open>LoadPlugin\<close>; \<open>symlink\<close> is the error of \<open>os.Symlink\<close>, if it fails.\<close>

definition install :: "io_env \<Rightarrow> (fsys \<Rightarrow> string \<Rightarrow> installed_plugin result) \<Rightarrow> string option \<Rightarrow> string \<Rightarrow> string result \<Rightarrow>
    string \<Rightarrow> bool \<Rightarrow> fsys \<Rightarrow> installed_plugin result \<times> fsys" where
  "install io load symlink cwd plugins_dir src link fs =
     (case load fs src of
        Inl e \<Rightarrow> (Inl (''invalid plugin source: '' @ e), fs)
      | Inr p \<Rightarrow>
          (case plugins_dir of
             Inl e \<Rightarrow> (Inl e, fs)
           | Inr pd \<Rightarrow>
               (let dest = path_join pd (mf_name (ip_manifest p)); abs_src = path_abs cwd src in
                if path_exists fs dest then (Inl (''plugin directory already exists: '' @ dest @ '' (uninstall first)''), fs)
                else
                  let (err, fs1) = (if link then
                        (case symlink of
                           Some e \<Rightarrow> (Some (''could not create symlink: '' @ e), fs)
                         | None \<Rightarrow> (None, fs\<lparr>fs_links := AList.update dest abs_src (fs_links fs)\<rparr>))
                      else
                        (case copy_dir io abs_src dest fs of
                           (Some e, fs1) \<Rightarrow> (Some (''could not copy plugin: '' @ e), remove_all dest fs1)
                         | (None, fs1) \<Rightarrow> (None, fs1)))
                  in case err of
                       Some e \<Rightarrow> (Inl e, fs1)
                     | None \<Rightarrow>
                         (case load fs1 dest of
                            Inl e \<Rightarrow> (Inl (''installed plugin failed to load: '' @ e), remove_all dest fs1)
                          | Inr q \<Rightarrow> (Inr q, fs1)))))"

definition remove_plugin :: "string option \<Rightarrow> string \<Rightarrow> fsys \<Rightarrow> string option \<times> fsys" where
  "remove_plugin stat_err dir fs =
     (case stat_err of
        Some e \<Rightarrow> (Some (''could not stat plugin directory: '' @ e), fs)
      | None \<Rightarrow>
          if \<not> path_exists fs dir then (None, fs)
          else if map_of (fs_links fs) dir \<noteq> None then (None, fs\<lparr>fs_links := AList.delete dir (fs_links fs)\<rparr>)
          else (None, remove_all dir fs))"

end
