(* ===== verification/Path_Facts.thy ===== *)
theory Path_Facts
  imports Go_Paths
begin

text \<open>
  Facts on Unix paths made of plain elements: cleaning, joining and taking the directory of such
  paths does what it says on the list of their elements.
\<close>

definition plain_elem :: "string \<Rightarrow> bool" where
  "plain_elem e \<longleftrightarrow> e \<noteq> [] \<and> e \<noteq> ''.'' \<and> e \<noteq> ''..''"

text \<open>A relative path, and an absolute one other than the root.\<close>

definition plain_rel :: "string \<Rightarrow> bool" where
  "plain_rel p \<longleftrightarrow> list_all plain_elem (str_split CHR ''/'' p)"

definition plain_abs :: "string \<Rightarrow> bool" where
  "plain_abs p \<longleftrightarrow> p \<noteq> [] \<and> hd p = CHR ''/'' \<and> plain_rel (tl p)"

lemma str_split_append: "str_split c (a @ c # b) = str_split c a @ str_split c b"
  by (induction a) (auto split: list.splits)

lemma str_split_single: "c \<notin> set s \<Longrightarrow> str_split c s = [s]"
  by (induction s) auto

lemma clean_elems_plain: "list_all plain_elem es \<Longrightarrow> clean_elems r out es = rev out @ es"
  by (induction es arbitrary: out) (auto simp: plain_elem_def)

lemma clean_elems_drop: "list_all plain_elem es \<Longrightarrow> clean_elems r out (es @ [[]]) = rev out @ es"
  by (induction es arbitrary: out) (auto simp: plain_elem_def)

lemma plain_rel_not_abs: "plain_rel p \<Longrightarrow> \<not> is_abs p \<and> p \<noteq> []"
  by (cases p) (auto simp: plain_rel_def is_abs_def plain_elem_def)

lemma clean_plain_rel: "plain_rel p \<Longrightarrow> path_clean p = p"
  using plain_rel_not_abs [of p] by (auto simp: path_clean_def clean_elems_plain plain_rel_def)

lemma clean_plain_rel_slash: "plain_rel p \<Longrightarrow> path_clean (p @ ''/'') = p"
proof -
  assume p: "plain_rel p"
  with plain_rel_not_abs have "\<not> is_abs p" "p \<noteq> []" by auto
  then have "\<not> is_abs (p @ ''/'')" by (cases p) (auto simp: is_abs_def)
  moreover have "str_split CHR ''/'' (p @ ''/'') = str_split CHR ''/'' p @ [[]]"
    using str_split_append [of "CHR ''/''" p "[]"] by simp
  ultimately show ?thesis using p \<open>p \<noteq> []\<close> by (simp add: path_clean_def clean_elems_drop plain_rel_def)
qed

lemma plain_absE:
  assumes "plain_abs p" obtains q where "p = CHR ''/'' # q" "plain_rel q"
  using assms by (cases p) (auto simp: plain_abs_def)

lemma plain_abs_Cons [simp]: "plain_abs (CHR ''/'' # q) = plain_rel q"
  by (simp add: plain_abs_def)

lemma plain_rel_append: "plain_rel (a @ CHR ''/'' # b) \<longleftrightarrow> plain_rel a \<and> plain_rel b"
  by (simp add: plain_rel_def str_split_append)

lemma plain_abs_append: "plain_abs d \<Longrightarrow> plain_rel r \<Longrightarrow> plain_abs (d @ CHR ''/'' # r)"
  by (auto elim!: plain_absE simp: plain_rel_append)

lemma clean_plain_abs: "plain_abs p \<Longrightarrow> path_clean p = p"
  by (auto elim!: plain_absE simp: path_clean_def is_abs_def plain_rel_def clean_elems_plain)

lemma clean_plain_abs_slash: "plain_abs p \<Longrightarrow> path_clean (p @ ''/'') = p"
proof (elim plain_absE)
  fix q assume p: "p = CHR ''/'' # q" and q: "plain_rel q"
  have "str_split CHR ''/'' (p @ ''/'') = [] # str_split CHR ''/'' q @ [[]]"
    using str_split_append [of "CHR ''/''" q "[]"] p by simp
  moreover have "clean_elems True [] ([] # str_split CHR ''/'' q @ [[]]) = str_split CHR ''/'' q"
    using q by (simp add: clean_elems_drop plain_rel_def)
  ultimately show ?thesis using p by (simp add: path_clean_def is_abs_def)
qed

lemma join_plain: "plain_abs d \<Longrightarrow> plain_rel r \<Longrightarrow> path_join d r = d @ CHR ''/'' # r"
  using clean_plain_abs [OF plain_abs_append, of d r] by (auto simp: path_join_def plain_abs_def)

text \<open>The directory of a path of plain elements.\<close>

lemma last_slash: "CHR ''/'' \<in> set p \<Longrightarrow> \<exists>a b. p = a @ CHR ''/'' # b \<and> CHR ''/'' \<notin> set b"
  by (rule split_list_last)

lemma path_dir_split:
  assumes "CHR ''/'' \<notin> set b" shows "path_dir (a @ CHR ''/'' # b) = path_clean (a @ ''/'')"
proof -
  have "dropWhile (\<lambda>c. c \<noteq> CHR ''/'') (rev b @ CHR ''/'' # rev a) = CHR ''/'' # rev a"
    using assms by (simp add: dropWhile_append)
  then show ?thesis by (simp add: path_dir_def)
qed

lemma path_dir_plain:
  assumes "plain_abs d" "plain_rel r"
  shows "path_dir (d @ CHR ''/'' # r) = d \<or> (\<exists>a b. r = a @ CHR ''/'' # b \<and> path_dir (d @ CHR ''/'' # r) = d @ CHR ''/'' # a)"
proof (cases "CHR ''/'' \<in> set r")
  case False
  then show ?thesis using path_dir_split [of r d] clean_plain_abs_slash [OF assms(1)] by simp
next
  case True
  then obtain a b where r: "r = a @ CHR ''/'' # b" "CHR ''/'' \<notin> set b" using last_slash by blast
  with assms(2) have "plain_rel a" by (simp add: plain_rel_append)
  then have "path_clean ((d @ CHR ''/'' # a) @ ''/'') = d @ CHR ''/'' # a"
    by (intro clean_plain_abs_slash plain_abs_append assms(1))
  with r path_dir_split [OF r(2), of "d @ CHR ''/'' # a"] show ?thesis by auto
qed

end
