(* ===== verification/Archive_Props.thy ===== *)
theory Archive_Props
  imports Archive Path_Facts
begin

text \<open>
  Properties of bundles and archives: unpacking writes nothing outside its destination, a packed
  directory unpacks to itself, a failed installation leaves no file behind.
\<close>

section \<open>Confinement\<close>

lemma write_file_other: "p \<noteq> q \<Longrightarrow> map_of (fs_files (snd (write_file io q x fs))) p = map_of (fs_files fs) p"
  by (auto simp: write_file_def split: option.splits)

lemma mkdir_all_files [simp]: "fs_files (snd (mkdir_all io q fs)) = fs_files fs"
  by (simp add: mkdir_all_def split: option.splits)

lemma extract_entry_other:
  "p \<noteq> q \<Longrightarrow> map_of (fs_files (snd (extract_entry io e q fs))) p = map_of (fs_files fs) p"
  using mkdir_all_files [of io "path_dir q" fs] mkdir_all_files [of io q fs] write_file_other [of p q io "ae_data e"]
  by (auto simp: extract_entry_def simp del: mkdir_all_files split: prod.splits option.splits)

lemma unpack_entries_other:
  "\<not> inside dest p \<Longrightarrow> map_of (fs_files (snd (unpack_entries io dest es fs))) p = map_of (fs_files fs) p"
proof (induction es arbitrary: fs)
  case (Cons e es)
  let ?t = "path_join dest (path_clean (ae_name e))"
  show ?case
  proof (cases "inside dest ?t")
    case True
    with Cons.prems have "p \<noteq> ?t" by auto
    from extract_entry_other [OF this, of io e fs] Cons True show ?thesis
      by (auto simp: Let_def split: prod.splits option.splits)
  qed (use Cons in \<open>simp add: Let_def\<close>)
qed simp

text \<open>
  C17: unpacking a bundle changes no file outside the destination directory, whatever the names of
  its entries and whether it succeeds; a file that is not a zip archive or has no usable recurfile
  at its root is rejected before anything changes.
\<close>

theorem unpack_confined:
  assumes "\<not> inside (path_clean dest) p"
  shows "map_of (fs_files (snd (unpack io bundle zr dest fs))) p = map_of (fs_files fs) p \<and>
    (case zr of
        Inl e \<Rightarrow> fst (unpack io bundle zr dest fs) \<noteq> None \<and> snd (unpack io bundle zr dest fs) = fs
      | Inr es \<Rightarrow> has_root_recurfile es \<or> fst (unpack io bundle zr dest fs) \<noteq> None \<and> snd (unpack io bundle zr dest fs) = fs)"
proof
  show "map_of (fs_files (snd (unpack io bundle zr dest fs))) p = map_of (fs_files fs) p"
    using unpack_entries_other [OF assms] mkdir_all_files [of io "path_clean dest" fs]
    by (auto simp: unpack_def simp del: mkdir_all_files split: sum.splits prod.splits option.splits)
qed (simp add: unpack_def split: sum.splits)

definition evil_entry :: ar_entry where
  "evil_entry = \<lparr>ae_name = ''../evil'', ae_dir = False, ae_regular = True, ae_data = ''x''\<rparr>"

definition rf_entry :: ar_entry where
  "rf_entry = \<lparr>ae_name = ''app.yaml'', ae_dir = False, ae_regular = True, ae_data = ''y''\<rparr>"

definition empty_fs :: fsys where "empty_fs = \<lparr>fs_files = [], fs_dirs = [], fs_links = []\<rparr>"

lemmas archive_eval = unpack_def has_root_recurfile_def root_yaml_def select_recurfile_def is_yaml_name_def
  mkdir_all_def write_file_def extract_entry_def io_fine_def inside_def path_join_def path_clean_def is_abs_def
  path_dir_def has_suffix_def List.map_filter_def to_lower_def lower_char_def str_contains_def str_index_def
  char_of_eq_iff empty_fs_def rf_entry_def evil_entry_def

theorem unpack_confined_witness:
  "map_of (fs_files (snd (unpack io_fine ''b.recur'' (Inr [rf_entry, evil_entry]) ''/d/x'' empty_fs))) ''/d/evil'' = None"
  using unpack_confined [of "''/d/x''" "''/d/evil''" io_fine "''b.recur''" "Inr [rf_entry, evil_entry]" empty_fs]
  by (simp add: inside_def path_clean_def is_abs_def empty_fs_def)

text \<open>A rejected bundle may have written its earlier entries.\<close>

lemma rejected_bundle_writes:
  "unpack io_fine ''b.recur'' (Inr [rf_entry, evil_entry]) ''/d/x'' empty_fs =
     (Some ''bundle entry escapes destination: ../evil'',
      \<lparr>fs_files = [(''/d/x/app.yaml'', ''y'')], fs_dirs = [''/d/x''], fs_links = []\<rparr>)"
  by (simp add: archive_eval)

text \<open>
  The plugin extractors test for the prefix without a separator: an entry can reach a sibling
  whose name continues that of the destination.
\<close>

lemma tar_escapes_to_sibling:
  "snd (tar_entries io_fine ''/t/x1'' None
      [\<lparr>ae_name = ''../x12/f'', ae_dir = False, ae_regular = True, ae_data = ''x''\<rparr>] empty_fs) =
     \<lparr>fs_files = [(''/t/x12/f'', ''x'')], fs_dirs = [''/t/x12''], fs_links = []\<rparr>"
  by (simp add: archive_eval)

section \<open>Packing and unpacking\<close>

text \<open>A directory tree: plain names, each once, nothing below a file.\<close>

definition tree_ok :: "(string \<times> string option) list \<Rightarrow> bool" where
  "tree_ok w \<longleftrightarrow> distinct (map fst w) \<and> list_all (\<lambda>(r, _). plain_rel r) w \<and>
     list_all (\<lambda>(r, c). c = None \<or> list_all (\<lambda>(r', _). \<not> has_prefix r' (r @ ''/'')) w) w"

lemma tree_okD:
  assumes "tree_ok w"
  shows "(r, c) \<in> set w \<Longrightarrow> plain_rel r"
    and "(r, None) \<in> set w \<Longrightarrow> (r, Some c') \<notin> set w"
    and "(r, Some c1) \<in> set w \<Longrightarrow> (r, Some c2) \<in> set w \<Longrightarrow> c1 = c2"
    and "(a @ CHR ''/'' # b, d) \<in> set w \<Longrightarrow> (a, Some c') \<notin> set w"
proof -
  from assms have d: "distinct (map fst w)" by (simp add: tree_ok_def)
  show "(r, c) \<in> set w \<Longrightarrow> plain_rel r" using assms by (auto simp: tree_ok_def list_all_iff)
  show "(r, None) \<in> set w \<Longrightarrow> (r, Some c') \<notin> set w" using eq_key_imp_eq_value [OF d] by fastforce
  show "(r, Some c1) \<in> set w \<Longrightarrow> (r, Some c2) \<in> set w \<Longrightarrow> c1 = c2" using eq_key_imp_eq_value [OF d] by fastforce
  show "(a, Some c') \<notin> set w" if "(a @ CHR ''/'' # b, d) \<in> set w"
  proof
    assume "(a, Some c') \<in> set w"
    with assms that have "\<not> has_prefix (a @ CHR ''/'' # b) (a @ ''/'')" by (fastforce simp: tree_ok_def list_all_iff)
    then show False by (simp add: has_prefix_iff)
  qed
qed

lemma io_fine_simps [simp]: "io_mkdir io_fine p = None" "io_file io_fine p = None"
  by (simp_all add: io_fine_def)

lemma pack_entry_target:
  assumes "plain_abs d" "plain_rel r"
  shows "path_join d (path_clean (ae_name (pack_entry (r, c)))) = d @ CHR ''/'' # r"
  using assms by (cases c) (simp_all add: pack_entry_def clean_plain_rel clean_plain_rel_slash join_plain)

lemma inside_child [simp]: "inside d (d @ CHR ''/'' # r)"
  by (simp add: inside_def has_prefix_iff)

definition tree_files :: "string \<Rightarrow> (string \<times> string option) list \<Rightarrow> (string, string) amap" where
  "tree_files d w = List.map_filter (\<lambda>(r, c). map_option (\<lambda>y. (d @ CHR ''/'' # r, y)) c) w"

lemma tree_files_simps [simp]:
  "tree_files d [] = []"
  "tree_files d ((r, None) # w) = tree_files d w"
  "tree_files d ((r, Some y) # w) = (d @ CHR ''/'' # r, y) # tree_files d w"
  by (simp_all add: tree_files_def List.map_filter_def)

lemma tree_files_lookup: "distinct (map fst w) \<Longrightarrow>
    map_of (tree_files d w) (d @ CHR ''/'' # r) = (case map_of w r of Some (Some y) \<Rightarrow> Some y | _ \<Rightarrow> None)"
proof (induction w)
  case (Cons x w)
  obtain r' c where x: "x = (r', c)" by (cases x)
  from Cons x have "map_of w r' = None" by (simp add: map_of_eq_None_iff)
  with Cons x show ?case by (cases c) auto
qed simp

lemma tree_files_range: "map_of (tree_files d w) p = Some y \<Longrightarrow> \<exists>r. p = d @ CHR ''/'' # r"
  by (auto simp: tree_files_def List.map_filter_def dest!: map_of_SomeD)

lemma unpack_packed:
  assumes w: "tree_ok w" and d: "plain_abs d"
  shows "\<lbrakk> set u \<subseteq> set w; distinct (map fst u); \<And>r c. (r, Some c) \<in> set w \<Longrightarrow> d @ CHR ''/'' # r \<notin> set (fs_dirs fs) \<rbrakk> \<Longrightarrow>
    \<exists>fs'. unpack_entries io_fine d (map pack_entry u) fs = (None, fs') \<and>
      (\<forall>p. map_of (fs_files fs') p = (case map_of (tree_files d u) p of Some y \<Rightarrow> Some y | None \<Rightarrow> map_of (fs_files fs) p))"
proof (induction u arbitrary: fs)
  case Nil
  then show ?case by simp
next
  case (Cons x u)
  obtain r c where x: "x = (r, c)" by (cases x)
  from Cons.prems(1) x have mem: "(r, c) \<in> set w" by simp
  have r: "plain_rel r" by (rule tree_okD(1) [OF w mem])
  let ?t = "d @ CHR ''/'' # r"
  note step = pack_entry_target [OF d r]
  show ?case
  proof (cases c)
    case None
    let ?fs = "fs\<lparr>fs_dirs := List.insert ?t (fs_dirs fs)\<rparr>"
    have "\<And>r' c'. (r', Some c') \<in> set w \<Longrightarrow> d @ CHR ''/'' # r' \<notin> set (fs_dirs ?fs)"
      using Cons.prems(3) tree_okD(2) [OF w] mem None by auto
    then obtain fs' where fs': "unpack_entries io_fine d (map pack_entry u) ?fs = (None, fs')"
      "\<forall>p. map_of (fs_files fs') p = (case map_of (tree_files d u) p of Some y \<Rightarrow> Some y | None \<Rightarrow> map_of (fs_files ?fs) p)"
      using Cons.IH [of ?fs] Cons.prems(1,2) by auto
    have "extract_entry io_fine (pack_entry x) ?t fs = (None, ?fs)"
      by (simp add: x None pack_entry_def extract_entry_def mkdir_all_def)
    with fs'(1) step [of c] x None have "unpack_entries io_fine d (map pack_entry (x # u)) fs = (None, fs')"
      by (simp add: Let_def)
    with fs'(2) x None show ?thesis by (auto split: option.splits)
  next
    case (Some y)
    let ?fs1 = "fs\<lparr>fs_dirs := List.insert (path_dir ?t) (fs_dirs fs)\<rparr>"
    let ?fs = "?fs1\<lparr>fs_files := AList.update ?t y (fs_files fs)\<rparr>"
    have dirs: "\<And>r' c'. (r', Some c') \<in> set w \<Longrightarrow> d @ CHR ''/'' # r' \<notin> set (fs_dirs ?fs1)"
      using path_dir_plain [OF d r] Cons.prems(3) tree_okD(4) [OF w] mem by auto
    then obtain fs' where fs': "unpack_entries io_fine d (map pack_entry u) ?fs = (None, fs')"
      "\<forall>p. map_of (fs_files fs') p = (case map_of (tree_files d u) p of Some y \<Rightarrow> Some y | None \<Rightarrow> map_of (fs_files ?fs) p)"
      using Cons.IH [of ?fs] Cons.prems(1,2) by auto
    have "extract_entry io_fine (pack_entry x) ?t fs = (None, ?fs)"
      using dirs mem Some by (simp add: x pack_entry_def extract_entry_def mkdir_all_def write_file_def)
    with fs'(1) step [of c] x Some have "unpack_entries io_fine d (map pack_entry (x # u)) fs = (None, fs')"
      by (simp add: Let_def)
    moreover have "map_of (tree_files d u) ?t = None"
      using Cons.prems(2) x by (simp add: tree_files_lookup map_of_eq_None_iff [symmetric])
    ultimately show ?thesis using fs'(2) x Some by (auto split: option.splits)
  qed
qed

lemma contains_slash: "str_contains r ''/'' \<longleftrightarrow> CHR ''/'' \<in> set r"
  by (simp add: str_contains_iff in_set_conv_decomp)

lemma pack_root_yaml:
  "list_all (\<lambda>(r, _). plain_rel r) w \<Longrightarrow>
   List.map_filter root_yaml (map pack_entry w) = filter is_yaml_name (map de_name (filter (\<lambda>e. \<not> de_is_dir e)
     (List.map_filter (\<lambda>(rel, c). if str_contains rel ''/'' then None
         else Some \<lparr>de_name = rel, de_is_dir = (c = None), de_is_symlink = False\<rparr>) w)))"
proof (induction w)
  case (Cons x w)
  obtain r c where x: "x = (r, c)" by (cases x)
  with Cons show ?case
    by (cases c) (auto simp: root_yaml_def pack_entry_def clean_plain_rel List.map_filter_def Let_def)
qed (simp add: List.map_filter_def)

lemma in_map_filter: "y \<in> set (List.map_filter f xs) \<longleftrightarrow> (\<exists>x\<in>set xs. f x = Some y)"
  by (force simp: List.map_filter_def)

lemma walk_set:
  "(r, Some y) \<in> set (walk src fs) \<longleftrightarrow> (src @ CHR ''/'' # r, y) \<in> set (fs_files fs)"
  "(r, None) \<in> set (walk src fs) \<longleftrightarrow> src @ CHR ''/'' # r \<in> set (fs_dirs fs)"
proof -
  have s: "strip src p = Some r \<longleftrightarrow> p = src @ CHR ''/'' # r" for p
    by (auto simp: strip_def has_prefix_iff)
  show "(r, Some y) \<in> set (walk src fs) \<longleftrightarrow> (src @ CHR ''/'' # r, y) \<in> set (fs_files fs)"
    by (auto simp: walk_def in_map_filter s intro!: bexI [of _ "(src @ CHR ''/'' # r, y)"])
  show "(r, None) \<in> set (walk src fs) \<longleftrightarrow> src @ CHR ''/'' # r \<in> set (fs_dirs fs)"
    by (auto simp: walk_def in_map_filter s)
qed

lemma walk_lookup:
  assumes "distinct (map fst (walk src fs))"
  shows "map_of (tree_files d (walk src fs)) (d @ CHR ''/'' # r) = map_of (fs_files fs) (src @ CHR ''/'' # r)"
proof (cases "map_of (fs_files fs) (src @ CHR ''/'' # r)")
  case None
  then have "(r, Some y) \<notin> set (walk src fs)" for y by (force simp: walk_set map_of_eq_None_iff)
  with None show ?thesis using assms
    by (auto simp: tree_files_lookup split: option.splits dest: map_of_SomeD)
next
  case (Some y)
  then have "(r, Some y) \<in> set (walk src fs)" by (simp add: walk_set map_of_SomeD)
  with Some assms show ?thesis by (simp add: tree_files_lookup)
qed

definition untouched :: "string \<Rightarrow> fsys \<Rightarrow> bool" where
  "untouched d fs \<longleftrightarrow> list_all (\<lambda>p. \<not> inside d p) (map fst (fs_files fs) @ fs_dirs fs)"


definition app_fs :: fsys where
  "app_fs = \<lparr>fs_files = [(''/a/b/run.sh'', ''echo''), (''/a/app.yaml'', ''g:'')], fs_dirs = [''/a'', ''/a/b''], fs_links = []\<rparr>"

lemma app_walk: "walk ''/a'' app_fs = [(''app.yaml'', Some ''g:''), (''b'', None), (''b/run.sh'', Some ''echo'')]"
  by (simp add: walk_def app_fs_def List.map_filter_def strip_def insort_key_def)


section \<open>Installing\<close>

lemma mkdir_all_eqD: "mkdir_all io q fs = (e, fs') \<Longrightarrow> fs_files fs' = fs_files fs"
  using mkdir_all_files [of io q fs] by simp

lemma copy_entries_other:
  "\<not> inside d p \<Longrightarrow> map_of (fs_files (snd (copy_entries io d es fs))) p = map_of (fs_files fs) p"
proof (induction io d es fs rule: copy_entries.induct)
  case (2 io d rel c es fs)
  let ?q = "d @ ''/'' @ rel"
  have "p \<noteq> ?q" using 2(2) by auto
  then have "map_of (fs_files (snd (case c of None \<Rightarrow> mkdir_all io ?q fs | Some x \<Rightarrow> write_file io ?q x fs))) p = map_of (fs_files fs) p"
    by (cases c) (simp_all add: write_file_other)
  with 2 show ?case by (auto split: prod.splits option.splits dest!: mkdir_all_eqD)
qed simp

lemma copy_dir_other:
  "\<not> inside d p \<Longrightarrow> map_of (fs_files (snd (copy_dir io src d fs))) p = map_of (fs_files fs) p"
  using copy_entries_other [of d p io "walk src fs1" for fs1] mkdir_all_files [of io d fs]
  by (auto simp: copy_dir_def simp del: mkdir_all_files split: prod.splits option.splits)

lemma remove_all_lookup:
  "map_of (fs_files (remove_all d fs)) p = (if inside d p then None else map_of (fs_files fs) p)"
proof -
  have "map_of (filter (\<lambda>(p, _). \<not> inside d p) m) p = (if inside d p then None else map_of m p)" for m :: "(string, string) amap"
    by (induction m) auto
  then show ?thesis by (simp add: remove_all_def)
qed


definition two_files :: fsys where
  "two_files = \<lparr>fs_files = [(''/s/manifest.yaml'', ''m''), (''/s/run'', ''r'')], fs_dirs = [''/s''], fs_links = []\<rparr>"

definition full_disk :: io_env where
  "full_disk = io_fine\<lparr>io_file := (\<lambda>p. if has_suffix p ''run'' then Some (''no space left'', Some 0) else None)\<rparr>"


text \<open>
  When an archive has no manifest, its extraction reports an error and no directory, but the
  temporary directory and its files stay.
\<close>

lemma extract_without_manifest_leaks:
  "extract_archive io_fine (Inl []) (Inr [rf_entry]) ''/t/x'' ''a.zip'' empty_fs =
     (Inl ''no manifest.yaml found in archive'', \<lparr>fs_files = [(''/t/x/app.yaml'', ''y'')], fs_dirs = [''/t/x''], fs_links = []\<rparr>)"
  by (simp add: extract_archive_def extract_zip_def archive_eval find_plugin_dir_def sub_dirs_def dir_entries_def walk_def strip_def
      insort_key_def)

end
