(* ===== verification/Daemon.thy ===== *)
theory Daemon
  imports External Archive_Props Atomic_File Config_Keys
begin

text \<open>
  \<open>daemon/daemon.go\<close>, \<open>daemon/appscan.go\<close> and the state file (\<open>jsonfile/state\<close>): the daemon that
  owns the configuration, the plugins, the registry, the engine and the event router; its executor
  and error callbacks; saving and restoring its state. The world outside is a record of functions.
\<close>

section \<open>The state file\<close>

record launch_args =
  la_config_path :: string
  la_socket_address :: string
  la_log_level :: string
  la_foreground :: bool

record entity_state =
  ej_id :: string
  ej_status :: string
  ej_error_count :: int
  ej_last_activity :: string

record recurfile_state =
  rj_id :: string
  rj_path :: string
  rj_triggers :: "entity_state list"
  rj_actions :: "entity_state list"

record state_file =
  sj_launch :: "launch_args option"
  sj_recurfiles :: "recurfile_state list"

definition empty_state :: state_file where "empty_state = \<lparr>sj_launch = None, sj_recurfiles = []\<rparr>"

text \<open>\<open>file\<close> is the content of the file, \<open>None\<close> if it does not exist.\<close>

definition state_load :: "(string \<Rightarrow> state_file result) \<Rightarrow> string option result \<Rightarrow> state_file result" where
  "state_load unmarshal file =
     (case file of
        Inl e \<Rightarrow> Inl (''reading state file: '' @ e)
      | Inr None \<Rightarrow> Inr empty_state
      | Inr (Some data) \<Rightarrow> wrap_err ''parsing state file: '' (unmarshal data))"

definition load_launch_args :: "(string \<Rightarrow> state_file result) \<Rightarrow> string option result \<Rightarrow> launch_args option result" where
  "load_launch_args unmarshal file = (case state_load unmarshal file of Inl e \<Rightarrow> Inl e | Inr f \<Rightarrow> Inr (sj_launch f))"

definition state_save :: "(state_file \<Rightarrow> string result) \<Rightarrow> os_env \<Rightarrow> string \<Rightarrow> string \<Rightarrow> state_file \<Rightarrow> dir \<Rightarrow>
    string option \<times> dir" where
  "state_save marshal env path ts f d =
     (case marshal f of
        Inl e \<Rightarrow> (Some (''marshaling state: '' @ e), d)
      | Inr data \<Rightarrow> af_write env path ts (data @ [CHR 0x0A]) d)"

section \<open>The daemon and the world\<close>

record daemon =
  dm_config :: strct
  dm_store :: store
  dm_config_path :: string
  dm_state_path :: string
  dm_plugins :: "installed_plugin list"
  dm_registry :: registry
  dm_launch :: "launch_args option"
  dm_exec :: "(strct \<times> installed_plugin list) option"
  dm_engine :: "engine option"
  dm_run :: "string \<times> int \<times> string \<times> installed_plugin list"
  dm_router :: "router option"
  dm_redactor :: "string list option"
  dm_disk :: dir
  dm_config_disk :: dir

text \<open>
  \<open>dm_exec\<close> is what the action dispatcher holds: the configuration and the plugins of the moment
  \<open>Run\<close> made it. \<open>dm_run\<close> is what the driver factories hold from then: the socket, the shutdown
  timeout, the log level and the plugins. \<open>dm_disk\<close> and \<open>dm_config_disk\<close> are the directories of
  the state file and of the configuration file.
\<close>

record world =
  wd_reg :: reg_env
  wd_read :: "string \<Rightarrow> string result"
  wd_yaml :: "string \<Rightarrow> ynode result"
  wd_decode :: "ynode \<Rightarrow> gmap option result"
  wd_list :: "string \<Rightarrow> dir_entry list result"
  wd_manifest :: "string \<Rightarrow> manifest result"
  wd_os :: os_env
  wd_now :: nat
  wd_stamp :: string
  wd_marshal :: "state_file \<Rightarrow> string result"
  wd_unmarshal :: "string \<Rightarrow> state_file result"
  wd_config_yaml :: "strct \<Rightarrow> string result"
  wd_secrets :: secret_env
  wd_exec :: exec_env
  wd_start :: "ext_driver \<Rightarrow> string option"

definition new_daemon :: "store \<Rightarrow> daemon" where
  "new_daemon s = (case st_get s of (eff, s') \<Rightarrow>
     \<lparr>dm_config = eff, dm_store = s', dm_config_path = [], dm_state_path = [], dm_plugins = [],
      dm_registry = new_registry, dm_launch = None, dm_exec = None, dm_engine = None, dm_run = ([], 0, [], []),
      dm_router = None, dm_redactor = None, dm_disk = [], dm_config_disk = []\<rparr>)"

definition load_file :: "world \<Rightarrow> string \<Rightarrow> raw_file result" where
  "load_file w path = load_recurfile (wd_read w) (parse_recurfile (wd_yaml w) (wd_decode w)) path"

section \<open>What the configuration gives to registration and drivers\<close>

definition overrides_key :: string where "overrides_key = ''trigger_defaults''"

definition trigger_overrides :: "strct \<Rightarrow> (string, gmap) amap" where
  "trigger_overrides c =
     (case cfg_plugins c of
        None \<Rightarrow> []
      | Some ps \<Rightarrow> List.map_filter (\<lambda>(ns, v). case map_of (ns_map v) overrides_key of
            Some (VMap m) \<Rightarrow> if m = [] then None else Some (ns, m)
          | _ \<Rightarrow> None) ps)"

text \<open>The pointers that the source dereferences here are set in every effective configuration (lemma \<open>effective_defined\<close>).\<close>

definition trigger_defaults_map :: "strct \<Rightarrow> gmap" where
  "trigger_defaults_map c =
     (let et = deref_int (cfg_ptr c ''ErrorThreshold'');
          deb = deref_str (cfg_ptr c ''Debounce'')
      in [(''concurrency_mode'', VStr (deref_str (cfg_ptr c ''ConcurrencyMode''))),
          (''max_queue_size'', VInt (deref_int (cfg_ptr c ''MaxQueueSize''))),
          (''error_threshold'', VInt (effective_int (cfg_ptr c ''TriggerErrorThreshold'') et)),
          (''action_error_threshold'', VInt (effective_int (cfg_ptr c ''ActionErrorThreshold'') et))] @
         (if deb \<noteq> [] then [(''debounce'', VStr deb)] else []))"

definition config_lookup :: "strct \<Rightarrow> string \<Rightarrow> gmap option" where
  "config_lookup c ns =
     (case cfg_plugins c of
        None \<Rightarrow> None
      | Some ps \<Rightarrow> (case map_of ps ns of
          None \<Rightarrow> None
        | Some v \<Rightarrow> Some (filter (\<lambda>(k, _). k \<noteq> overrides_key) (ns_map v))))"

definition dm_input :: "daemon \<Rightarrow> reg_input" where
  "dm_input d = \<lparr>ri_plugins = dm_plugins d, ri_defaults = Some (trigger_defaults_map (dm_config d)),
     ri_overrides = trigger_overrides (dm_config d)\<rparr>"

definition dm_register :: "world \<Rightarrow> raw_file \<Rightarrow> daemon \<Rightarrow> register_result \<times> daemon" where
  "dm_register w f d =
     (case register_recurfile (wd_reg w) (dm_input d) (dm_registry d) f of (r, res) \<Rightarrow> (res, d\<lparr>dm_registry := r\<rparr>))"

definition exec_config_of :: "strct \<Rightarrow> exec_config" where
  "exec_config_of c = \<lparr>ec_shell = deref_str (cfg_ptr c ''DefaultShell''), ec_log_level = deref_str (cfg_ptr c ''LogLevel''),
     ec_plugins = map_option (amap_map (\<lambda>_. ns_map)) (cfg_plugins c)\<rparr>"

section \<open>Saving and loading the state\<close>

definition entity_of_snapshot :: "entity_snapshot \<Rightarrow> entity_state" where
  "entity_of_snapshot s = \<lparr>ej_id = es_id s, ej_status = es_status s, ej_error_count = es_error_count s,
     ej_last_activity = es_last_activity s\<rparr>"

definition snapshot_of_entity :: "entity_state \<Rightarrow> entity_snapshot" where
  "snapshot_of_entity s = \<lparr>es_id = ej_id s, es_status = ej_status s, es_error_count = ej_error_count s,
     es_last_activity = ej_last_activity s\<rparr>"

definition build_state :: "daemon \<Rightarrow> state_file" where
  "build_state d = \<lparr>sj_launch = dm_launch d,
     sj_recurfiles = map (\<lambda>s. \<lparr>rj_id = rs_id s, rj_path = rs_path s, rj_triggers = map entity_of_snapshot (rs_triggers s),
       rj_actions = map entity_of_snapshot (rs_actions s)\<rparr>) (snapshot (dm_registry d))\<rparr>"

definition save_state :: "world \<Rightarrow> daemon \<Rightarrow> string option \<times> daemon" where
  "save_state w d =
     (if dm_state_path d = [] then (None, d)
      else case state_save (wd_marshal w) (wd_os w) (dm_state_path d) (wd_stamp w) (build_state d) (dm_disk d) of
        (err, disk) \<Rightarrow> (err, d\<lparr>dm_disk := disk\<rparr>))"

definition state_map :: "entity_state list \<Rightarrow> (string, entity_snapshot) amap" where
  "state_map es = put_all [] (map (\<lambda>e. (ej_id e, snapshot_of_entity e)) es)"

text \<open>A recurfile that cannot be loaded is skipped with a warning.\<close>

definition load_one :: "world \<Rightarrow> daemon \<Rightarrow> recurfile_state \<Rightarrow> daemon" where
  "load_one w d s =
     (case load_file w (rj_path s) of
        Inl _ \<Rightarrow> d
      | Inr f \<Rightarrow>
          (case dm_register w f d of (res, d1) \<Rightarrow>
             d1\<lparr>dm_registry := restore_entity_states (dm_registry d1) (rr_recurfile_id res)
                (state_map (rj_triggers s)) (state_map (rj_actions s))\<rparr>))"

definition load_state :: "world \<Rightarrow> daemon \<Rightarrow> string option \<times> daemon" where
  "load_state w d =
     (case state_load (wd_unmarshal w) (Inr (map_of (dm_disk d) (path_base (dm_state_path d)))) of
        Inl e \<Rightarrow> (Some e, d)
      | Inr f \<Rightarrow> (None, foldl (load_one w) d (sj_recurfiles f)))"

section \<open>The installed apps\<close>

definition scan_app :: "world \<Rightarrow> string \<Rightarrow> daemon \<Rightarrow> dir_entry \<Rightarrow> daemon" where
  "scan_app w base d e =
     (if \<not> de_is_dir e \<or> has_prefix (de_name e) ''.'' then d
      else
        let dir = path_join base (de_name e) in
        case find_recurfile_in dir (wd_list w dir) of
          Inl _ \<Rightarrow> d
        | Inr path \<Rightarrow>
            if has_recurfile_path (wd_reg w) (dm_registry d) path then d
            else case load_file w path of
              Inl _ \<Rightarrow> d
            | Inr f \<Rightarrow> snd (dm_register w f d))"

definition scan_app_folder :: "world \<Rightarrow> string result \<Rightarrow> daemon \<Rightarrow> daemon" where
  "scan_app_folder w app_dir d =
     (case app_dir of
        Inl _ \<Rightarrow> d
      | Inr base \<Rightarrow> (case wd_list w base of Inl _ \<Rightarrow> d | Inr es \<Rightarrow> foldl (scan_app w base) d es))"

section \<open>The engine of the daemon\<close>

definition dm_factories :: "world \<Rightarrow> daemon \<Rightarrow> (trigger \<Rightarrow> string + ext_driver option) list" where
  "dm_factories w d = (case dm_run d of (socket, timeout, level, ps) \<Rightarrow>
     plugin_factories (xe_exists (wd_exec w)) socket timeout (config_lookup (dm_config d)) level ps)"

text \<open>Activating a trigger; starting its driver registers it with the router.\<close>

definition engine_activate :: "world \<Rightarrow> trigger \<Rightarrow> daemon \<Rightarrow> string option \<times> daemon" where
  "engine_activate w t d =
     (case dm_engine d of
        None \<Rightarrow> (None, d)
      | Some e \<Rightarrow>
          let (err, e1) = activate (dm_factories w d) (wd_start w) t e;
              ro = (if en_stopped e \<or> map_of (en_active e) (tr_id t) \<noteq> None then (\<lambda>r. r)
                    else case pick_driver (dm_factories w d) t of
                      Inl _ \<Rightarrow> (\<lambda>r. r)
                    | Inr dr \<Rightarrow> (case wd_start w dr of
                        Some _ \<Rightarrow> router_deregister (tr_id t)
                      | None \<Rightarrow> (\<lambda>r. snd (driver_channel (tr_id t) r))))
          in (err, d\<lparr>dm_engine := Some e1, dm_router := map_option ro (dm_router d)\<rparr>))"

text \<open>\<open>Deactivate\<close> waits for a running abort action: its worker finishes first.\<close>

definition settle :: "engine \<Rightarrow> engine" where
  "settle e =
     (case en_lock e of
        None \<Rightarrow> e
      | Some wk \<Rightarrow> (case find_worker e wk of None \<Rightarrow> e | Some x \<Rightarrow> finish_worker x e)\<lparr>en_lock := None\<rparr>)"

definition engine_deactivate :: "string \<Rightarrow> daemon \<Rightarrow> daemon" where
  "engine_deactivate tid d =
     (case dm_engine d of
        None \<Rightarrow> d
      | Some e \<Rightarrow>
          if map_of (en_active e) tid = None then d
          else d\<lparr>dm_engine := Some (settle (deactivate tid e)), dm_router := map_option (router_deregister tid) (dm_router d)\<rparr>)"

definition activate_registered :: "world \<Rightarrow> daemon \<Rightarrow> daemon" where
  "activate_registered w d =
     foldl (\<lambda>d t. if tr_status t = st_active then snd (engine_activate w t d) else d) d (list_triggers (dm_registry d))"

section \<open>Callbacks\<close>

definition set_action :: "string \<Rightarrow> (action \<Rightarrow> action) \<Rightarrow> daemon \<Rightarrow> daemon" where
  "set_action aid f d = d\<lparr>dm_registry := (dm_registry d)\<lparr>re_actions :=
     amap_map (\<lambda>k a. if k = aid then f a else a) (re_actions (dm_registry d))\<rparr>\<rparr>"

definition set_trigger :: "string \<Rightarrow> (trigger \<Rightarrow> trigger) \<Rightarrow> daemon \<Rightarrow> daemon" where
  "set_trigger tid f d = d\<lparr>dm_registry := (dm_registry d)\<lparr>re_triggers :=
     amap_map (\<lambda>k t. if k = tid then f t else t) (re_triggers (dm_registry d))\<rparr>\<rparr>"

text \<open>A failure to resolve leaves the context without secrets, and the redactor as it was.\<close>

definition resolve_secrets_into :: "world \<Rightarrow> ex_context \<Rightarrow> string \<Rightarrow> daemon \<Rightarrow> ex_context \<times> daemon" where
  "resolve_secrets_into w c rid d =
     (case secret_defs_for_recurfile (dm_registry d) rid of
        [] \<Rightarrow> (c, d)
      | defs \<Rightarrow>
          (case resolve_all (wd_secrets w) defs of
             Inl _ \<Rightarrow> (c, d)
           | Inr m \<Rightarrow> (c\<lparr>cx_secrets := m\<rparr>,
               d\<lparr>dm_redactor := (case dm_redactor d of None \<Rightarrow> None
                   | Some _ \<Rightarrow> Some (update_secrets (case m of None \<Rightarrow> [] | Some m \<Rightarrow> m)))\<rparr>)))"

definition execute_action :: "world \<Rightarrow> daemon \<Rightarrow> action \<Rightarrow> ex_context \<Rightarrow> exec_result \<times> string list" where
  "execute_action w d a c =
     (case dm_exec d of
        None \<Rightarrow> dispatch_action (wd_exec w) (exec_config_of (dm_config d)) (dm_plugins d) a c
      | Some (cfg, ps) \<Rightarrow> dispatch_action (wd_exec w) (exec_config_of cfg) ps a c)"

text \<open>The executor callback; \<open>aborted a\<close>: the context of the action was cancelled when it returned.\<close>

definition on_action :: "world \<Rightarrow> (action \<Rightarrow> bool) \<Rightarrow> daemon \<Rightarrow> action \<Rightarrow> (string, string) amap \<Rightarrow> daemon" where
  "on_action w aborted d a vars =
     (let (c, d1) = resolve_secrets_into w \<lparr>cx_test = False, cx_set = vars, cx_secrets = None\<rparr> (ac_recurfile_id a) d;
          d2 = set_action (ac_id a) (\<lambda>a. a\<lparr>ac_last_executed := int (wd_now w)\<rparr>) d1;
          (res, _) = execute_action w d2 a c
      in if aborted a then d2
         else if xr_success res then set_action (ac_id a) (\<lambda>a. a\<lparr>ac_error_count := 0\<rparr>) d2
         else
           let n = ac_error_count a + 1;
               d3 = set_action (ac_id a) (\<lambda>a. a\<lparr>ac_error_count := n\<rparr>) d2
           in if 0 < ac_error_threshold a \<and> ac_error_threshold a \<le> n
              then snd (save_state w (set_action (ac_id a) (\<lambda>a. a\<lparr>ac_status := st_error\<rparr>) d3))
              else d3)"

definition on_fired :: "world \<Rightarrow> daemon \<Rightarrow> daemon" where
  "on_fired w d = snd (save_state w d)"

text \<open>An event of a trigger, handled in one step.\<close>

definition fire :: "world \<Rightarrow> (action \<Rightarrow> bool) \<Rightarrow> string \<Rightarrow> event \<Rightarrow> daemon \<Rightarrow> daemon" where
  "fire w aborted tid ev d =
     handle_event (\<lambda>d. get_trigger (dm_registry d)) (\<lambda>d. get_actions_for_trigger (dm_registry d))
       (\<lambda>d tid now. set_trigger tid (\<lambda>t. t\<lparr>tr_last_fired := int now\<rparr>) d) (on_action w aborted) (on_fired w)
       (wd_now w) tid ev d"

text \<open>The driver of a trigger exited: \<open>SetOnTriggerError\<close>.\<close>

definition on_trigger_error :: "world \<Rightarrow> string \<Rightarrow> daemon \<Rightarrow> daemon" where
  "on_trigger_error w tid d =
     (case get_trigger (dm_registry d) tid of
        None \<Rightarrow> d
      | Some t \<Rightarrow>
          let n = tr_error_count t + 1;
              d1 = set_trigger tid (\<lambda>t. t\<lparr>tr_error_count := n\<rparr>) d;
              d2 = (if 0 < tr_error_threshold t \<and> tr_error_threshold t \<le> n
                    then engine_deactivate tid (set_trigger tid (\<lambda>t. t\<lparr>tr_status := st_error\<rparr>) d1)
                    else d1)
          in snd (save_state w d2))"

end
