(* ===== verification/Daemon_Props.thy ===== *)
theory Daemon_Props
  imports Daemon
begin

text \<open>
  Properties of the daemon: its registry stays consistent under the callbacks, what an event does,
  when actions and triggers are disabled, and what survives a restart.
\<close>

section \<open>The callbacks and the registry\<close>

lemma set_action_registry: "dm_registry (set_action i f d) = (dm_registry d)\<lparr>re_actions :=
    amap_map (\<lambda>k a. if k = i then f a else a) (re_actions (dm_registry d))\<rparr>"
  by (simp add: set_action_def)

lemma set_trigger_registry: "dm_registry (set_trigger i f d) = (dm_registry d)\<lparr>re_triggers :=
    amap_map (\<lambda>k t. if k = i then f t else t) (re_triggers (dm_registry d))\<rparr>"
  by (simp add: set_trigger_def)

definition keeps_action :: "(action \<Rightarrow> action) \<Rightarrow> bool" where
  "keeps_action f \<longleftrightarrow> (\<forall>a. ac_id (f a) = ac_id a \<and> ac_group_id (f a) = ac_group_id a \<and>
     ac_trigger_id (f a) = ac_trigger_id a \<and> ac_recurfile_id (f a) = ac_recurfile_id a)"

definition keeps_trigger :: "(trigger \<Rightarrow> trigger) \<Rightarrow> bool" where
  "keeps_trigger f \<longleftrightarrow> (\<forall>t. tr_id (f t) = tr_id t \<and> tr_group_id (f t) = tr_group_id t \<and> tr_recurfile_id (f t) = tr_recurfile_id t)"

lemma set_action_inv:
  assumes "reg_inv (dm_registry d)" "keeps_action f" shows "reg_inv (dm_registry (set_action i f d))"
  using change_inv [OF assms(1), of "\<lambda>k t. t" "\<lambda>k a. if k = i then f a else a"] assms(2)
  by (simp add: set_action_registry keeps_action_def)

lemma set_trigger_inv:
  assumes "reg_inv (dm_registry d)" "keeps_trigger f" shows "reg_inv (dm_registry (set_trigger i f d))"
  using change_inv [OF assms(1), of "\<lambda>k t. if k = i then f t else t" "\<lambda>k a. a"] assms(2)
  by (simp add: set_trigger_registry keeps_trigger_def)

lemma save_state_keeps [simp]:
  "dm_registry (snd (save_state w d)) = dm_registry d" "dm_engine (snd (save_state w d)) = dm_engine d"
  "dm_router (snd (save_state w d)) = dm_router d" "dm_exec (snd (save_state w d)) = dm_exec d"
  "dm_config (snd (save_state w d)) = dm_config d" "dm_plugins (snd (save_state w d)) = dm_plugins d"
  by (simp_all add: save_state_def split_beta)

lemma engine_deactivate_keeps [simp]:
  "dm_registry (engine_deactivate tid d) = dm_registry d" "dm_config (engine_deactivate tid d) = dm_config d"
  "dm_plugins (engine_deactivate tid d) = dm_plugins d" "dm_exec (engine_deactivate tid d) = dm_exec d"
  by (simp_all add: engine_deactivate_def split: option.splits)

lemma resolve_secrets_keeps [simp]:
  "dm_registry (snd (resolve_secrets_into w c rid d)) = dm_registry d"
  "dm_engine (snd (resolve_secrets_into w c rid d)) = dm_engine d" "dm_router (snd (resolve_secrets_into w c rid d)) = dm_router d"
  "dm_exec (snd (resolve_secrets_into w c rid d)) = dm_exec d" "dm_config (snd (resolve_secrets_into w c rid d)) = dm_config d"
  "dm_plugins (snd (resolve_secrets_into w c rid d)) = dm_plugins d"
  by (simp_all add: resolve_secrets_into_def split: list.splits sum.splits)

lemma set_action_keeps [simp]:
  "dm_engine (set_action i f d) = dm_engine d" "dm_router (set_action i f d) = dm_router d" "dm_exec (set_action i f d) = dm_exec d"
  "dm_config (set_action i f d) = dm_config d" "dm_plugins (set_action i f d) = dm_plugins d"
  by (simp_all add: set_action_def)

lemma set_trigger_keeps [simp]:
  "dm_engine (set_trigger i f d) = dm_engine d" "dm_router (set_trigger i f d) = dm_router d"
  by (simp_all add: set_trigger_def)

lemma execute_action_cong:
  "dm_exec d = dm_exec d' \<Longrightarrow> dm_config d = dm_config d' \<Longrightarrow> dm_plugins d = dm_plugins d' \<Longrightarrow>
     execute_action w d a c = execute_action w d' a c"
  by (simp add: execute_action_def split: option.splits)

text \<open>Whether a run of the action succeeds, in the context the daemon gives it.\<close>

definition run_ok :: "world \<Rightarrow> daemon \<Rightarrow> action \<Rightarrow> (string, string) amap \<Rightarrow> bool" where
  "run_ok w d a vars = xr_success (fst (execute_action w d a
     (fst (resolve_secrets_into w \<lparr>cx_test = False, cx_set = vars, cx_secrets = None\<rparr> (ac_recurfile_id a) d))))"

definition after_run :: "world \<Rightarrow> bool \<Rightarrow> bool \<Rightarrow> action \<Rightarrow> action \<Rightarrow> action" where
  "after_run w aborted ok a0 a =
     (let a1 = a\<lparr>ac_last_executed := int (wd_now w)\<rparr>; n = ac_error_count a0 + 1 in
      if aborted then a1
      else if ok then a1\<lparr>ac_error_count := 0\<rparr>
      else if 0 < ac_error_threshold a0 \<and> ac_error_threshold a0 \<le> n then a1\<lparr>ac_error_count := n, ac_status := st_error\<rparr>
      else a1\<lparr>ac_error_count := n\<rparr>)"

lemma amap_map_comp [simp]: "amap_map f (amap_map g m) = amap_map (\<lambda>k v. f k (g k v)) m"
  by (simp add: amap_map_def split_def)

lemma set_action_twice: "set_action i f (set_action i g d) = set_action i (f \<circ> g) d"
proof -
  have "(\<lambda>k v. if k = i then f (if k = i then g v else v) else if k = i then g v else v) = (\<lambda>k v. if k = i then f (g v) else v)"
    by (intro ext) simp
  then show ?thesis by (simp add: set_action_def comp_def)
qed

lemma on_action_registry:
  "dm_registry (on_action w ab d a vars) = dm_registry (set_action (ac_id a) (after_run w (ab a) (run_ok w d a vars) a) d)"
proof -
  let ?c = "\<lparr>cx_test = False, cx_set = vars, cx_secrets = None\<rparr>"
  obtain c d1 where s: "resolve_secrets_into w ?c (ac_recurfile_id a) d = (c, d1)" by fastforce
  have k: "dm_registry d1 = dm_registry d" "dm_exec d1 = dm_exec d" "dm_config d1 = dm_config d" "dm_plugins d1 = dm_plugins d"
    using resolve_secrets_keeps [of w ?c "ac_recurfile_id a" d] s by simp_all
  let ?d2 = "set_action (ac_id a) (\<lambda>a. a\<lparr>ac_last_executed := int (wd_now w)\<rparr>) d1"
  have ok: "run_ok w d a vars = xr_success (fst (execute_action w ?d2 a c))"
    using execute_action_cong [of ?d2 d w a c] k s by (simp add: run_ok_def)
  have r: "dm_registry (set_action i f d1) = dm_registry (set_action i f d)" for i f
    by (simp add: set_action_registry k(1))
  show ?thesis
    unfolding on_action_def s ok
    by (cases "0 < ac_error_threshold a \<and> ac_error_threshold a \<le> ac_error_count a + 1"; cases "ab a")
      (auto simp: Let_def split_beta after_run_def [abs_def] r set_action_twice comp_def)
qed

section \<open>Running actions\<close>

lemma after_run_keeps: "keeps_action (after_run w b ok a)"
  by (simp add: keeps_action_def after_run_def Let_def)

lemma on_action_inv: "reg_inv (dm_registry d) \<Longrightarrow> reg_inv (dm_registry (on_action w ab d a vars))"
  unfolding on_action_registry by (rule set_action_inv [OF _ after_run_keeps])

lemma get_action_after: "get_action (dm_registry (set_action i f d)) j = (if j = i then map_option f (get_action (dm_registry d) j) else get_action (dm_registry d) j)"
  by (cases "map_of (re_actions (dm_registry d)) j") (auto simp: get_action_def set_action_registry)

lemma get_trigger_set_action [simp]: "get_trigger (dm_registry (set_action i f d)) j = get_trigger (dm_registry d) j"
  by (simp add: get_trigger_def set_action_registry)

text \<open>
  what a run of an action changes. It stamps the action; unless the run was aborted, success
  resets its error count and failure increments it, and the failure that reaches a positive
  threshold puts the action into the error state. No other action and no trigger changes.
\<close>

theorem action_run_outcome:
  assumes "get_action (dm_registry d) (ac_id a) = Some a"
  shows "get_action (dm_registry (on_action w ab d a vars)) j =
      (if j \<noteq> ac_id a then get_action (dm_registry d) j
       else Some (a\<lparr>ac_last_executed := int (wd_now w),
         ac_error_count := (if ab a then ac_error_count a else if run_ok w d a vars then 0 else ac_error_count a + 1),
         ac_status := (if \<not> ab a \<and> \<not> run_ok w d a vars \<and> 0 < ac_error_threshold a \<and> ac_error_threshold a \<le> ac_error_count a + 1
                       then st_error else ac_status a)\<rparr>)) \<and>
    get_trigger (dm_registry (on_action w ab d a vars)) tid = get_trigger (dm_registry d) tid"
  using assms unfolding on_action_registry by (simp add: get_action_after after_run_def Let_def)

text \<open>Running an action \<open>n\<close> times, as events do: only while it is active.\<close>

fun run_repeat :: "world \<Rightarrow> (string, string) amap \<Rightarrow> string \<Rightarrow> nat \<Rightarrow> daemon \<Rightarrow> daemon" where
  "run_repeat w vars aid 0 d = d"
| "run_repeat w vars aid (Suc n) d =
     (let d1 = run_repeat w vars aid n d in
      case get_action (dm_registry d1) aid of
        None \<Rightarrow> d1
      | Some a \<Rightarrow> if ac_status a = st_active then on_action w (\<lambda>_. False) d1 a vars else d1)"

text \<open>
  C22: an action that always fails is disabled after exactly as many runs as its threshold, and
  stays so; until then it is active.
\<close>

theorem failing_action_disabled:
  assumes "get_action (dm_registry d) aid = Some a" "ac_id a = aid" "ac_status a = st_active" "ac_error_count a = 0"
    and "ac_error_threshold a = int k" "0 < k"
    and fails: "\<And>d a c. ac_id a = aid \<Longrightarrow> \<not> xr_success (fst (execute_action w d a c))"
  shows "\<exists>b. get_action (dm_registry (run_repeat w vars aid n d)) aid = Some b \<and>
    ac_status b = (if n < k then st_active else st_error) \<and> ac_error_count b = int (min n k)"
proof -
  have "\<exists>b. get_action (dm_registry (run_repeat w vars aid n d)) aid = Some b \<and> ac_id b = aid \<and>
    ac_status b = (if n < k then st_active else st_error) \<and> ac_error_count b = int (min n k) \<and> ac_error_threshold b = int k"
  proof (induction n)
    case 0
    with assms show ?case by simp
  next
    case (Suc n)
    let ?d = "run_repeat w vars aid n d"
    from Suc obtain b where b: "get_action (dm_registry ?d) aid = Some b" "ac_id b = aid"
      "ac_status b = (if n < k then st_active else st_error)" "ac_error_count b = int (min n k)" "ac_error_threshold b = int k" by blast
    have nok: "\<not> run_ok w ?d b vars" unfolding run_ok_def by (rule fails [OF b(2)])
    show ?case
    proof (cases "n < k")
      case True
      with b nok action_run_outcome [of ?d b w "\<lambda>_. False" vars aid] assms(6) show ?thesis
        by (auto simp: Let_def)
    next
      case False
      with b show ?thesis by (simp add: Let_def)
    qed
  qed
  then show ?thesis by blast
qed

section \<open>Events\<close>

interpretation dl: trigger_lookup "\<lambda>d. get_trigger (dm_registry d)" "\<lambda>d. get_actions_for_trigger (dm_registry d)"
    "\<lambda>d. reg_inv (dm_registry d)"
  by unfold_locales (simp_all add: rl.trig_id rl.acts_of rl.acts_none)

lemma fired_inv: "reg_inv (dm_registry d) \<Longrightarrow> reg_inv (dm_registry (set_trigger tid (\<lambda>t. t\<lparr>tr_last_fired := n\<rparr>) d))"
  by (rule set_trigger_inv) (simp_all add: keeps_trigger_def)

lemma on_actions_inv:
  "reg_inv (dm_registry d) \<Longrightarrow> reg_inv (dm_registry (foldl (\<lambda>d a. on_action w ab d a vars) d as))"
  by (induction "as" arbitrary: d) (simp_all add: on_action_inv)



section \<open>Restarting\<close>

lemma put_all_unique:
  assumes "(k, v) \<in> set kvs" "\<And>v'. (k, v') \<in> set kvs \<Longrightarrow> v' = v"
  shows "map_of (put_all m kvs) k = Some v"
proof -
  from assms(1) weak_map_of_SomeI [of k v "rev kvs"] obtain v' where v': "map_of (rev kvs) k = Some v'" by auto
  then have "(k, v') \<in> set kvs" by (auto dest: map_of_SomeD)
  with assms(2) v' show ?thesis by (simp add: put_all_lookup)
qed

lemma snapshot_triggers:
  assumes inv: "reg_inv r" and s: "s \<in> set (snapshot r)"
  shows "es \<in> set (rs_triggers s) \<longleftrightarrow> (\<exists>t. get_trigger r (tr_id t) = Some t \<and> tr_recurfile_id t = rs_id s \<and> es = snap_trigger t)"
proof -
  note links = reg_invD(2) [OF inv]
  from s obtain rc where rc: "rc \<in> set (amap_vals (re_recurfiles r))" and s': "rs_id s = rc_id rc"
    "rs_triggers s = map snap_trigger (concat (map (\<lambda>g. List.map_filter (map_of (re_triggers r)) (gp_trigger_ids g))
      (List.map_filter (map_of (re_groups r)) (rc_groups rc))))"
    by (auto simp: snapshot_def Let_def)
  then obtain k where "(k, rc) \<in> set (re_recurfiles r)" by (auto simp: amap_vals_def)
  then have k: "map_of (re_recurfiles r) k = Some rc" using amap_in_iff [OF reg_invD(4) [OF inv]] by blast
  then have k': "map_of (re_recurfiles r) (rc_id rc) = Some rc" using links_recurfile(1) [OF links k] by simp
  have "t \<in> set (concat (map (\<lambda>g. List.map_filter (map_of (re_triggers r)) (gp_trigger_ids g))
      (List.map_filter (map_of (re_groups r)) (rc_groups rc)))) \<longleftrightarrow> get_trigger r (tr_id t) = Some t \<and> tr_recurfile_id t = rc_id rc" for t
  proof
    assume "t \<in> set (concat (map (\<lambda>g. List.map_filter (map_of (re_triggers r)) (gp_trigger_ids g))
      (List.map_filter (map_of (re_groups r)) (rc_groups rc))))"
    then obtain gid g tid where g: "gid \<in> set (rc_groups rc)" "map_of (re_groups r) gid = Some g"
      "tid \<in> set (gp_trigger_ids g)" "map_of (re_triggers r) tid = Some t"
      by (auto simp: in_map_filter)
    have "gp_recurfile_id g = rc_id rc" using links_recurfile(3) [OF links k' g(1)] g(2) by auto
    moreover have "tr_group_id t = gid" using links_group(3) [OF links g(2,3)] g(4) by auto
    ultimately show "get_trigger r (tr_id t) = Some t \<and> tr_recurfile_id t = rc_id rc"
      using links_trigger [OF links g(4)] g(2,4) by (auto simp: get_trigger_def)
  next
    assume t: "get_trigger r (tr_id t) = Some t \<and> tr_recurfile_id t = rc_id rc"
    then have "map_of (re_triggers r) (tr_id t) = Some t" by (simp add: get_trigger_def)
    from links_trigger(2) [OF links this] t obtain g where g: "map_of (re_groups r) (tr_group_id t) = Some g"
      "tr_id t \<in> set (gp_trigger_ids g)" "gp_recurfile_id g = rc_id rc" by auto
    from links_group(2) [OF links g(1)] g(3) k' have "tr_group_id t \<in> set (rc_groups rc)" by auto
    with g t show "t \<in> set (concat (map (\<lambda>g. List.map_filter (map_of (re_triggers r)) (gp_trigger_ids g))
      (List.map_filter (map_of (re_groups r)) (rc_groups rc))))"
      by (force simp: in_map_filter get_trigger_def)
  qed
  then show ?thesis by (auto simp: s')
qed

lemma state_map_trigger:
  assumes inv: "reg_inv (dm_registry d)" and t: "get_trigger (dm_registry d) tid = Some t"
    and s: "s \<in> set (sj_recurfiles (build_state d))" "rj_id s = tr_recurfile_id t"
  shows "map_of (state_map (rj_triggers s)) tid = Some (snap_trigger t)"
proof -
  from s obtain sn where sn: "sn \<in> set (snapshot (dm_registry d))" "rs_id sn = tr_recurfile_id t"
    "rj_triggers s = map entity_of_snapshot (rs_triggers sn)"
    by (auto simp: build_state_def)
  from rl.trig_id [OF inv t] have id: "tr_id t = tid" .
  have conv: "snapshot_of_entity (entity_of_snapshot es) = es" "ej_id (entity_of_snapshot es) = es_id es" for es
    by (simp_all add: snapshot_of_entity_def entity_of_snapshot_def)
  have pairs: "(k, v) \<in> set (map (\<lambda>e. (ej_id e, snapshot_of_entity e)) (rj_triggers s)) \<longleftrightarrow> k = es_id v \<and> v \<in> set (rs_triggers sn)" for k v
    by (auto simp: sn(3) conv)
  have "snap_trigger t \<in> set (rs_triggers sn)"
    unfolding snapshot_triggers [OF inv sn(1)] using t id sn(2) by auto
  then have "(tid, snap_trigger t) \<in> set (map (\<lambda>e. (ej_id e, snapshot_of_entity e)) (rj_triggers s))"
    unfolding pairs by (simp add: snap_trigger_def id)
  moreover have "v = snap_trigger t" if "(tid, v) \<in> set (map (\<lambda>e. (ej_id e, snapshot_of_entity e)) (rj_triggers s))" for v
  proof -
    from that have v: "tid = es_id v" "v \<in> set (rs_triggers sn)" unfolding pairs by auto
    from v(2) obtain t' where t': "get_trigger (dm_registry d) (tr_id t') = Some t'" "v = snap_trigger t'"
      unfolding snapshot_triggers [OF inv sn(1)] by blast
    with v(1) t show ?thesis by (simp add: snap_trigger_def)
  qed
  ultimately show ?thesis unfolding state_map_def by (rule put_all_unique)
qed

lemma parse_format_activity:
  assumes "0 \<le> n" "int (nat n div 86400) < days_before_year 10000"
  shows "parse_activity (format_activity n) old = (if n = 0 then old else n)"
proof -
  have "rfc3339_format (nat n) \<noteq> []" by (simp add: rfc3339_format_def Let_def split_beta)
  with assms rfc3339_roundtrip [OF assms(2)] show ?thesis
    by (simp add: parse_activity_def format_activity_def)
qed


section \<open>Sample daemons\<close>

definition sample_world :: "int \<Rightarrow> world" where
  "sample_world code = \<lparr>wd_reg = sample_env, wd_read = (\<lambda>_. Inr []),
     wd_yaml = (\<lambda>_. Inr (YDoc [YMapping [YScalar [] ''g'', YMapping [YScalar [] ''on'', YSeq [YMapping [YScalar [] ''type'', YScalar [] ''t'',
       YScalar [] ''do'', YSeq [YMapping [YScalar [] ''type'', YScalar [] ''a'']]]]]]])),
     wd_decode = (\<lambda>_. Inr None), wd_list = (\<lambda>_. Inl ''no directory''), wd_manifest = (\<lambda>_. Inl ''no manifest''), wd_os = os_fine,
     wd_now = 5, wd_stamp = ''1'', wd_marshal = (\<lambda>_. Inr []), wd_unmarshal = (\<lambda>_. Inr empty_state),
     wd_config_yaml = (\<lambda>_. Inr []), wd_secrets = sample_secret_env,
     wd_exec = mail_env\<lparr>xe_run := (\<lambda>_. \<lparr>pu_outcome = Exited code, pu_stdout = [], pu_stderr = [], pu_duration = 0\<rparr>)\<rparr>,
     wd_start = (\<lambda>_. None)\<rparr>"

definition sample_daemon :: daemon where "sample_daemon = new_daemon sample_store"

lemma sample_load: "load_file (sample_world n) ''/r.yaml'' = Inr sample_rf"
  by (simp add: load_file_def load_recurfile_def sample_world_def parse_recurfile_def parse_node_def parse_entry_def empty_file_def
      parse_group_def raw_map_def parse_triggers_def parse_trigger_def parse_options_def parse_do_def parse_actions_def parse_action_def
      parse_detailed_action_def parse_items_def opt_value_def type_errs_def unknown_keys_def
      amap_keys_def amap_has_def List.map_filter_def sample_rf_def)

lemma sample_fails: "n \<noteq> 0 \<Longrightarrow> \<not> xr_success (fst (execute_action (sample_world n) d a c))"
  by (auto simp: execute_action_def dispatch_action_def plugin_execute_def shell_execute_def execute_def fail_result_def run_result_def
      sample_world_def mail_env_def Let_def split: option.splits prod.splits sum.splits)

lemma dm_registry_sample: "dm_registry sample_daemon = new_registry" "dm_plugins sample_daemon = []"
  by (simp_all add: sample_daemon_def new_daemon_def split_beta)

text \<open>The sample recurfile under any input without plugins.\<close>

lemma puts_any:
  "ri_plugins inp = [] \<Longrightarrow> \<exists>t a g. file_puts (the_plan sample_env inp sample_rf) = [PutT t, PutA a, PutG g] \<and>
     tr_id t = ''322a174e96db'' \<and> tr_status t = st_active \<and> tr_recurfile_id t = ''45df806c8715'' \<and> tr_last_fired t = 0 \<and>
     ac_id a = ''807e66392855'' \<and> gp_id g = ''ae5829e5c872''"
  unfolding the_plan_def sample_wid' sample_path
  by (simp add: sample_rf_def resolve_def resolve_group_def resolve_trigger_def Let_def expand_alias_def
     file_plan_def plan_group_def plan_trigger_def plan_actions_def make_trigger_def make_action_def file_puts_def
     group_puts_def trigger_puts_def occ_def sample_ids merge_aliases_def put_all_def str_contains_def)

lemma fresh_any: "ri_plugins inp = [] \<Longrightarrow> ids_fresh sample_env inp new_registry sample_rf"
  using puts_any [of inp]
  by (auto simp: ids_fresh_def new_ids_def sample_wid' base_registry_def old_recurfile_def new_registry_def amap_vals_def ix_refs_def
      new_entity_index_def live_ix_def)

lemma register_result_id: "rr_recurfile_id (snd (register_recurfile env inp r f)) = file_wid env f"
  by (simp add: register_recurfile_def register_resolved_def file_wid_def file_path_def Let_def split_beta)

lemma sample_registered:
  assumes "ri_plugins inp = []"
  obtains t where "get_trigger (fst (register_recurfile sample_env inp new_registry sample_rf)) ''322a174e96db'' = Some t"
    "tr_id t = ''322a174e96db''" "tr_status t = st_active" "tr_recurfile_id t = ''45df806c8715''" "tr_last_fired t = 0"
proof -
  let ?b = "base_registry sample_env new_registry (file_path sample_env sample_rf)"
  have ix: "reg_index_ok ?b" by (rule reg_invD(3) [OF base_registry_inv [OF new_registry_inv]])
  have "new_ids ?b (rc_id (the_recurfile sample_env inp sample_rf)) (file_puts (the_plan sample_env inp sample_rf))"
    using fresh_any [OF assms] by (simp add: ids_fresh_def the_recurfile_def)
  note L = put_file_lookup(3) [OF ix this, folded register_put]
  from puts_any [OF assms] obtain t a g where p: "file_puts (the_plan sample_env inp sample_rf) = [PutT t, PutA a, PutG g]"
    and t: "tr_id t = ''322a174e96db''" "tr_status t = st_active" "tr_recurfile_id t = ''45df806c8715''" "tr_last_fired t = 0" by blast
  from L [of "''322a174e96db''" t] p t(1) have "get_trigger (fst (register_recurfile sample_env inp new_registry sample_rf)) ''322a174e96db'' = Some t"
    by (simp add: get_trigger_def)
  from that [OF this t] show thesis .
qed

theorem action_run_outcome_witness:
  "map_option ac_error_count (get_action (dm_registry (on_action (sample_world 1) (\<lambda>_. False)
     (sample_daemon\<lparr>dm_registry := new_registry\<lparr>re_actions := [(''a'', mail_action [])]\<rparr>\<rparr>) (mail_action []) [])) ''a'') = Some 1"
proof -
  let ?d = "sample_daemon\<lparr>dm_registry := new_registry\<lparr>re_actions := [(''a'', mail_action [])]\<rparr>\<rparr>"
  have "\<not> run_ok (sample_world 1) ?d (mail_action []) []" by (simp add: run_ok_def sample_fails)
  with action_run_outcome [of ?d "mail_action []" "sample_world 1" "\<lambda>_. False" "[]" "''a''"] show ?thesis
    by (simp add: get_action_def mail_action_def)
qed

theorem failing_action_disabled_witness:
  "\<exists>b. get_action (dm_registry (run_repeat (sample_world 1) [] ''a'' 7
      (sample_daemon\<lparr>dm_registry := new_registry\<lparr>re_actions := [(''a'', (mail_action [])\<lparr>ac_error_threshold := 2\<rparr>)]\<rparr>\<rparr>))) ''a'' = Some b \<and>
    ac_status b = st_error \<and> ac_error_count b = 2"
  using failing_action_disabled [of "sample_daemon\<lparr>dm_registry := new_registry\<lparr>re_actions := [(''a'', (mail_action [])\<lparr>ac_error_threshold := 2\<rparr>)]\<rparr>\<rparr>"
      "''a''" "(mail_action [])\<lparr>ac_error_threshold := 2\<rparr>" 2 "sample_world 1" "[]" 7]
  by (simp add: get_action_def mail_action_def sample_fails)



definition suspended_daemon :: daemon where
  "suspended_daemon = set_trigger ''322a174e96db'' (\<lambda>t. t\<lparr>tr_status := st_suspended\<rparr>) (snd (dm_register (sample_world 0) sample_rf sample_daemon))"


section \<open>Configuration\<close>

lemma effective_defined:
  assumes "hydrated s" "fld \<in> {''DefaultShell'', ''ErrorThreshold'', ''ConcurrencyMode'', ''MaxQueueSize'', ''Debounce'',
    ''ShutdownTimeout'', ''LogLevel'', ''SocketAddress''}"
  shows "cfg_ptr (fst (st_get s)) fld \<noteq> None"
proof -
  from assms(2) have "(\<exists>t. map_of config_zero fld = Some (FPtr t None) \<and> (t = ''string'' \<or> t = ''int'') \<and>
      (\<exists>x. map_of default_config fld = Some (FPtr t (Some x))))"
    by (elim insertE emptyE) (simp_all add: config_zero_def default_config_def)
  with hydrated_field_eff [OF assms(1)] show ?thesis by (fastforce simp: cfg_ptr_def)
qed

lemma config_lookup_stripped: "config_lookup c ns = Some m \<Longrightarrow> map_of m overrides_key = None"
  by (auto simp: config_lookup_def map_of_eq_None_iff split: option.splits)

definition cron_config :: strct where
  "cron_config = with_plugins (Some [(''core.mail'', VMap [(''trigger_defaults'', VMap [(''debounce'', VStr ''1s'')])])]) config_zero"

text \<open>Unlike the drivers, the executor hands the \<open>trigger_defaults\<close> of a namespace to the plugin.\<close>

lemma executor_keeps_overrides:
  "config_lookup cron_config ''core.mail'' = Some []"
  "map_of (the (ec_plugins (exec_config_of cron_config))) ''core.mail'' = Some [(''trigger_defaults'', VMap [(''debounce'', VStr ''1s'')])]"
  by (simp_all add: config_lookup_def exec_config_of_def cron_config_def cfg_plugins_def with_plugins_def config_zero_def overrides_key_def
      ns_map_def)

end
