(* ===== verification/Service.thy ===== *)
theory Service
  imports Daemon_Props
begin

text \<open>
  \<open>daemon/api.go\<close>, the service that \<open>recur\<close> calls, with the conversions of
  \<open>grpc/server/convert.go\<close>. A handler takes the request and the daemon and gives a response or a
  status, and the daemon after it; messages are records, the transport is left out.
\<close>

section \<open>Responses\<close>

datatype rpc_code = Not_Found | Invalid_Argument | Internal_Error | Already_Exists

record candidate =
  cn_type :: string
  cn_id :: string
  cn_name :: string
  cn_group :: string
  cn_recurfile :: string

text \<open>A status: its code, its message and the candidates of an ambiguous identifier.\<close>

record rpc_status =
  st_code :: rpc_code
  st_message :: string
  st_candidates :: "candidate list"

type_synonym 'a rpc = "rpc_status + 'a"

definition rpc_fail :: "rpc_code \<Rightarrow> string \<Rightarrow> 'a rpc" where
  "rpc_fail c m = Inl \<lparr>st_code = c, st_message = m, st_candidates = []\<rparr>"

datatype estatus = Status_Unspecified | Status_Active | Status_Suspended | Status_Error

definition status_to_proto :: "string \<Rightarrow> estatus" where
  "status_to_proto s =
     (if s = ''active'' then Status_Active else if s = ''suspended'' then Status_Suspended
      else if s = ''error'' then Status_Error else Status_Unspecified)"

definition display_name :: "string \<Rightarrow> string \<Rightarrow> string" where
  "display_name name ty = (if name \<noteq> [] then name else ty)"

text \<open>\<open>TriggerSummary\<close> and \<open>ActionSummary\<close> have the same fields; \<open>em_last\<close> is the time stamp, if set.\<close>

record entity_summary =
  em_id :: string
  em_name :: string
  em_group :: string
  em_plugin :: string
  em_status :: estatus
  em_recurfile :: string
  em_last :: "int option"

definition stamp :: "int \<Rightarrow> int option" where "stamp t = (if t = 0 then None else Some t)"

definition trigger_summary :: "trigger \<Rightarrow> entity_summary" where
  "trigger_summary t = \<lparr>em_id = tr_id t, em_name = display_name (tr_name t) (tr_type t), em_group = tr_group_name t,
     em_plugin = tr_plugin_id t, em_status = status_to_proto (tr_status t), em_recurfile = tr_recurfile_path t,
     em_last = stamp (tr_last_fired t)\<rparr>"

definition action_summary :: "action \<Rightarrow> entity_summary" where
  "action_summary a = \<lparr>em_id = ac_id a, em_name = display_name (ac_name a) (ac_type a), em_group = ac_group_name a,
     em_plugin = ac_plugin_id a, em_status = status_to_proto (ac_status a), em_recurfile = ac_recurfile_path a,
     em_last = stamp (ac_last_executed a)\<rparr>"

record group_summary =
  gs_id :: string
  gs_name :: string
  gs_triggers :: int
  gs_actions :: int

definition group_summary_of :: "grp \<Rightarrow> group_summary" where
  "group_summary_of g = \<lparr>gs_id = gp_id g, gs_name = gp_name g, gs_triggers = int32 (int (length (gp_trigger_ids g))),
     gs_actions = int32 (int (length (gp_action_ids g)))\<rparr>"

record plugin_summary =
  ps_id :: string
  ps_name :: string
  ps_namespace :: string
  ps_version :: string
  ps_triggers :: int
  ps_actions :: int

definition plugin_to_summary :: "installed_plugin \<Rightarrow> plugin_summary" where
  "plugin_to_summary p = (let m = ip_manifest p in
     \<lparr>ps_id = ip_id p, ps_name = mf_name m, ps_namespace = mf_namespace m, ps_version = mf_version m,
      ps_triggers = int32 (int (length (mf_triggers m))), ps_actions = int32 (int (length (mf_actions m)))\<rparr>)"

record plugin_detail =
  pd_id :: string
  pd_name :: string
  pd_namespace :: string
  pd_version :: string
  pd_description :: string
  pd_dependencies :: "string list"
  pd_config :: "(string \<times> string \<times> string \<times> string) list"
  pd_triggers :: "entity_summary list"
  pd_actions :: "entity_summary list"

definition plugin_entity :: "manifest \<Rightarrow> string \<Rightarrow> entity_summary" where
  "plugin_entity m name = \<lparr>em_id = mf_namespace m @ ''.'' @ name, em_name = name, em_group = [], em_plugin = mf_namespace m,
     em_status = Status_Active, em_recurfile = [], em_last = None\<rparr>"

definition plugin_to_detail :: "fmt_env \<Rightarrow> installed_plugin \<Rightarrow> plugin_detail" where
  "plugin_to_detail fe p = (let m = ip_manifest p in
     \<lparr>pd_id = ip_id p, pd_name = mf_name m, pd_namespace = mf_namespace m, pd_version = mf_version m,
      pd_description = mf_description m, pd_dependencies = mf_dependencies m,
      pd_config = map (\<lambda>c. (ce_key c, ce_type c, fmt_v fe (ce_default c), ce_description c)) (mf_configuration m),
      pd_triggers = map (\<lambda>t. plugin_entity m (td_name t)) (mf_triggers m),
      pd_actions = map (\<lambda>a. plugin_entity m (ad_name a)) (mf_actions m)\<rparr>)"

record test_result =
  te_action_id :: string
  te_action_type :: string
  te_success :: bool
  te_exit :: int
  te_output :: string
  te_error :: string
  te_duration :: string

definition result_to_proto :: "exec_result \<Rightarrow> test_result" where
  "result_to_proto r = \<lparr>te_action_id = xr_action_id r, te_action_type = xr_action_type r, te_success = xr_success r,
     te_exit = int32 (xr_exit r), te_output = xr_output r, te_error = xr_error r, te_duration = xr_duration r\<rparr>"

section \<open>Status and configuration\<close>

record daemon_status =
  ds_active_triggers :: int
  ds_suspended_triggers :: int
  ds_active_actions :: int
  ds_suspended_actions :: int
  ds_plugins :: int
  ds_recurfiles :: int
  ds_launch :: "launch_args option"

definition count_status :: "('a \<Rightarrow> string) \<Rightarrow> string \<Rightarrow> 'a list \<Rightarrow> int" where
  "count_status f s xs = foldl (\<lambda>n x. if f x = s then int32 (n + 1) else n) 0 xs"

text \<open>The process identifier, the uptime and the version, which the response also has, are left out.\<close>

definition rpc_get_status :: "daemon \<Rightarrow> daemon_status" where
  "rpc_get_status d = (let r = dm_registry d in
     \<lparr>ds_active_triggers = count_status tr_status ''active'' (list_triggers r),
      ds_suspended_triggers = count_status tr_status ''suspended'' (list_triggers r),
      ds_active_actions = count_status ac_status ''active'' (list_actions r),
      ds_suspended_actions = count_status ac_status ''suspended'' (list_actions r),
      ds_plugins = int32 (int (length (dm_plugins d))), ds_recurfiles = int32 (int (length (list_recurfiles r))),
      ds_launch = dm_launch d\<rparr>)"

definition format_config_value :: "fmt_env \<Rightarrow> fval \<Rightarrow> string" where
  "format_config_value fe v =
     (case v of
        FScalar _ x \<Rightarrow> if x = VNil then [] else fmt_v fe x
      | FPtr _ x \<Rightarrow> (case x of None \<Rightarrow> [] | Some y \<Rightarrow> fmt_v fe y)
      | FMap _ m \<Rightarrow> fmt_v fe (VMap (case m of None \<Rightarrow> [] | Some m \<Rightarrow> m))
      | FSlice _ xs \<Rightarrow> fmt_v fe (VList (case xs of None \<Rightarrow> [] | Some xs \<Rightarrow> xs))
      | FStruct _ _ \<Rightarrow> [])"

definition rpc_get_config :: "fmt_env \<Rightarrow> string \<Rightarrow> daemon \<Rightarrow> (string \<times> string) list rpc \<times> daemon" where
  "rpc_get_config fe key d =
     (if key = [] then
        (case all_keys (dm_store d) of (kvs, s) \<Rightarrow> (Inr (map (\<lambda>(k, v). (k, fmt_v fe v)) kvs), d\<lparr>dm_store := s\<rparr>))
      else
        (case get_by_key (dm_store d) key of
           (Inl e, s) \<Rightarrow> (rpc_fail Not_Found e, d\<lparr>dm_store := s\<rparr>)
         | (Inr v, s) \<Rightarrow> (Inr [(key, format_config_value fe v)], d\<lparr>dm_store := s\<rparr>)))"

definition config_save :: "world \<Rightarrow> strct \<Rightarrow> daemon \<Rightarrow> string option \<times> daemon" where
  "config_save w c d =
     (case wd_config_yaml w c of
        Inl e \<Rightarrow> (Some (''could not marshal config: '' @ e), d)
      | Inr data \<Rightarrow>
          (case af_write (wd_os w) (dm_config_path d) (wd_stamp w) data (dm_config_disk d) of
             (err, disk) \<Rightarrow> (err, d\<lparr>dm_config_disk := disk\<rparr>)))"

text \<open>What \<open>SetConfig\<close> and \<open>DeleteConfig\<close> do once the store has changed.\<close>

definition apply_config :: "world \<Rightarrow> daemon \<Rightarrow> unit rpc \<times> daemon" where
  "apply_config w d =
     (case st_get (dm_store d) of
        (eff, s) \<Rightarrow>
          let d1 = d\<lparr>dm_store := s, dm_config := eff\<rparr> in
          if dm_config_path d = [] then (Inr (), d1)
          else case config_save w (case st_get_layer s ''file'' of None \<Rightarrow> config_zero | Some l \<Rightarrow> l) d1 of
            (Some e, d2) \<Rightarrow> (rpc_fail Internal_Error (''could not save config: '' @ e), d2)
          | (None, d2) \<Rightarrow> (Inr (), d2))"

definition rpc_set_config :: "world \<Rightarrow> string \<Rightarrow> string \<Rightarrow> daemon \<Rightarrow> unit rpc \<times> daemon" where
  "rpc_set_config w key val d =
     (if key = [] then (rpc_fail Invalid_Argument ''key is required'', d)
      else case set_by_key (dm_store d) ''file'' key val of
        (Some e, s) \<Rightarrow> (rpc_fail Invalid_Argument e, d\<lparr>dm_store := s\<rparr>)
      | (None, s) \<Rightarrow> apply_config w (d\<lparr>dm_store := s\<rparr>))"

definition rpc_delete_config :: "world \<Rightarrow> string \<Rightarrow> daemon \<Rightarrow> unit rpc \<times> daemon" where
  "rpc_delete_config w key d =
     (if key = [] then (rpc_fail Invalid_Argument ''key is required'', d)
      else case delete_by_key (dm_store d) ''file'' key of
        (Some e, s) \<Rightarrow> (rpc_fail Invalid_Argument e, d\<lparr>dm_store := s\<rparr>)
      | (None, s) \<Rightarrow> apply_config w (d\<lparr>dm_store := s\<rparr>))"

section \<open>Recurfiles\<close>

record verify_result =
  vr_valid :: bool
  vr_errors :: "string list"
  vr_warnings :: "string list"
  vr_triggers :: int
  vr_actions :: int

text \<open>The body of the inner loop of \<open>VerifyRecurfile\<close>: the warnings and the number of actions so far.\<close>

definition verify_trigger :: "raw_group \<Rightarrow> string list \<times> int \<Rightarrow> raw_trigger \<Rightarrow> string list \<times> int" where
  "verify_trigger g st t =
     (case st of (ws, n) \<Rightarrow>
        if rt_actions t \<noteq> [] then (ws, int32 (n + int32 (int (length (rt_actions t)))))
        else if rg_actions g \<noteq> [] then (ws, int32 (n + int32 (int (length (rg_actions g)))))
        else (ws @ [''group '' @ go_quote (rg_name g) @ '', trigger '' @ go_quote (rt_type t) @ '': no actions defined''], n))"

definition rpc_verify_recurfile :: "world \<Rightarrow> string \<Rightarrow> verify_result rpc" where
  "rpc_verify_recurfile w path =
     (if path = [] then rpc_fail Invalid_Argument ''path is required''
      else case load_file w path of
        Inl e \<Rightarrow> Inr \<lparr>vr_valid = False, vr_errors = [e], vr_warnings = [], vr_triggers = 0, vr_actions = 0\<rparr>
      | Inr f \<Rightarrow>
          (case foldl (\<lambda>(tn, st) g. (int32 (tn + int32 (int (length (rg_triggers g)))), foldl (verify_trigger g) st (rg_triggers g)))
                  (0, [], 0) (rf_groups f) of
             (tn, ws, an) \<Rightarrow> Inr \<lparr>vr_valid = True, vr_errors = [], vr_warnings = ws, vr_triggers = tn, vr_actions = an\<rparr>))"

definition persist_state :: "world \<Rightarrow> daemon \<Rightarrow> daemon" where
  "persist_state w d = snd (save_state w d)"

text \<open>Activating the triggers of a recurfile; an error becomes a warning.\<close>

definition activate_one :: "world \<Rightarrow> string \<Rightarrow> daemon \<times> string list \<Rightarrow> trigger \<Rightarrow> daemon \<times> string list" where
  "activate_one w rid st t =
     (case st of (d, ws) \<Rightarrow>
        if tr_recurfile_id t = rid \<and> tr_status t = st_active
        then case engine_activate w t d of
            (Some e, d1) \<Rightarrow> (d1, ws @ [''trigger '' @ take 8 (tr_id t) @ '' activation: '' @ e])
          | (None, d1) \<Rightarrow> (d1, ws)
        else (d, ws))"

record register_response =
  rg_id :: string
  rg_path :: string
  rg_trigger_count :: int
  rg_action_count :: int
  rg_warnings :: "string list"
  rg_reloaded :: bool

definition rpc_register_recurfile :: "world \<Rightarrow> string \<Rightarrow> daemon \<Rightarrow> register_response rpc \<times> daemon" where
  "rpc_register_recurfile w path d =
     (if path = [] then (rpc_fail Invalid_Argument ''path is required'', d)
      else case load_file w path of
        Inl e \<Rightarrow> (rpc_fail Invalid_Argument e, d)
      | Inr f \<Rightarrow>
          (case dm_register w f d of (res, d1) \<Rightarrow>
             let d2 = (if rr_reloaded res then foldl (\<lambda>d tid. engine_deactivate tid d) d1 (rr_old_trigger_ids res) else d1);
                 (d3, ws) = foldl (activate_one w (rr_recurfile_id res)) (d2, rr_warnings res) (list_triggers (dm_registry d2))
             in (Inr \<lparr>rg_id = rr_recurfile_id res, rg_path = path, rg_trigger_count = int32 (int (rr_trigger_count res)),
                      rg_action_count = int32 (int (rr_action_count res)), rg_warnings = ws, rg_reloaded = rr_reloaded res\<rparr>,
                 persist_state w d3)))"

text \<open>The response: the identifier, the path and the numbers of triggers and actions removed.\<close>

definition rpc_deregister_recurfile :: "world \<Rightarrow> string \<Rightarrow> daemon \<Rightarrow> (string \<times> string \<times> int \<times> int) rpc \<times> daemon" where
  "rpc_deregister_recurfile w ident d =
     (if ident = [] then (rpc_fail Invalid_Argument ''identifier is required'', d)
      else
        let d1 = foldl (\<lambda>d tid. engine_deactivate tid d) d (trigger_ids_for_recurfile (dm_registry d) ident) in
        case deregister_recurfile (dm_registry d1) ident of
          (Inl e, _) \<Rightarrow> (rpc_fail Not_Found e, d1)
        | (Inr (rc, tn, an), r) \<Rightarrow>
            (Inr (rc_id rc, rc_path rc, int32 (int tn), int32 (int an)), persist_state w (d1\<lparr>dm_registry := r\<rparr>)))"

section \<open>Listing\<close>

definition rpc_list_plugins :: "daemon \<Rightarrow> plugin_summary list" where
  "rpc_list_plugins d = map plugin_to_summary (dm_plugins d)"

definition rpc_list_triggers :: "daemon \<Rightarrow> entity_summary list" where
  "rpc_list_triggers d = map trigger_summary (list_triggers (dm_registry d))"

definition rpc_list_actions :: "daemon \<Rightarrow> entity_summary list" where
  "rpc_list_actions d = map action_summary (list_actions (dm_registry d))"

definition rpc_list_groups :: "daemon \<Rightarrow> group_summary list" where
  "rpc_list_groups d = map group_summary_of (list_groups (dm_registry d))"

record recurfile_summary =
  rm_id :: string
  rm_path :: string
  rm_groups :: int
  rm_triggers :: int
  rm_actions :: int

definition rpc_list_recurfiles :: "daemon \<Rightarrow> recurfile_summary list" where
  "rpc_list_recurfiles d = map (\<lambda>rc. case get_recurfile_counts (dm_registry d) (rc_id rc) of (tn, an) \<Rightarrow>
     \<lparr>rm_id = rc_id rc, rm_path = rc_path rc, rm_groups = int32 (int (length (rc_groups rc))),
      rm_triggers = int32 (int tn), rm_actions = int32 (int an)\<rparr>) (list_recurfiles (dm_registry d))"

section \<open>Inspecting\<close>

definition sensitive_names :: "option_def list \<Rightarrow> string list" where
  "sensitive_names os = map od_name (filter od_sensitive os)"

definition sensitive_option_names :: "installed_plugin list \<Rightarrow> string \<Rightarrow> string \<Rightarrow> string list" where
  "sensitive_option_names ps pid ty =
     (if pid = [] then []
      else case find_by_identifier ps pid of
        None \<Rightarrow> []
      | Some p \<Rightarrow>
          (case find (\<lambda>t. td_name t = ty) (mf_triggers (ip_manifest p)) of
             Some t \<Rightarrow> sensitive_names (td_options t)
           | None \<Rightarrow>
               (case find (\<lambda>a. ad_name a = ty) (mf_actions (ip_manifest p)) of
                  Some a \<Rightarrow> sensitive_names (ad_options a)
                | None \<Rightarrow> [])))"

definition opt_pairs :: "gmap option \<Rightarrow> gmap" where
  "opt_pairs m = (case m of None \<Rightarrow> [] | Some m \<Rightarrow> m)"

text \<open>The options as they are shown: \<open>***\<close> for a sensitive one.\<close>

definition option_values :: "fmt_env \<Rightarrow> string list \<Rightarrow> gmap option \<Rightarrow> (string \<times> string) list" where
  "option_values fe hidden m = map (\<lambda>(k, v). (k, if k \<in> set hidden then ''***'' else fmt_v fe v)) (opt_pairs m)"

record trigger_detail =
  tl_summary :: entity_summary
  tl_options :: "(string \<times> string) list"
  tl_context :: "(string \<times> string \<times> string) list"
  tl_action_ids :: "string list"
  tl_errors :: int

record action_detail =
  al_summary :: entity_summary
  al_options :: "(string \<times> string) list"
  al_trigger :: string
  al_errors :: int

definition context_vars :: "installed_plugin list \<Rightarrow> trigger \<Rightarrow> (string \<times> string \<times> string) list" where
  "context_vars ps t =
     (if tr_plugin_id t = [] then []
      else case find_by_identifier ps (tr_plugin_id t) of
        None \<Rightarrow> []
      | Some p \<Rightarrow>
          (case find_trigger_definition p (tr_type t) of
             None \<Rightarrow> []
           | Some def \<Rightarrow> map (\<lambda>c. (cd_name c, cd_type c, cd_description c)) (td_context def)))"

definition rpc_inspect_trigger :: "fmt_env \<Rightarrow> string \<Rightarrow> daemon \<Rightarrow> trigger_detail rpc" where
  "rpc_inspect_trigger fe ident d =
     (case find_trigger (dm_registry d) ident of
        None \<Rightarrow> rpc_fail Not_Found (''trigger not found: '' @ ident)
      | Some t \<Rightarrow> Inr \<lparr>tl_summary = trigger_summary t,
          tl_options = option_values fe (sensitive_option_names (dm_plugins d) (tr_plugin_id t) (tr_type t)) (tr_options t),
          tl_context = context_vars (dm_plugins d) t,
          tl_action_ids = trigger_action_ids (dm_registry d) (tr_id t), tl_errors = int32 (tr_error_count t)\<rparr>)"

definition rpc_inspect_action :: "fmt_env \<Rightarrow> string \<Rightarrow> daemon \<Rightarrow> action_detail rpc" where
  "rpc_inspect_action fe ident d =
     (case find_action (dm_registry d) ident of
        None \<Rightarrow> rpc_fail Not_Found (''action not found: '' @ ident)
      | Some a \<Rightarrow> Inr \<lparr>al_summary = action_summary a,
          al_options = option_values fe (sensitive_option_names (dm_plugins d) (ac_plugin_id a) (ac_type a)) (ac_options a),
          al_trigger = ac_trigger_id a, al_errors = int32 (ac_error_count a)\<rparr>)"

definition brief :: "string \<Rightarrow> entity_summary \<Rightarrow> entity_summary" where
  "brief grp s = s\<lparr>em_group := grp, em_plugin := [], em_recurfile := [], em_last := None\<rparr>"

definition unstamped :: "entity_summary \<Rightarrow> entity_summary" where
  "unstamped s = s\<lparr>em_last := None\<rparr>"

record group_detail =
  gl_id :: string
  gl_name :: string
  gl_recurfiles :: "string list"
  gl_aliases :: "(string, string) amap"
  gl_options :: "(string \<times> string) list"
  gl_triggers :: "entity_summary list"
  gl_actions :: "entity_summary list"

definition rpc_inspect_group :: "fmt_env \<Rightarrow> string \<Rightarrow> daemon \<Rightarrow> group_detail rpc" where
  "rpc_inspect_group fe ident d =
     (case find_group (dm_registry d) ident of
        None \<Rightarrow> rpc_fail Not_Found (''group not found: '' @ ident)
      | Some g \<Rightarrow>
          let r = dm_registry d; path = recurfile_path_for_group r (gp_recurfile_id g) in
          Inr \<lparr>gl_id = gp_id g, gl_name = gp_name g, gl_recurfiles = (if path \<noteq> [] then [path] else []),
            gl_aliases = gp_aliases g, gl_options = option_values fe [] (gp_options g),
            gl_triggers = map (\<lambda>t. brief (gp_name g) (trigger_summary t)) (group_triggers r (gp_id g)),
            gl_actions = map (\<lambda>a. brief (gp_name g) (action_summary a)) (group_actions r (gp_id g))\<rparr>)"

record recurfile_detail =
  fl_id :: string
  fl_path :: string
  fl_groups :: "group_summary list"
  fl_triggers :: "entity_summary list"
  fl_actions :: "entity_summary list"

definition rpc_inspect_recurfile :: "string \<Rightarrow> daemon \<Rightarrow> recurfile_detail rpc" where
  "rpc_inspect_recurfile ident d =
     (case find_recurfile (dm_registry d) ident of
        None \<Rightarrow> rpc_fail Not_Found (''recurfile not found: '' @ ident)
      | Some rc \<Rightarrow>
          let r = dm_registry d in
          Inr \<lparr>fl_id = rc_id rc, fl_path = rc_path rc,
            fl_groups = map group_summary_of (groups_for_recurfile r (rc_id rc)),
            fl_triggers = map (\<lambda>t. unstamped (trigger_summary t)) (recurfile_triggers r (rc_id rc)),
            fl_actions = map (\<lambda>a. unstamped (action_summary a)) (recurfile_actions r (rc_id rc))\<rparr>)"

definition rpc_inspect_plugin :: "fmt_env \<Rightarrow> string \<Rightarrow> daemon \<Rightarrow> plugin_detail rpc" where
  "rpc_inspect_plugin fe ident d =
     (if ident = [] then rpc_fail Invalid_Argument ''identifier is required''
      else case find_by_identifier (dm_plugins d) ident of
        None \<Rightarrow> rpc_fail Not_Found (''plugin not found: '' @ ident)
      | Some p \<Rightarrow> Inr (plugin_to_detail fe p))"

section \<open>Suspending, resuming and testing\<close>

definition rpc_suspend_trigger :: "world \<Rightarrow> string \<Rightarrow> daemon \<Rightarrow> (string \<times> string \<times> bool) rpc \<times> daemon" where
  "rpc_suspend_trigger w ident d =
     (if ident = [] then (rpc_fail Invalid_Argument ''identifier is required'', d)
      else case suspend_trigger (dm_registry d) ident of
        (Inl e, r) \<Rightarrow> (rpc_fail Not_Found e, d\<lparr>dm_registry := r\<rparr>)
      | (Inr (i, name, same), r) \<Rightarrow> (Inr (i, name, same), persist_state w (engine_deactivate i (d\<lparr>dm_registry := r\<rparr>))))"

definition rpc_resume_trigger :: "world \<Rightarrow> string \<Rightarrow> daemon \<Rightarrow> (string \<times> string \<times> bool) rpc \<times> daemon" where
  "rpc_resume_trigger w ident d =
     (if ident = [] then (rpc_fail Invalid_Argument ''identifier is required'', d)
      else case resume_trigger (dm_registry d) ident of
        (Inl e, r) \<Rightarrow> (rpc_fail Not_Found e, d\<lparr>dm_registry := r\<rparr>)
      | (Inr (i, name, same), r) \<Rightarrow>
          let d1 = d\<lparr>dm_registry := r\<rparr>;
              d2 = (if same then d1
                    else case get_trigger r i of None \<Rightarrow> d1 | Some t \<Rightarrow> snd (engine_activate w t d1))
          in (Inr (i, name, same), persist_state w d2))"

definition rpc_change_action :: "(registry \<Rightarrow> string \<Rightarrow> (string \<times> string \<times> bool) result \<times> registry) \<Rightarrow> world \<Rightarrow> string \<Rightarrow>
    daemon \<Rightarrow> (string \<times> string \<times> bool) rpc \<times> daemon" where
  "rpc_change_action change w ident d =
     (if ident = [] then (rpc_fail Invalid_Argument ''identifier is required'', d)
      else case change (dm_registry d) ident of
        (Inl e, r) \<Rightarrow> (rpc_fail Not_Found e, d\<lparr>dm_registry := r\<rparr>)
      | (Inr x, r) \<Rightarrow> (Inr x, persist_state w (d\<lparr>dm_registry := r\<rparr>)))"

definition rpc_suspend_action where "rpc_suspend_action = rpc_change_action suspend_action"
definition rpc_resume_action where "rpc_resume_action = rpc_change_action resume_action"

definition test_context :: "(string, string) amap \<Rightarrow> ex_context" where
  "test_context vars = \<lparr>cx_test = True, cx_set = vars, cx_secrets = None\<rparr>"

text \<open>Every action of the group runs, those of its other triggers too.\<close>

definition rpc_test_trigger :: "world \<Rightarrow> string \<Rightarrow> (string, string) amap \<Rightarrow> daemon \<Rightarrow>
    (test_result list \<times> string list) rpc \<times> daemon" where
  "rpc_test_trigger w ident vars d =
     (if ident = [] then (rpc_fail Invalid_Argument ''identifier is required'', d)
      else case find_trigger (dm_registry d) ident of
        None \<Rightarrow> (rpc_fail Not_Found (''trigger not found: '' @ ident), d)
      | Some t \<Rightarrow>
          (case find_group (dm_registry d) (tr_group_id t) of
             None \<Rightarrow> (Inr ([], [''trigger''@ [CHR 0x27] @ ''s group not found'']), d)
           | Some g \<Rightarrow>
               (case resolve_secrets_into w (test_context vars) (tr_recurfile_id t) d of (c, d1) \<Rightarrow>
                  let rs = map (\<lambda>a. execute_action w d1 a c) (List.map_filter (find_action (dm_registry d1)) (gp_action_ids g))
                  in (Inr (map (\<lambda>(x, _). result_to_proto x) rs, concat (map snd rs)), d1))))"

definition rpc_test_action :: "world \<Rightarrow> string \<Rightarrow> (string, string) amap \<Rightarrow> daemon \<Rightarrow>
    (test_result \<times> string list) rpc \<times> daemon" where
  "rpc_test_action w ident vars d =
     (if ident = [] then (rpc_fail Invalid_Argument ''identifier is required'', d)
      else case find_action (dm_registry d) ident of
        None \<Rightarrow> (rpc_fail Not_Found (''action not found: '' @ ident), d)
      | Some a \<Rightarrow>
          (case resolve_secrets_into w (test_context vars) (ac_recurfile_id a) d of (c, d1) \<Rightarrow>
             case execute_action w d1 a c of (x, ws) \<Rightarrow> (Inr (result_to_proto x, ws), d1)))"

section \<open>Installing and removing plugins\<close>

definition rpc_install_plugin :: "world \<Rightarrow> string \<Rightarrow> daemon \<Rightarrow> (string \<times> string \<times> string \<times> string) rpc \<times> daemon" where
  "rpc_install_plugin w path d =
     (if path = [] then (rpc_fail Invalid_Argument ''path is required'', d)
      else case load_plugin (wd_manifest w) path of
        Inl e \<Rightarrow> (rpc_fail Invalid_Argument e, d)
      | Inr p \<Rightarrow>
          let m = ip_manifest p in
          if list_ex (\<lambda>q. mf_namespace (ip_manifest q) = mf_namespace m) (dm_plugins d)
          then (rpc_fail Already_Exists (''plugin namespace '' @ go_quote (mf_namespace m) @ '' already installed''), d)
          else (Inr (ip_id p, mf_name m, mf_namespace m, mf_version m), d\<lparr>dm_plugins := dm_plugins d @ [p]\<rparr>))"

definition rpc_uninstall_plugin :: "world \<Rightarrow> string \<Rightarrow> daemon \<Rightarrow> (string \<times> string \<times> string) rpc \<times> daemon" where
  "rpc_uninstall_plugin w ident d =
     (if ident = [] then (rpc_fail Invalid_Argument ''identifier is required'', d)
      else case find_by_identifier (dm_plugins d) ident of
        None \<Rightarrow> (rpc_fail Not_Found (''plugin not found: '' @ ident), d)
      | Some p \<Rightarrow>
          let m = ip_manifest p;
              ((ts, as), r) = suspend_by_plugin_id (dm_registry d) (mf_namespace m);
              d1 = d\<lparr>dm_plugins := filter (\<lambda>q. ip_id q \<noteq> ip_id p) (dm_plugins d), dm_registry := r\<rparr>;
              d2 = foldl (\<lambda>d tid. engine_deactivate tid d) d1 ts
          in (Inr (ip_id p, mf_name m, mf_namespace m), if ts \<noteq> [] \<or> as \<noteq> [] then persist_state w d2 else d2))"

section \<open>Events of trigger plugins\<close>

text \<open>The context names that the manifest allows, if it restricts them.\<close>

definition allowed_context :: "installed_plugin list \<Rightarrow> trigger \<Rightarrow> string list option" where
  "allowed_context ps t =
     (if tr_plugin_id t = [] then None
      else case find_by_identifier ps (tr_plugin_id t) of
        None \<Rightarrow> None
      | Some p \<Rightarrow>
          (case find_trigger_definition p (tr_type t) of
             None \<Rightarrow> None
           | Some def \<Rightarrow> if td_context def = [] then None else Some (map cd_name (td_context def))))"

definition unknown_context_key :: "installed_plugin list \<Rightarrow> trigger \<Rightarrow> (string, string) amap \<Rightarrow> string option" where
  "unknown_context_key ps t vars =
     (case allowed_context ps t of None \<Rightarrow> None | Some names \<Rightarrow> find (\<lambda>k. k \<notin> set names) (amap_keys vars))"

text \<open>\<open>None\<close> is accepted; otherwise the error of the response.\<close>

definition rpc_report_event :: "string \<Rightarrow> (string, string) amap \<Rightarrow> daemon \<Rightarrow> string option \<times> daemon" where
  "rpc_report_event tid vars d =
     (if tid = [] then (Some ''trigger_id is required'', d)
      else case get_trigger (dm_registry d) tid of
        None \<Rightarrow> (Some (''trigger '' @ tid @ '' not found''), d)
      | Some t \<Rightarrow>
          (case unknown_context_key (dm_plugins d) t vars of
             Some k \<Rightarrow> (Some (''unknown context key '' @ go_quote k @ '' for trigger type '' @ tr_type t), d)
           | None \<Rightarrow>
               (case dm_router d of
                  None \<Rightarrow> (Some ''event router not initialized'', d)
                | Some r \<Rightarrow>
                    (case router_deliver tid \<lparr>te_type = tr_type t, te_context = vars\<rparr> r of
                       (err, r') \<Rightarrow> (err, d\<lparr>dm_router := Some r'\<rparr>)))))"

section \<open>Operations on an entity of any kind\<close>

definition enrich_candidate :: "registry \<Rightarrow> entity_ref \<Rightarrow> candidate" where
  "enrich_candidate r x =
     (let (g, rc) =
        (if er_type x = ''trigger''
         then (case get_trigger r (er_id x) of None \<Rightarrow> ([], []) | Some t \<Rightarrow> (tr_group_name t, tr_recurfile_path t))
         else if er_type x = ''action''
         then (case find_action r (er_id x) of None \<Rightarrow> ([], []) | Some a \<Rightarrow> (ac_group_name a, ac_recurfile_path a))
         else if er_type x = ''group''
         then (case find_group r (er_id x) of None \<Rightarrow> ([], []) | Some g \<Rightarrow> ([], recurfile_path_for_group r (gp_recurfile_id g)))
         else if er_type x = ''recurfile''
         then (case find_recurfile r (er_id x) of None \<Rightarrow> ([], []) | Some rc \<Rightarrow> ([], rc_path rc))
         else ([], []))
      in \<lparr>cn_type = er_type x, cn_id = er_id x, cn_name = er_name x, cn_group = g, cn_recurfile = rc\<rparr>)"

definition resolve_one :: "registry \<Rightarrow> string \<Rightarrow> string list \<Rightarrow> entity_ref rpc" where
  "resolve_one r ident allowed =
     (case resolve_entity r ident allowed of
        [] \<Rightarrow> rpc_fail Not_Found (''entity not found: '' @ ident)
      | [x] \<Rightarrow> Inr x
      | refs \<Rightarrow> Inl \<lparr>st_code = Invalid_Argument,
          st_message = ''ambiguous identifier '' @ go_quote ident @ '' matches '' @ itoa (int (length refs)) @ '' entities'',
          st_candidates = map (enrich_candidate r) refs\<rparr>)"

datatype entity_detail =
    Plugin_Detail plugin_detail
  | Trigger_Detail trigger_detail
  | Action_Detail action_detail
  | Group_Detail group_detail
  | Recurfile_Detail recurfile_detail

definition inspect_ref :: "fmt_env \<Rightarrow> entity_ref \<Rightarrow> daemon \<Rightarrow> entity_detail rpc" where
  "inspect_ref fe x d =
     (if er_type x = ''trigger'' then map_sum id Trigger_Detail (rpc_inspect_trigger fe (er_id x) d)
      else if er_type x = ''action'' then map_sum id Action_Detail (rpc_inspect_action fe (er_id x) d)
      else if er_type x = ''group'' then map_sum id Group_Detail (rpc_inspect_group fe (er_id x) d)
      else if er_type x = ''recurfile'' then map_sum id Recurfile_Detail (rpc_inspect_recurfile (er_id x) d)
      else rpc_fail Internal_Error (''unknown entity type: '' @ er_type x))"

text \<open>Plugins are not in the index: they are tried first.\<close>

definition rpc_inspect_entity :: "fmt_env \<Rightarrow> string \<Rightarrow> string \<Rightarrow> daemon \<Rightarrow> entity_detail rpc" where
  "rpc_inspect_entity fe ident ty d =
     (if ident = [] then rpc_fail Invalid_Argument ''identifier is required''
      else
        let by_ref = (case resolve_one (dm_registry d) ident (if ty \<noteq> [] then [ty] else []) of
                        Inl e \<Rightarrow> Inl e | Inr x \<Rightarrow> inspect_ref fe x d) in
        if ty = [] \<or> ty = ''plugin'' then
          (case rpc_inspect_plugin fe ident d of
             Inr p \<Rightarrow> Inr (Plugin_Detail p)
           | Inl e \<Rightarrow> if ty = ''plugin'' then Inl e else by_ref)
        else by_ref)"

text \<open>\<open>SuspendEntity\<close>, \<open>ResumeEntity\<close> and \<open>TestEntity\<close> resolve, then call the handler of the kind found.\<close>

definition on_entity :: "string \<Rightarrow> (string \<Rightarrow> daemon \<Rightarrow> 'a rpc \<times> daemon) \<Rightarrow> (string \<Rightarrow> daemon \<Rightarrow> 'a rpc \<times> daemon) \<Rightarrow>
    string \<Rightarrow> string \<Rightarrow> daemon \<Rightarrow> (string \<times> 'a) rpc \<times> daemon" where
  "on_entity verb on_trigger on_act ident ty d =
     (if ident = [] then (rpc_fail Invalid_Argument ''identifier is required'', d)
      else case resolve_one (dm_registry d) ident (if ty \<noteq> [] then [ty] else [''trigger'', ''action'']) of
        Inl e \<Rightarrow> (Inl e, d)
      | Inr x \<Rightarrow>
          if er_type x = ''trigger'' then apfst (map_sum id (Pair ''trigger'')) (on_trigger (er_id x) d)
          else if er_type x = ''action'' then apfst (map_sum id (Pair ''action'')) (on_act (er_id x) d)
          else (rpc_fail Invalid_Argument (''cannot '' @ verb @ '' entity type: '' @ er_type x), d))"

definition rpc_suspend_entity :: "world \<Rightarrow> string \<Rightarrow> string \<Rightarrow> daemon \<Rightarrow> (string \<times> string \<times> string \<times> bool) rpc \<times> daemon" where
  "rpc_suspend_entity w = on_entity ''suspend'' (rpc_suspend_trigger w) (rpc_suspend_action w)"

definition rpc_resume_entity :: "world \<Rightarrow> string \<Rightarrow> string \<Rightarrow> daemon \<Rightarrow> (string \<times> string \<times> string \<times> bool) rpc \<times> daemon" where
  "rpc_resume_entity w = on_entity ''resume'' (rpc_resume_trigger w) (rpc_resume_action w)"

definition rpc_test_entity :: "world \<Rightarrow> string \<Rightarrow> string \<Rightarrow> (string, string) amap \<Rightarrow> daemon \<Rightarrow>
    (string \<times> test_result list \<times> string list) rpc \<times> daemon" where
  "rpc_test_entity w ident ty vars =
     on_entity ''test'' (\<lambda>i. rpc_test_trigger w i vars)
       (\<lambda>i d. apfst (map_sum id (apfst (\<lambda>x. [x]))) (rpc_test_action w i vars d)) ident ty"

end
