(* ===== verification/Go_Runes.thy ===== *)
theory Go_Runes
  imports Go_Strings
begin

text \<open>
  Runes of a string: the conversion \<open>[]rune(s)\<close>, their number, and the padding of \<open>fmt\<close>, which
  counts runes.
\<close>

section \<open>Runes\<close>

text \<open>The conversion \<open>[]rune(s)\<close>: UTF-8, one replacement character for each byte that starts no rune.\<close>

definition cont :: "nat \<Rightarrow> bool" where "cont b \<longleftrightarrow> 128 \<le> b \<and> b \<le> 191"

definition second_ok :: "nat \<Rightarrow> nat \<Rightarrow> bool" where
  "second_ok b0 b1 \<longleftrightarrow>
     (if b0 = 224 then 160 else if b0 = 240 then 144 else 128) \<le> b1 \<and>
     b1 \<le> (if b0 = 237 then 159 else if b0 = 244 then 143 else 191)"

text \<open>The first rune of a byte sequence and the bytes after it.\<close>

definition decode_rune :: "nat \<Rightarrow> nat list \<Rightarrow> nat \<times> nat list" where
  "decode_rune b0 bs =
     (if b0 < 128 then (b0, bs)
      else case bs of
        [] \<Rightarrow> (65533, bs)
      | b1 # r1 \<Rightarrow>
          if 194 \<le> b0 \<and> b0 \<le> 223 \<and> cont b1 then ((b0 - 192) * 64 + (b1 - 128), r1)
          else if 224 \<le> b0 \<and> b0 \<le> 244 \<and> second_ok b0 b1 then
            (case r1 of
               [] \<Rightarrow> (65533, bs)
             | b2 # r2 \<Rightarrow>
                 if \<not> cont b2 then (65533, bs)
                 else if b0 \<le> 239 then (((b0 - 224) * 64 + (b1 - 128)) * 64 + (b2 - 128), r2)
                 else (case r2 of
                    [] \<Rightarrow> (65533, bs)
                  | b3 # r3 \<Rightarrow>
                      if \<not> cont b3 then (65533, bs)
                      else ((((b0 - 240) * 64 + (b1 - 128)) * 64 + (b2 - 128)) * 64 + (b3 - 128), r3)))
          else (65533, bs))"

lemma decode_rune_shrinks: "length (snd (decode_rune b0 bs)) \<le> length bs"
  by (simp add: decode_rune_def split: list.splits)

function rune_list :: "nat list \<Rightarrow> nat list" where
  "rune_list [] = []"
| "rune_list (b # bs) = fst (decode_rune b bs) # rune_list (snd (decode_rune b bs))"
  by pat_completeness auto
termination
  by (relation "measure length") (auto simp: le_imp_less_Suc decode_rune_shrinks)

definition runes :: "string \<Rightarrow> nat list" where "runes s = rune_list (map ord s)"

lemma rune_list_length: "length (rune_list bs) \<le> length bs"
proof (induction bs rule: rune_list.induct)
  case (2 b bs)
  with decode_rune_shrinks [of b bs] show ?case by simp
qed simp

lemma runes_length: "length (runes s) \<le> length s"
  using rune_list_length [of "map ord s"] by (simp add: runes_def)

section \<open>Padding\<close>

text \<open>The verb \<open>%-ns\<close>.\<close>

definition pad_right :: "nat \<Rightarrow> string \<Rightarrow> string" where
  "pad_right n s = s @ replicate (n - length (runes s)) (CHR '' '')"

lemma pad_right_ne: "s \<noteq> [] \<Longrightarrow> pad_right n s \<noteq> []"
  by (simp add: pad_right_def)

end
