(* ===== verification/Display.thy ===== *)
theory Display
  imports Service Go_Runes
begin

text \<open>
  \<open>terminal/display\<close>: what the commands print about entities and ambiguous identifiers. The
  output of a command is the list of what it writes: a line on standard output, a line on standard
  error, a prompt without a line feed, or a document in JSON, given by the value it encodes.
\<close>

text \<open>The em dash of the source, in UTF-8.\<close>

definition em_dash :: string where "em_dash = [CHR 0xE2, CHR 0x80, CHR 0x94]"

datatype doc =
    Doc_Value gval
  | Doc_Entity entity_detail
  | Doc_Entities "entity_summary list"
  | Doc_Groups "group_summary list"
  | Doc_Plugins "plugin_summary list"
  | Doc_Recurfiles "recurfile_summary list"
  | Doc_Test "string \<times> test_result list \<times> string list"

datatype written = Out string | Err string | Prompt string | Json doc

text \<open>
  The errors a command returns, each kind that some caller tells apart with its own constructor, and
  a panic, which exits like an ambiguous identifier.
\<close>

datatype cli_error = Cli_Error string | Cli_Ambiguous string | Validation_Failed | Daemon_Not_Running | Cli_Panic

definition exit_code :: "cli_error option \<Rightarrow> nat" where
  "exit_code e = (case e of None \<Rightarrow> 0 | Some (Cli_Ambiguous _) \<Rightarrow> 2 | Some Cli_Panic \<Rightarrow> 2 | Some _ \<Rightarrow> 1)"

text \<open>
  A call of the service fails before it reaches the daemon (its message is the library's) or with
  the status of the handler.
\<close>

datatype call_error = Call_Transport string | Call_Status rpc_status

section \<open>Ambiguous identifiers\<close>

definition value_or_dash :: "string \<Rightarrow> string" where
  "value_or_dash s = (if s = [] then ''-'' else s)"

text \<open>Some two candidates share their type and name.\<close>

fun wide_from :: "(string \<times> string) list \<Rightarrow> candidate list \<Rightarrow> bool" where
  "wide_from seen [] = False"
| "wide_from seen (c # cs) =
     (let k = (cn_type c, cn_name c) in if k \<in> set seen then True else wide_from (k # seen) cs)"

definition needs_wide_display :: "candidate list \<Rightarrow> bool" where
  "needs_wide_display cs = wide_from [] cs"

definition candidate_line :: "bool \<Rightarrow> candidate \<Rightarrow> string" where
  "candidate_line wide c =
     (if wide then ''  '' @ pad_right 10 (cn_type c) @ '' '' @ cn_id c @ ''  '' @ pad_right 16 (cn_name c) @
         '' group='' @ value_or_dash (cn_group c) @ ''  recurfile='' @ value_or_dash (cn_recurfile c)
      else ''  '' @ pad_right 10 (cn_type c) @ '' '' @ cn_id c @ ''  '' @ cn_name c)"

definition format_candidates :: "string \<Rightarrow> candidate list \<Rightarrow> string" where
  "format_candidates ident cs =
     ''Ambiguous identifier '' @ go_quote ident @ '' matches '' @ itoa (int (length cs)) @ '' entities:'' @ nl @
     concat (map (\<lambda>c. candidate_line (needs_wide_display cs) c @ nl) cs) @
     ''Use the full ID from the list above to disambiguate.''"

text \<open>The detail of a gRPC error: only an ambiguous identifier carries candidates.\<close>

definition ambiguous_detail :: "call_error \<Rightarrow> candidate list option" where
  "ambiguous_detail e =
     (case e of Call_Transport _ \<Rightarrow> None | Call_Status s \<Rightarrow> if st_candidates s = [] then None else Some (st_candidates s))"

definition format_ambiguous_error :: "string \<Rightarrow> call_error \<Rightarrow> string" where
  "format_ambiguous_error ident e =
     (case ambiguous_detail e of None \<Rightarrow> [] | Some cs \<Rightarrow> format_candidates ident cs)"

definition candidate_value :: "candidate \<Rightarrow> gval" where
  "candidate_value c = VMap ([(''entity_type'', VStr (cn_type c)), (''id'', VStr (cn_id c)), (''name'', VStr (cn_name c))] @
     (if cn_group c = [] then [] else [(''group'', VStr (cn_group c))]) @
     (if cn_recurfile c = [] then [] else [(''recurfile'', VStr (cn_recurfile c))]))"

definition emit_ambiguous_json :: "string \<Rightarrow> candidate list \<Rightarrow> cli_error \<times> written list" where
  "emit_ambiguous_json ident cs =
     (Cli_Ambiguous (''ambiguous identifier '' @ go_quote ident),
      [Json (Doc_Value (VMap [(''error'', VStr ''ambiguous_identifier''), (''identifier'', VStr ident),
         (''candidates'', VList (map candidate_value cs))]))])"

definition handle_ambiguous_error :: "string \<Rightarrow> call_error \<Rightarrow> bool \<Rightarrow> (cli_error \<times> written list) option" where
  "handle_ambiguous_error ident e json =
     (case ambiguous_detail e of
        None \<Rightarrow> None
      | Some cs \<Rightarrow> if json then Some (emit_ambiguous_json ident cs)
                  else Some (Cli_Ambiguous (format_candidates ident cs), []))"

section \<open>Words\<close>

text \<open>\<open>EntityStatus\<close>, \<open>StatusLabel\<close>, \<open>SafeID\<close> and \<open>JoinNames\<close>.\<close>

definition status_word :: "estatus \<Rightarrow> string" where
  "status_word s = (case s of Status_Active \<Rightarrow> ''active'' | Status_Suspended \<Rightarrow> ''suspended'' | Status_Error \<Rightarrow> ''error''
     | Status_Unspecified \<Rightarrow> ''unknown'')"

definition status_label :: "estatus \<Rightarrow> string" where
  "status_label s = (case s of Status_Suspended \<Rightarrow> '' (suspended)'' | Status_Error \<Rightarrow> '' (error)'' | _ \<Rightarrow> [])"

definition safe_id :: "string \<Rightarrow> string" where "safe_id i = (if 8 < length i then take 8 i else i)"

definition join_names :: "string list \<Rightarrow> string" where
  "join_names ns = foldl (\<lambda>r (i, n). r @ (if 0 < i then '', '' else []) @ n) [] (enumerate 0 ns)"

section \<open>Entities\<close>

text \<open>
  What showing needs from outside: the local form of a time, the plugins on disk and which paths
  exist.
\<close>

record show_env =
  sh_local :: "int \<Rightarrow> string"
  sh_plugins :: "installed_plugin list"
  sh_exists :: "string \<Rightarrow> bool"

definition find_installed_plugin :: "installed_plugin list \<Rightarrow> string \<Rightarrow> string \<Rightarrow> string \<Rightarrow> installed_plugin option" where
  "find_installed_plugin ps i name namespace =
     (case List.map_filter (find_by_identifier ps) (filter (\<lambda>x. x \<noteq> []) [i, name, namespace]) of
        [] \<Rightarrow> None | p # _ \<Rightarrow> Some p)"

definition option_rows :: "(string \<times> string) list \<Rightarrow> written list" where
  "option_rows os = (if os = [] then [] else Out ''Options:'' # map (\<lambda>(n, v). Out (''  '' @ n @ '' = '' @ v)) os)"

definition plugin_dir_row :: "show_env \<Rightarrow> bool \<Rightarrow> string \<Rightarrow> written list" where
  "plugin_dir_row sh verbose plugin =
     (if verbose \<and> plugin \<noteq> [] then
        (case find_installed_plugin (sh_plugins sh) [] [] plugin of None \<Rightarrow> [] | Some p \<Rightarrow> [Out (''Plugin Dir:  '' @ ip_dir p)])
      else [])"

definition show_trigger :: "show_env \<Rightarrow> bool \<Rightarrow> bool \<Rightarrow> trigger_detail \<Rightarrow> written list" where
  "show_trigger sh json verbose t =
     (if json then [Json (Doc_Entity (Trigger_Detail t))]
      else let s = tl_summary t in
        [Out (''ID:        '' @ em_id s), Out (''Name:      '' @ em_name s), Out (''Group:     '' @ em_group s),
         Out (''Plugin:    '' @ em_plugin s), Out (''Status:    '' @ status_word (em_status s)),
         Out (''Recurfile: '' @ em_recurfile s)] @
        (case em_last s of None \<Rightarrow> [] | Some x \<Rightarrow> [Out (''Fired:     '' @ sh_local sh x)]) @
        [Out (''Errors:    '' @ itoa (tl_errors t))] @
        option_rows (tl_options t) @
        (if tl_context t = [] then []
         else Out ''Context Variables:'' # map (\<lambda>(n, ty, d). Out (''  '' @ n @ '' ('' @ ty @ '') '' @ em_dash @ '' '' @ d)) (tl_context t)) @
        (if tl_action_ids t = [] then [] else Out ''Actions:'' # map (\<lambda>i. Out (''  '' @ safe_id i)) (tl_action_ids t)) @
        plugin_dir_row sh verbose (em_plugin s))"

definition show_action :: "show_env \<Rightarrow> bool \<Rightarrow> bool \<Rightarrow> action_detail \<Rightarrow> written list" where
  "show_action sh json verbose a =
     (if json then [Json (Doc_Entity (Action_Detail a))]
      else let s = al_summary a in
        [Out (''ID:        '' @ em_id s), Out (''Name:      '' @ em_name s), Out (''Group:     '' @ em_group s),
         Out (''Plugin:    '' @ em_plugin s), Out (''Status:    '' @ status_word (em_status s)),
         Out (''Recurfile: '' @ em_recurfile s)] @
        (if al_trigger a = [] then [] else [Out (''Trigger:   '' @ safe_id (al_trigger a))]) @
        (case em_last s of None \<Rightarrow> [] | Some x \<Rightarrow> [Out (''Executed:  '' @ sh_local sh x)]) @
        [Out (''Errors:    '' @ itoa (al_errors a))] @
        option_rows (al_options a) @
        plugin_dir_row sh verbose (em_plugin s))"

definition entity_rows :: "string \<Rightarrow> (entity_summary \<Rightarrow> string) \<Rightarrow> entity_summary list \<Rightarrow> written list" where
  "entity_rows title f es =
     (if es = [] then [] else Out title # map (\<lambda>e. Out (''  '' @ safe_id (em_id e) @ '' '' @ f e)) es)"

definition show_group :: "bool \<Rightarrow> group_detail \<Rightarrow> written list" where
  "show_group json g =
     (if json then [Json (Doc_Entity (Group_Detail g))]
      else
        [Out (''ID:         '' @ gl_id g), Out (''Name:       '' @ gl_name g), Out (''Recurfiles: '' @ join_names (gl_recurfiles g))] @
        option_rows (gl_options g) @
        (if gl_aliases g = [] then [] else Out ''Aliases:'' # map (\<lambda>(k, v). Out (''  '' @ k @ '' = '' @ v)) (gl_aliases g)) @
        entity_rows ''Triggers:'' (\<lambda>t. em_name t @ status_label (em_status t)) (gl_triggers g) @
        entity_rows ''Actions:'' (\<lambda>a. em_name a @ status_label (em_status a)) (gl_actions g))"

text \<open>The status of a plugin is always active.\<close>

definition show_plugin :: "show_env \<Rightarrow> bool \<Rightarrow> bool \<Rightarrow> plugin_detail \<Rightarrow> written list" where
  "show_plugin sh json verbose p =
     (if json then [Json (Doc_Entity (Plugin_Detail p))]
      else
        [Out (''ID:          '' @ pd_id p), Out (''Name:        '' @ pd_name p), Out (''Namespace:   '' @ pd_namespace p),
         Out (''Version:     '' @ pd_version p), Out (''Status:      '' @ status_word Status_Active)] @
        (if pd_description p = [] then [] else [Out (''Description: '' @ pd_description p)]) @
        (if pd_dependencies p = [] then [] else [Out (''Dependencies: '' @ join_names (pd_dependencies p))]) @
        (if pd_triggers p = [] then [] else Out ''Triggers:'' # map (\<lambda>t. Out (''  '' @ em_name t)) (pd_triggers p)) @
        (if pd_actions p = [] then [] else Out ''Actions:'' # map (\<lambda>a. Out (''  '' @ em_name a)) (pd_actions p)) @
        (if pd_config p = [] then []
         else Out ''Configuration:'' # map (\<lambda>(k, ty, dv, _). Out (''  '' @ k @ '' ('' @ ty @ '')'' @
           (if dv \<noteq> [] \<and> dv \<noteq> ''<nil>'' then '' default='' @ dv else []))) (pd_config p)) @
        (if verbose then
           (case find_installed_plugin (sh_plugins sh) (pd_id p) (pd_name p) (pd_namespace p) of
              None \<Rightarrow> []
            | Some ip \<Rightarrow> [Out (''Install Dir: '' @ ip_dir ip), Out (''Binary:      '' @ binary_path (sh_exists sh) ip)])
         else []))"

definition show_recurfile :: "bool \<Rightarrow> recurfile_detail \<Rightarrow> written list" where
  "show_recurfile json w =
     (if json then [Json (Doc_Entity (Recurfile_Detail w))]
      else
        [Out (''ID:   '' @ fl_id w), Out (''Path: '' @ fl_path w)] @
        (if fl_groups w = [] then []
         else Out ''Groups:'' # map (\<lambda>g. Out (''  '' @ safe_id (gs_id g) @ '' '' @ gs_name g @ '' (triggers='' @ itoa (gs_triggers g) @
           '', actions='' @ itoa (gs_actions g) @ '')'')) (fl_groups w)) @
        entity_rows ''Triggers:'' (\<lambda>t. em_name t @ '' ['' @ em_group t @ '']'' @ status_label (em_status t)) (fl_triggers w) @
        entity_rows ''Actions:'' (\<lambda>a. em_name a @ '' ['' @ em_group a @ '']'' @ status_label (em_status a)) (fl_actions w))"

definition show_entity :: "show_env \<Rightarrow> bool \<Rightarrow> bool \<Rightarrow> entity_detail \<Rightarrow> written list" where
  "show_entity sh json verbose x =
     (case x of
        Trigger_Detail t \<Rightarrow> show_trigger sh json verbose t
      | Action_Detail a \<Rightarrow> show_action sh json verbose a
      | Group_Detail g \<Rightarrow> show_group json g
      | Recurfile_Detail w \<Rightarrow> show_recurfile json w
      | Plugin_Detail p \<Rightarrow> show_plugin sh json verbose p)"

end
