(* ===== verification/Cli.thy ===== *)
theory Cli
  imports Display
begin

text \<open>
  The command line \<open>recur\<close> (\<open>app/recur/cli\<close>): finding and calling the daemon, and the commands that
  suspend, resume, test, list and inspect. A command is a function of its environment, its flags
  and arguments and the daemon; it gives the error it returns, if any, what it writes and the
  daemon after it. Commands call the handlers of \<open>Service\<close>; the transport can fail before a call
  reaches the daemon.
\<close>

section \<open>The environment\<close>

record flags =
  fg_json :: bool
  fg_quiet :: bool
  fg_verbose :: bool
  fg_socket :: string

text \<open>
  \<open>ce_config\<close> is what \<open>InitStore\<close> gives for the default path; \<open>ce_dial\<close> is the failure to connect to
  an address, \<open>ce_probe\<close> the quick check of \<open>ConnectOrNil\<close>, \<open>ce_call\<close> the failure of the calls;
  \<open>ce_exists\<close>, \<open>ce_here\<close> and \<open>ce_abs\<close> are \<open>os.Stat\<close>, the working directory's entries and
  \<open>filepath.Abs\<close>.
\<close>

record cli_env =
  ce_world :: world
  ce_fmt :: fmt_env
  ce_show :: show_env
  ce_socket_var :: string
  ce_config :: "(store \<times> string) result"
  ce_default_socket :: "string result"
  ce_dial :: "string \<Rightarrow> string option"
  ce_probe :: "string \<Rightarrow> bool"
  ce_call :: "string option"
  ce_call_text :: "call_error \<Rightarrow> string"
  ce_exists :: "string \<Rightarrow> bool"
  ce_here :: "dir_entry list result"
  ce_abs :: "string \<Rightarrow> string result"

text \<open>An error and the zero value: \<open>v, _ := f()\<close>.\<close>

definition or_zero :: "string result \<Rightarrow> string" where
  "or_zero r = (case r of Inl _ \<Rightarrow> [] | Inr s \<Rightarrow> s)"

text \<open>Flag, environment variable, configuration file, default, in this order.\<close>

definition resolve_socket_path :: "cli_env \<Rightarrow> flags \<Rightarrow> string result" where
  "resolve_socket_path env fg =
     (if fg_socket fg \<noteq> [] then Inr (fg_socket fg)
      else if ce_socket_var env \<noteq> [] then Inr (ce_socket_var env)
      else case ce_config env of
        Inr (s, _) \<Rightarrow>
          (let a = deref_str (cfg_ptr (fst (st_get s)) ''SocketAddress'') in
           if a \<noteq> [] then Inr a else ce_default_socket env)
      | Inl _ \<Rightarrow> ce_default_socket env)"

definition connect :: "cli_env \<Rightarrow> string \<Rightarrow> unit result" where
  "connect env addr =
     (case ce_dial env addr of
        Some e \<Rightarrow> Inl (''could not connect to daemon at '' @ addr @ '': '' @ e)
      | None \<Rightarrow> Inr ())"

definition connect_or_nil :: "cli_env \<Rightarrow> string \<Rightarrow> bool" where
  "connect_or_nil env addr \<longleftrightarrow> ce_probe env addr \<and> ce_dial env addr = None"

definition client_here :: "cli_env \<Rightarrow> flags \<Rightarrow> bool" where
  "client_here env fg = connect_or_nil env (or_zero (resolve_socket_path env fg))"

definition apos :: string where "apos = [CHR 0x27]"

definition require_daemon :: "cli_env \<Rightarrow> flags \<Rightarrow> string option" where
  "require_daemon env fg =
     (case connect env (or_zero (resolve_socket_path env fg)) of
        Inl e \<Rightarrow> Some (''daemon is not running (start it with '' @ apos @ ''recur start'' @ apos @ ''): '' @ e)
      | Inr _ \<Rightarrow> None)"

type_synonym outcome = "cli_error option \<times> written list \<times> daemon"

definition with_daemon :: "cli_env \<Rightarrow> flags \<Rightarrow> (daemon \<Rightarrow> outcome) \<Rightarrow> daemon \<Rightarrow> outcome" where
  "with_daemon env fg body d = (case require_daemon env fg of Some e \<Rightarrow> (Some (Cli_Error e), [], d) | None \<Rightarrow> body d)"

text \<open>A call that changes the daemon, and one that only asks.\<close>

definition call :: "cli_env \<Rightarrow> (daemon \<Rightarrow> 'a rpc \<times> daemon) \<Rightarrow> daemon \<Rightarrow> (call_error + 'a) \<times> daemon" where
  "call env f d =
     (case ce_call env of
        Some e \<Rightarrow> (Inl (Call_Transport e), d)
      | None \<Rightarrow> apfst (map_sum Call_Status id) (f d))"

definition ask :: "cli_env \<Rightarrow> (daemon \<Rightarrow> 'a rpc) \<Rightarrow> daemon \<Rightarrow> call_error + 'a" where
  "ask env f d = (case ce_call env of Some e \<Rightarrow> Inl (Call_Transport e) | None \<Rightarrow> map_sum Call_Status id (f d))"

text \<open>The error of a failed call; an ambiguous identifier is reported on its own where the command looks for it.\<close>

definition call_failed :: "cli_env \<Rightarrow> string \<Rightarrow> call_error \<Rightarrow> cli_error" where
  "call_failed env what e = Cli_Error (what @ '': '' @ ce_call_text env e)"

definition ambiguous_or_failed :: "cli_env \<Rightarrow> string \<Rightarrow> bool \<Rightarrow> string \<Rightarrow> call_error \<Rightarrow> cli_error option \<times> written list" where
  "ambiguous_or_failed env ident json what e =
     (case handle_ambiguous_error ident e json of
        Some (err, out) \<Rightarrow> (Some err, out)
      | None \<Rightarrow> (Some (call_failed env what e), []))"

section \<open>Suspending and resuming\<close>

text \<open>\<open>strings.ToUpper\<close> of the first byte.\<close>

definition capitalize_first :: "string \<Rightarrow> string" where
  "capitalize_first s = (if s = [] then s else to_upper (take 1 s) @ drop 1 s)"

definition unless_quiet :: "flags \<Rightarrow> written list \<Rightarrow> written list" where
  "unless_quiet fg out = (if fg_quiet fg then [] else out)"

definition cmd_suspend :: "cli_env \<Rightarrow> flags \<Rightarrow> string \<Rightarrow> daemon \<Rightarrow> outcome" where
  "cmd_suspend env fg ident = with_daemon env fg (\<lambda>d.
     case call env (rpc_suspend_entity (ce_world env) ident []) d of
       (Inl e, d1) \<Rightarrow> (case ambiguous_or_failed env ident False ''failed to suspend'' e of (err, out) \<Rightarrow> (err, out, d1))
     | (Inr (ty, _), d1) \<Rightarrow> (None, unless_quiet fg [Out (capitalize_first ty @ '' '' @ ident @ '' suspended.'')], d1))"

definition cmd_resume :: "cli_env \<Rightarrow> flags \<Rightarrow> string \<Rightarrow> daemon \<Rightarrow> outcome" where
  "cmd_resume env fg ident = with_daemon env fg (\<lambda>d.
     case call env (rpc_resume_entity (ce_world env) ident []) d of
       (Inl e, d1) \<Rightarrow> (case ambiguous_or_failed env ident False ''failed to resume'' e of (err, out) \<Rightarrow> (err, out, d1))
     | (Inr (ty, _), d1) \<Rightarrow> (None, unless_quiet fg [Out (capitalize_first ty @ '' '' @ ident @ '' resumed.'')], d1))"

text \<open>The commands with an entity type do not look for an ambiguous identifier.\<close>

definition cmd_suspend_trigger :: "cli_env \<Rightarrow> flags \<Rightarrow> string \<Rightarrow> daemon \<Rightarrow> outcome" where
  "cmd_suspend_trigger env fg ident = with_daemon env fg (\<lambda>d.
     case call env (rpc_suspend_entity (ce_world env) ident ''trigger'') d of
       (Inl e, d1) \<Rightarrow> (Some (call_failed env ''failed to suspend trigger'' e), [], d1)
     | (Inr _, d1) \<Rightarrow> (None, unless_quiet fg [Out (''Trigger '' @ ident @ '' suspended.'')], d1))"

definition cmd_suspend_action :: "cli_env \<Rightarrow> flags \<Rightarrow> string \<Rightarrow> daemon \<Rightarrow> outcome" where
  "cmd_suspend_action env fg ident = with_daemon env fg (\<lambda>d.
     case call env (rpc_suspend_entity (ce_world env) ident ''action'') d of
       (Inl e, d1) \<Rightarrow> (Some (call_failed env ''failed to suspend action'' e), [], d1)
     | (Inr _, d1) \<Rightarrow> (None, unless_quiet fg [Out (''Action '' @ ident @ '' suspended.'')], d1))"

definition cmd_resume_trigger :: "cli_env \<Rightarrow> flags \<Rightarrow> string \<Rightarrow> daemon \<Rightarrow> outcome" where
  "cmd_resume_trigger env fg ident = with_daemon env fg (\<lambda>d.
     case call env (rpc_resume_entity (ce_world env) ident ''trigger'') d of
       (Inl e, d1) \<Rightarrow> (Some (call_failed env ''failed to resume trigger'' e), [], d1)
     | (Inr _, d1) \<Rightarrow> (None, unless_quiet fg [Out (''Trigger '' @ ident @ '' resumed.'')], d1))"

definition cmd_resume_action :: "cli_env \<Rightarrow> flags \<Rightarrow> string \<Rightarrow> daemon \<Rightarrow> outcome" where
  "cmd_resume_action env fg ident = with_daemon env fg (\<lambda>d.
     case call env (rpc_resume_entity (ce_world env) ident ''action'') d of
       (Inl e, d1) \<Rightarrow> (Some (call_failed env ''failed to resume action'' e), [], d1)
     | (Inr _, d1) \<Rightarrow> (None, unless_quiet fg [Out (''Action '' @ ident @ '' resumed.'')], d1))"

section \<open>Testing\<close>

definition split_key_value :: "string \<Rightarrow> string \<times> string" where
  "split_key_value s =
     (case index_byte s (CHR ''='') of None \<Rightarrow> (s, []) | Some i \<Rightarrow> (take i s, drop (i + 1) s))"

definition set_context :: "string list \<Rightarrow> (string, string) amap" where
  "set_context sets = foldl (\<lambda>m s. case split_key_value s of (k, v) \<Rightarrow> AList.update k v m) [] sets"

definition test_action_rows :: "string \<Rightarrow> test_result \<Rightarrow> written list" where
  "test_action_rows indent r =
     (let status = (if te_success r then ''success'' else ''failed'');
          detail = (if te_exit r \<noteq> 0 then status @ '' (exit code '' @ itoa (te_exit r) @ '')'' else status);
          detail2 = (if te_duration r \<noteq> [] then detail @ '', '' @ te_duration r else detail)
      in [Out (indent @ ''Action '' @ te_action_type r @ '': '' @ detail2)] @
         (if te_error r = [] then [] else [Out (indent @ ''  Error: '' @ te_error r)]) @
         (if te_output r = [] then [] else [Out (indent @ ''  Output: '' @ te_output r)]))"

definition fired_rows :: "string \<Rightarrow> test_result list \<Rightarrow> written list" where
  "fired_rows ident rs = Out (''Trigger '' @ ident @ '' fired.'') # concat (map (test_action_rows ''  '') rs)"

text \<open>The response of a tested action holds its one result.\<close>

definition cmd_test :: "cli_env \<Rightarrow> flags \<Rightarrow> string \<Rightarrow> string list \<Rightarrow> daemon \<Rightarrow> outcome" where
  "cmd_test env fg ident sets = with_daemon env fg (\<lambda>d.
     case call env (rpc_test_entity (ce_world env) ident [] (set_context sets)) d of
       (Inl e, d1) \<Rightarrow> (case ambiguous_or_failed env ident False ''failed to test'' e of (err, out) \<Rightarrow> (err, out, d1))
     | (Inr (ty, rs, ws), d1) \<Rightarrow>
         (None,
          if fg_json fg then [Json (Doc_Test (ty, rs, ws))]
          else if ty = ''trigger'' then fired_rows ident rs
          else if ty = ''action'' then concat (map (test_action_rows []) rs)
          else [], d1))"

definition cmd_test_trigger :: "cli_env \<Rightarrow> flags \<Rightarrow> string \<Rightarrow> string list \<Rightarrow> daemon \<Rightarrow> outcome" where
  "cmd_test_trigger env fg ident sets = with_daemon env fg (\<lambda>d.
     case call env (rpc_test_entity (ce_world env) ident ''trigger'' (set_context sets)) d of
       (Inl e, d1) \<Rightarrow> (Some (call_failed env ''failed to test trigger'' e), [], d1)
     | (Inr (ty, rs, ws), d1) \<Rightarrow>
         (None, if fg_json fg then [Json (Doc_Test (ty, rs, ws))] else fired_rows ident rs, d1))"

definition cmd_test_action :: "cli_env \<Rightarrow> flags \<Rightarrow> string \<Rightarrow> string list \<Rightarrow> daemon \<Rightarrow> outcome" where
  "cmd_test_action env fg ident sets = with_daemon env fg (\<lambda>d.
     case call env (rpc_test_entity (ce_world env) ident ''action'' (set_context sets)) d of
       (Inl e, d1) \<Rightarrow> (Some (call_failed env ''failed to test action'' e), [], d1)
     | (Inr (ty, rs, ws), d1) \<Rightarrow>
         (None, if fg_json fg then [Json (Doc_Test (ty, rs, ws))] else concat (map (test_action_rows []) rs), d1))"

section \<open>Listing\<close>

definition min_len :: "nat \<Rightarrow> nat \<Rightarrow> nat" where "min_len a b = (if a < b then a else b)"

definition exclude_by_status :: "estatus \<Rightarrow> entity_summary list \<Rightarrow> entity_summary list" where
  "exclude_by_status s es = filter (\<lambda>e. em_status e \<noteq> s) es"

text \<open>The identifiers of triggers, actions and groups have more than eight bytes.\<close>

definition entity_row :: "entity_summary \<Rightarrow> written" where
  "entity_row t = Out (pad_right 12 (take 8 (em_id t)) @ '' '' @ pad_right 20 (em_name t) @ '' '' @ pad_right 25 (em_group t) @ '' '' @
     pad_right 10 (status_word (em_status t)) @ '' '' @ em_plugin t)"

text \<open>A listing: JSON, or a line that there is nothing, or a row each.\<close>

definition listing :: "flags \<Rightarrow> ('a list \<Rightarrow> doc) \<Rightarrow> string \<Rightarrow> ('a \<Rightarrow> written) \<Rightarrow> 'a list \<Rightarrow> written list" where
  "listing fg to_doc none row xs =
     (if fg_json fg then [Json (to_doc xs)] else if xs = [] then [Out none] else map row xs)"

definition list_command :: "cli_env \<Rightarrow> flags \<Rightarrow> string \<Rightarrow> (daemon \<Rightarrow> 'a) \<Rightarrow> ('a \<Rightarrow> written list) \<Rightarrow> daemon \<Rightarrow> outcome" where
  "list_command env fg what f out = with_daemon env fg (\<lambda>d.
     case ask env (\<lambda>d. Inr (f d)) d of
       Inl e \<Rightarrow> (Some (call_failed env (''failed to list '' @ what) e), [], d)
     | Inr x \<Rightarrow> (None, out x, d))"

definition cmd_list_triggers :: "cli_env \<Rightarrow> flags \<Rightarrow> bool \<Rightarrow> daemon \<Rightarrow> outcome" where
  "cmd_list_triggers env fg all = list_command env fg ''triggers'' rpc_list_triggers (\<lambda>ts.
     listing fg Doc_Entities ''No triggers found.'' entity_row (if all then ts else exclude_by_status Status_Suspended ts))"

definition cmd_list_actions :: "cli_env \<Rightarrow> flags \<Rightarrow> bool \<Rightarrow> daemon \<Rightarrow> outcome" where
  "cmd_list_actions env fg all = list_command env fg ''actions'' rpc_list_actions (\<lambda>as.
     listing fg Doc_Entities ''No actions found.'' entity_row (if all then as else exclude_by_status Status_Suspended as))"

definition cmd_list_groups :: "cli_env \<Rightarrow> flags \<Rightarrow> daemon \<Rightarrow> outcome" where
  "cmd_list_groups env fg = list_command env fg ''groups'' rpc_list_groups
     (listing fg Doc_Groups ''No groups found.'' (\<lambda>g. Out (pad_right 12 (take 8 (gs_id g)) @ '' '' @ pad_right 25 (gs_name g) @
        '' triggers='' @ itoa (gs_triggers g) @ '' actions='' @ itoa (gs_actions g))))"

definition cmd_list_plugins :: "cli_env \<Rightarrow> flags \<Rightarrow> daemon \<Rightarrow> outcome" where
  "cmd_list_plugins env fg = list_command env fg ''plugins'' rpc_list_plugins
     (listing fg Doc_Plugins ''No plugins found.'' (\<lambda>p. Out (pad_right 12 (take (min_len (length (ps_id p)) 8) (ps_id p)) @ '' '' @
        pad_right 20 (ps_name p) @ '' '' @ pad_right 30 (ps_namespace p) @ '' '' @ pad_right 8 (ps_version p) @ '' '' @
        pad_right 10 (status_word Status_Active) @ '' triggers='' @ itoa (ps_triggers p) @ '' actions='' @ itoa (ps_actions p))))"

definition cmd_list_recurfiles :: "cli_env \<Rightarrow> flags \<Rightarrow> daemon \<Rightarrow> outcome" where
  "cmd_list_recurfiles env fg = list_command env fg ''recurfiles'' rpc_list_recurfiles
     (listing fg Doc_Recurfiles ''No recurfiles found.'' (\<lambda>w. Out (pad_right 12 (take (min_len (length (rm_id w)) 8) (rm_id w)) @ '' '' @
        pad_right 40 (rm_path w) @ '' groups='' @ itoa (rm_groups w) @ '' triggers='' @ itoa (rm_triggers w) @
        '' actions='' @ itoa (rm_actions w))))"

section \<open>Inspecting\<close>

text \<open>An absolute path is cleaned, an existing file made absolute, anything else is an identifier.\<close>

definition resolve_path_identifier :: "cli_env \<Rightarrow> string \<Rightarrow> string" where
  "resolve_path_identifier env input =
     (if is_abs input then path_clean input
      else if ce_exists env input then (case ce_abs env input of Inr a \<Rightarrow> a | Inl _ \<Rightarrow> input)
      else input)"

definition inspect_command :: "cli_env \<Rightarrow> flags \<Rightarrow> string \<Rightarrow> string \<Rightarrow> string \<Rightarrow> daemon \<Rightarrow> outcome" where
  "inspect_command env fg what ident ty = with_daemon env fg (\<lambda>d.
     case ask env (rpc_inspect_entity (ce_fmt env) ident ty) d of
       Inl e \<Rightarrow> (case ambiguous_or_failed env ident (fg_json fg) what e of (err, out) \<Rightarrow> (err, out, d))
     | Inr x \<Rightarrow> (None, show_entity (ce_show env) (fg_json fg) (fg_verbose fg) x, d))"

definition cmd_inspect :: "cli_env \<Rightarrow> flags \<Rightarrow> string \<Rightarrow> daemon \<Rightarrow> outcome" where
  "cmd_inspect env fg arg = inspect_command env fg ''failed to inspect'' (resolve_path_identifier env arg) []"

definition cmd_inspect_trigger :: "cli_env \<Rightarrow> flags \<Rightarrow> string \<Rightarrow> daemon \<Rightarrow> outcome" where
  "cmd_inspect_trigger env fg arg = inspect_command env fg ''failed to inspect trigger'' arg ''trigger''"

definition cmd_inspect_action :: "cli_env \<Rightarrow> flags \<Rightarrow> string \<Rightarrow> daemon \<Rightarrow> outcome" where
  "cmd_inspect_action env fg arg = inspect_command env fg ''failed to inspect action'' arg ''action''"

definition cmd_inspect_group :: "cli_env \<Rightarrow> flags \<Rightarrow> string \<Rightarrow> daemon \<Rightarrow> outcome" where
  "cmd_inspect_group env fg arg = inspect_command env fg ''failed to inspect group'' arg ''group''"

definition cmd_inspect_plugin :: "cli_env \<Rightarrow> flags \<Rightarrow> string \<Rightarrow> daemon \<Rightarrow> outcome" where
  "cmd_inspect_plugin env fg arg = inspect_command env fg ''failed to inspect plugin'' arg ''plugin''"

definition cmd_inspect_recurfile :: "cli_env \<Rightarrow> flags \<Rightarrow> string \<Rightarrow> daemon \<Rightarrow> outcome" where
  "cmd_inspect_recurfile env fg arg =
     inspect_command env fg ''failed to inspect recurfile'' (resolve_path_identifier env arg) ''recurfile''"

end
