(* ===== verification/Stub.thy ===== *)
theory Stub
  imports Plugins
begin

text \<open>
  \<open>yaml/recurfile/stub.go\<close>: the YAML text of a new group, with the options of the plugin
  manifests filled in. A string builder is the string built so far.
\<close>

record stub_trigger =
  sb_type :: string
  sb_options :: "option_def list"

record stub_action =
  sa_type :: string
  sa_options :: "option_def list"
  sa_shorthand :: string

text \<open>An integral \<open>float64\<close> in the range of \<open>int\<close> prints as an integer.\<close>

definition format_default :: "fmt_env \<Rightarrow> gval \<Rightarrow> string" where
  "format_default fe v =
     (case v of
        VFloat m e \<Rightarrow>
          if float_is_int m e \<and> - (2 ^ 63) \<le> float_trunc m e \<and> float_trunc m e < 2 ^ 63 then itoa (float_trunc m e)
          else fmt_float fe m e
      | _ \<Rightarrow> fmt_v fe v)"

definition quote_yaml :: "string \<Rightarrow> string" where "quote_yaml s = go_quote s"

definition write_option :: "fmt_env \<Rightarrow> string \<Rightarrow> option_def \<Rightarrow> string" where
  "write_option fe indent opt =
     (if od_default opt \<noteq> VNil then
        let val = format_default fe (od_default opt) in
        if od_description opt \<noteq> []
        then indent @ ''# '' @ od_name opt @ '': '' @ quote_yaml val @ ''  # '' @ od_description opt @ nl
        else indent @ ''# '' @ od_name opt @ '': '' @ quote_yaml val @ nl
      else if od_description opt \<noteq> []
      then indent @ od_name opt @ '': '' @ dquote @ dquote @ ''  # '' @ od_description opt @ nl
      else indent @ od_name opt @ '': '' @ dquote @ dquote @ nl)"

definition shorthand_default :: "fmt_env \<Rightarrow> option_def list \<Rightarrow> string \<Rightarrow> string" where
  "shorthand_default fe os name =
     (case find (\<lambda>d. od_name d = name \<and> od_default d \<noteq> VNil) os of
        None \<Rightarrow> [] | Some opt \<Rightarrow> format_default fe (od_default opt))"

definition shorthand_description :: "option_def list \<Rightarrow> string \<Rightarrow> string" where
  "shorthand_description os name =
     (case find (\<lambda>d. od_name d = name) os of None \<Rightarrow> [] | Some opt \<Rightarrow> od_description opt)"

definition options_block :: "fmt_env \<Rightarrow> option_def list \<Rightarrow> string" where
  "options_block fe os = ''      options:'' @ nl @ concat (map (write_option fe ''        '') os)"

definition stub_trigger_text :: "fmt_env \<Rightarrow> stub_trigger \<Rightarrow> string" where
  "stub_trigger_text fe t = ''    - type: '' @ sb_type t @ nl @ (if sb_options t \<noteq> [] then options_block fe (sb_options t) else [])"

definition stub_action_text :: "fmt_env \<Rightarrow> stub_action \<Rightarrow> string" where
  "stub_action_text fe a =
     (if sa_shorthand a \<noteq> [] then
        let val = shorthand_default fe (sa_options a) (sa_shorthand a);
            desc = shorthand_description (sa_options a) (sa_shorthand a)
        in if desc \<noteq> [] then ''    - '' @ sa_type a @ '': '' @ quote_yaml val @ ''  # '' @ desc @ nl
           else ''    - '' @ sa_type a @ '': '' @ quote_yaml val @ nl
      else ''    - type: '' @ sa_type a @ nl @ (if sa_options a \<noteq> [] then options_block fe (sa_options a) else []))"

definition generate_group_stub :: "fmt_env \<Rightarrow> string \<Rightarrow> stub_trigger list \<Rightarrow> stub_action list \<Rightarrow> string" where
  "generate_group_stub fe name ts as =
     name @ '':'' @ nl @
     (if ts \<noteq> [] then ''  on:'' @ nl @ concat (map (stub_trigger_text fe) ts) else []) @
     (if as \<noteq> [] then ''  do:'' @ nl @ concat (map (stub_action_text fe) as) else [])"

section \<open>What the stub says\<close>

text \<open>A comment line of YAML: its first character that is no blank is a hash.\<close>

definition comment_line :: "string \<Rightarrow> bool" where
  "comment_line l \<longleftrightarrow> (case dropWhile (\<lambda>c. c = CHR '' '') l of [] \<Rightarrow> False | c # _ \<Rightarrow> c = CHR ''#'')"

definition active_lines :: "string \<Rightarrow> string list" where
  "active_lines s = filter (\<lambda>l. l \<noteq> [] \<and> \<not> comment_line l) (str_split (CHR 0x0A) s)"

definition text_of :: "string list \<Rightarrow> string" where
  "text_of ls = concat (map (\<lambda>l. l @ nl) ls)"

lemma text_of_simps [simp]:
  "text_of [] = []" "text_of (l # ls) = l @ nl @ text_of ls" "text_of (ls @ ms) = text_of ls @ text_of ms"
  by (simp_all add: text_of_def)

lemma text_of_concat: "text_of (concat (map f xs)) = concat (map (\<lambda>x. text_of (f x)) xs)"
  by (induction xs) simp_all

lemma str_split_line: "c \<notin> set l \<Longrightarrow> str_split c (l @ c # s) = l # str_split c s"
  by (induction l) auto

lemma active_lines_text:
  "list_all (\<lambda>l. CHR 0x0A \<notin> set l) ls \<Longrightarrow> active_lines (text_of ls) = filter (\<lambda>l. l \<noteq> [] \<and> \<not> comment_line l) ls"
  by (induction ls) (simp_all add: active_lines_def str_split_line)

definition option_line :: "fmt_env \<Rightarrow> option_def \<Rightarrow> string" where
  "option_line fe opt =
     ''        '' @ (if od_default opt \<noteq> VNil then ''# '' else []) @ od_name opt @ '': '' @
       (if od_default opt \<noteq> VNil then quote_yaml (format_default fe (od_default opt)) else dquote @ dquote) @
       (if od_description opt \<noteq> [] then ''  # '' @ od_description opt else [])"

definition option_lines :: "fmt_env \<Rightarrow> option_def list \<Rightarrow> string list" where
  "option_lines fe os = (if os \<noteq> [] then ''      options:'' # map (option_line fe) os else [])"

definition shorthand_line :: "fmt_env \<Rightarrow> stub_action \<Rightarrow> string" where
  "shorthand_line fe a =
     (let desc = shorthand_description (sa_options a) (sa_shorthand a) in
      ''    - '' @ sa_type a @ '': '' @ quote_yaml (shorthand_default fe (sa_options a) (sa_shorthand a)) @
        (if desc \<noteq> [] then ''  # '' @ desc else []))"

definition trigger_stub_lines :: "fmt_env \<Rightarrow> (option_def list \<Rightarrow> string list) \<Rightarrow> stub_trigger \<Rightarrow> string list" where
  "trigger_stub_lines fe ol t = (''    - type: '' @ sb_type t) # ol (sb_options t)"

definition action_stub_lines :: "fmt_env \<Rightarrow> (option_def list \<Rightarrow> string list) \<Rightarrow> stub_action \<Rightarrow> string list" where
  "action_stub_lines fe ol a =
     (if sa_shorthand a \<noteq> [] then [shorthand_line fe a] else (''    - type: '' @ sa_type a) # ol (sa_options a))"

definition stub_lines :: "fmt_env \<Rightarrow> (option_def list \<Rightarrow> string list) \<Rightarrow> string \<Rightarrow> stub_trigger list \<Rightarrow> stub_action list \<Rightarrow> string list" where
  "stub_lines fe ol name ts as = (name @ '':'') #
     (if ts \<noteq> [] then ''  on:'' # concat (map (trigger_stub_lines fe ol) ts) else []) @
     (if as \<noteq> [] then ''  do:'' # concat (map (action_stub_lines fe ol) as) else [])"

lemma write_option_line: "write_option fe ''        '' = (\<lambda>opt. option_line fe opt @ nl)"
  by (rule ext) (simp add: write_option_def option_line_def Let_def)

lemma options_block_lines: "(if os \<noteq> [] then options_block fe os else []) = text_of (option_lines fe os)"
  by (simp add: options_block_def option_lines_def write_option_line text_of_def comp_def)

lemma stub_text_lines: "generate_group_stub fe name ts as = text_of (stub_lines fe (option_lines fe) name ts as)"
proof -
  have t: "stub_trigger_text fe = (\<lambda>t. text_of (trigger_stub_lines fe (option_lines fe) t))"
    by (rule ext) (simp add: stub_trigger_text_def trigger_stub_lines_def options_block_lines)
  have a: "stub_action_text fe = (\<lambda>x. text_of (action_stub_lines fe (option_lines fe) x))"
    by (rule ext) (simp add: stub_action_text_def action_stub_lines_def shorthand_line_def options_block_lines Let_def)
  show ?thesis
    by (simp add: generate_group_stub_def stub_lines_def t a text_of_concat)
qed

definition plain_option :: "option_def \<Rightarrow> bool" where
  "plain_option opt \<longleftrightarrow> CHR 0x0A \<notin> set (od_name opt) \<union> set (od_description opt) \<and>
     od_name opt \<noteq> [] \<and> hd (od_name opt) \<notin> {CHR '' '', CHR ''#''}"

definition plain_type :: "string \<Rightarrow> bool" where
  "plain_type s \<longleftrightarrow> CHR 0x0A \<notin> set s"

definition required_lines :: "fmt_env \<Rightarrow> option_def list \<Rightarrow> string list" where
  "required_lines fe os = (if os \<noteq> [] then ''      options:'' # map (option_line fe) (filter (\<lambda>opt. od_default opt = VNil) os) else [])"

lemma comment_blank [simp]: "comment_line (CHR '' '' # l) = comment_line l"
  by (simp add: comment_line_def)

lemma comment_hash [simp]: "comment_line (CHR ''#'' # l)"
  by (simp add: comment_line_def)

lemma comment_other: "c \<noteq> CHR '' '' \<Longrightarrow> c \<noteq> CHR ''#'' \<Longrightarrow> \<not> comment_line (c # l)"
  by (simp add: comment_line_def)

lemma option_comment: "plain_option opt \<Longrightarrow> comment_line (option_line fe opt) \<longleftrightarrow> od_default opt \<noteq> VNil"
  by (cases "od_name opt") (auto simp: option_line_def plain_option_def comment_other)

lemma option_lines_active:
  assumes "list_all plain_option os"
  shows "filter (\<lambda>l. l \<noteq> [] \<and> \<not> comment_line l) (option_lines fe os) = required_lines fe os"
proof -
  have ne: "option_line fe opt \<noteq> []" for opt by (simp add: option_line_def)

  have "filter (\<lambda>l. l \<noteq> [] \<and> \<not> comment_line l) (map (option_line fe) os) = map (option_line fe) (filter (\<lambda>opt. od_default opt = VNil) os)"
    using assms by (induction os) (auto simp: ne option_comment)
  then show ?thesis by (simp add: option_lines_def required_lines_def comment_other)
qed

lemma option_lines_no_nl: "list_all plain_option os \<Longrightarrow> list_all (\<lambda>l. CHR 0x0A \<notin> set l) (option_lines fe os)"
  by (auto simp: option_lines_def list_all_iff option_line_def plain_option_def quote_yaml_def go_quote_no_nl split: if_splits)

lemma filter_concat_map: "filter P (concat (map f xs)) = concat (map (\<lambda>x. filter P (f x)) xs)"
  by (simp add: filter_concat comp_def)

lemma description_plain: "list_all plain_option os \<Longrightarrow> CHR 0x0A \<notin> set (shorthand_description os name)"
  by (auto simp: shorthand_description_def list_all_iff plain_option_def split: option.splits dest: find_Some_set [OF sym])


text \<open>A line feed in a description ends the comment: what follows becomes part of the recurfile.\<close>

definition folded_option :: option_def where
  "folded_option = \<lparr>od_name = ''tz'', od_type = ''string'', od_default = VStr ''UTC'', od_description = ''zone'' @ nl @ ''Extra:'',
     od_shorthand = False, od_sensitive = False\<rparr>"

lemma description_line_feed:
  "active_lines (write_option fe ''        '' folded_option) = [''Extra:'']"
  "active_lines (write_option fe ''        '' (folded_option\<lparr>od_description := ''zone''\<rparr>)) = []"
  by (simp_all add: write_option_def folded_option_def active_lines_def format_default_def quote_yaml_def go_quote_def quote_char_def comment_line_def)


end
