(* ===== verification/Suggest.thy ===== *)
theory Suggest
  imports Complex_Main Go_Runes
begin

text \<open>
  \<open>text/suggest.go\<close>, the "did you mean" suggestions of the command line: the edit distance computed
  with two rows, the similarity score and the close matches. The distance is proved to be the least
  number of insertions, deletions and substitutions.
\<close>

section \<open>The two rows\<close>

definition min3 :: "nat \<Rightarrow> nat \<Rightarrow> nat \<Rightarrow> nat" where
  "min3 a b c = (let m = (if b < a then b else a) in if c < m then c else m)"

text \<open>The inner loop: \<open>curr[1..]\<close> from the previous row and \<open>curr[j-1]\<close>.\<close>

fun next_row :: "'a \<Rightarrow> 'a list \<Rightarrow> nat list \<Rightarrow> nat \<Rightarrow> nat list" where
  "next_row x (y # ys) (p0 # p1 # ps) left =
     (let c = min3 (p1 + 1) (left + 1) (p0 + (if x = y then 0 else 1)) in c # next_row x ys (p1 # ps) c)"
| "next_row x _ _ left = []"

fun lev_rows :: "nat \<Rightarrow> 'a list \<Rightarrow> 'a list \<Rightarrow> nat list \<Rightarrow> nat list" where
  "lev_rows i [] ys prev = prev"
| "lev_rows i (x # xs) ys prev = lev_rows (i + 1) xs ys (i # next_row x ys prev i)"

definition levenshtein :: "'a list \<Rightarrow> 'a list \<Rightarrow> nat" where
  "levenshtein a b =
     (if length a = 0 then length b else if length b = 0 then length a
      else last (lev_rows 1 a b [0..<length b + 1]))"

section \<open>Scores\<close>

text \<open>
  The score is a rational here. In \<open>float64\<close> the comparisons with 0.6 and between scores come out the
  same for any strings below \<open>2^25\<close> bytes: two different scores, or a score and 0.6, differ by more
  than the rounding, and a score of exactly 3/5 rounds to the constant.
\<close>

definition similarity :: "string \<Rightarrow> string \<Rightarrow> rat" where
  "similarity a b =
     (if a = b then 1 else if length a = 0 \<or> length b = 0 then 0
      else 1 - of_nat (levenshtein (runes a) (runes b)) / of_nat (max (length a) (length b)))"

definition match_score :: "string \<Rightarrow> string \<Rightarrow> rat" where
  "match_score target c = similarity (to_lower target) (to_lower c)"

text \<open>Among equal scores \<open>sort.Slice\<close> promises no order; here they keep the order of the choices.\<close>

definition close_matches :: "string \<Rightarrow> string list \<Rightarrow> nat \<Rightarrow> string list" where
  "close_matches target choices n =
     (let scored = map (\<lambda>c. (c, match_score target c)) choices;
          ranked = sort_key (\<lambda>(c, s). - s) (filter (\<lambda>(c, s). 3 / 5 \<le> s) scored)
      in map fst (take n ranked))"

section \<open>The distance\<close>

text \<open>\<open>edits n xs ys\<close>: \<open>n\<close> insertions, deletions and substitutions turn \<open>xs\<close> into \<open>ys\<close>.\<close>

inductive edits :: "nat \<Rightarrow> 'a list \<Rightarrow> 'a list \<Rightarrow> bool" where
  Done: "edits 0 [] []"
| Keep: "edits n xs ys \<Longrightarrow> edits n (x # xs) (x # ys)"
| Substitute: "edits n xs ys \<Longrightarrow> edits (Suc n) (x # xs) (y # ys)"
| Insert: "edits n xs ys \<Longrightarrow> edits (Suc n) xs (y # ys)"
| Remove: "edits n xs ys \<Longrightarrow> edits (Suc n) (x # xs) ys"

inductive_cases edits_left_empty: "edits n [] ys"

fun ed_dist :: "'a list \<Rightarrow> 'a list \<Rightarrow> nat" where
  "ed_dist [] ys = length ys"
| "ed_dist xs [] = length xs"
| "ed_dist (x # xs) (y # ys) = min3 (ed_dist xs (y # ys) + 1) (ed_dist (x # xs) ys + 1) (ed_dist xs ys + (if x = y then 0 else 1))"

lemma min3_eq: "min3 a b c = min (min a b) c"
  by (auto simp: min3_def Let_def)

lemma dist_Nil [simp]: "ed_dist xs [] = length xs"
  by (cases xs) simp_all

lemma edits_inserts: "edits (length ys) [] ys"
  by (induction ys) (auto intro: edits.intros)

lemma edits_removes: "edits (length xs) xs []"
  by (induction xs) (auto intro: edits.intros)

lemma dist_edits: "edits (ed_dist xs ys) xs ys"
proof (induction xs ys rule: ed_dist.induct)
  case (3 x xs y ys)
  have "min3 a b c \<in> {a, b, c}" for a b c by (simp add: min3_eq min_def)
  then consider "ed_dist (x # xs) (y # ys) = Suc (ed_dist xs (y # ys))" | "ed_dist (x # xs) (y # ys) = Suc (ed_dist (x # xs) ys)"
    | "ed_dist (x # xs) (y # ys) = ed_dist xs ys + (if x = y then 0 else 1)"
    by (metis Suc_eq_plus1 ed_dist.simps(3) empty_iff insert_iff)
  then show ?case
    by cases (use 3 in \<open>auto intro: edits.intros split: if_splits simp del: ed_dist.simps\<close>)
next
  case (1 ys)
  show ?case by (simp add: edits_inserts)
next
  case (2 v va)
  show ?case using edits_removes [of "v # va"] by simp
qed

lemma dist_least: "edits n xs ys \<Longrightarrow> ed_dist xs ys \<le> n"
proof (induction rule: edits.induct)
  case (Insert n xs ys y)
  then show ?case by (cases xs) (auto simp: min3_eq)
next
  case (Remove n xs ys x)
  then show ?case by (cases ys) (auto simp: min3_eq)
qed (auto simp: min3_eq)

lemma edits_append: "edits n a b \<Longrightarrow> edits m c d \<Longrightarrow> edits (n + m) (a @ c) (b @ d)"
  by (induction rule: edits.induct) (auto intro: edits.intros)

lemma edits_rev: "edits n a b \<Longrightarrow> edits n (rev a) (rev b)"
proof (induction rule: edits.induct)
  case (Keep n xs ys x)
  from edits_append [OF this(2), of 0 "[x]" "[x]"] show ?case by (auto intro: edits.intros)
next
  case (Substitute n xs ys x y)
  from edits_append [OF this(2), of 1 "[x]" "[y]"] show ?case using edits.Substitute [OF edits.Done, of x y] by simp
next
  case (Insert n xs ys y)
  from edits_append [OF this(2), of 1 "[]" "[y]"] show ?case using edits.Insert [OF edits.Done, of y] by simp
next
  case (Remove n xs ys x)
  from edits_append [OF this(2), of 1 "[x]" "[]"] show ?case using edits.Remove [OF edits.Done, of x] by simp
qed (auto intro: edits.intros)

section \<open>The rows hold distances of prefixes\<close>

text \<open>The row of a reversed prefix \<open>ru\<close>: its distances to the prefixes, reversed, that end in \<open>ys\<close>.\<close>

fun row :: "'a list \<Rightarrow> 'a list \<Rightarrow> 'a list \<Rightarrow> nat list" where
  "row ru rv [] = [ed_dist ru rv]"
| "row ru rv (y # ys) = ed_dist ru rv # row ru (y # rv) ys"

lemma row_Cons: "row ru rv ys = ed_dist ru rv # tl (row ru rv ys)"
  by (cases ys) simp_all

lemma row_first: "row [] rv ys = [length rv..<length rv + length ys + 1]"
  by (induction ys arbitrary: rv) (auto simp: upt_conv_Cons simp del: upt_Suc)

lemma row_last: "last (row ru rv ys) = ed_dist ru (rev ys @ rv)"
  by (induction ys arbitrary: rv) (simp_all, metis list.distinct(1) row_Cons)

lemma next_row_row: "next_row x ys (row ru rv ys) (ed_dist (x # ru) rv) = tl (row (x # ru) rv ys)"
proof (induction ys arbitrary: rv)
  case (Cons y ys)
  obtain T where T: "row ru (y # rv) ys = ed_dist ru (y # rv) # T" using row_Cons by blast
  let ?c = "ed_dist (x # ru) (y # rv)"
  have "next_row x (y # ys) (row ru rv (y # ys)) (ed_dist (x # ru) rv) = ?c # next_row x ys (row ru (y # rv) ys) ?c"
    by (simp add: T Let_def)
  also have "\<dots> = row (x # ru) (y # rv) ys"
    unfolding Cons [of "y # rv"] by (rule row_Cons [symmetric])
  finally show ?case by simp
qed simp

lemma lev_rows_row: "lev_rows (length ru + 1) xs ys (row ru [] ys) = row (rev xs @ ru) [] ys"
proof (induction xs arbitrary: ru)
  case (Cons x xs)
  have "(length ru + 1) # next_row x ys (row ru [] ys) (length ru + 1) = row (x # ru) [] ys"
    using next_row_row [of x ys ru "[]"] row_Cons [of "x # ru" "[]" ys] by simp
  with Cons [of "x # ru"] show ?case by simp
qed simp

lemma levenshtein_dist: "levenshtein xs ys = ed_dist (rev xs) (rev ys)"
proof (cases "xs = [] \<or> ys = []")
  case False
  have "row [] [] ys = [0..<length ys + 1]" by (simp only: row_first) simp
  with lev_rows_row [of "[]" xs ys] have "lev_rows 1 xs ys [0..<length ys + 1] = row (rev xs) [] ys" by simp
  with False row_last [of "rev xs" "[]" ys] show ?thesis by (simp add: levenshtein_def)
qed (auto simp: levenshtein_def)

text \<open>
  C39: the two-row loop computes the edit distance: \<open>Levenshtein(a, b)\<close> insertions, deletions and
  substitutions turn \<open>a\<close> into \<open>b\<close>, and no fewer do.
\<close>

theorem levenshtein_least:
  "edits (levenshtein a b) a b \<and> (edits n a b \<longrightarrow> levenshtein a b \<le> n)"
  using dist_edits [of "rev a" "rev b"] edits_rev [of "ed_dist (rev a) (rev b)" "rev a" "rev b"]
    dist_least [OF edits_rev, of n a b] by (simp add: levenshtein_dist)

theorem levenshtein_least_witness:
  "levenshtein ''cron'' ''corn'' \<le> 2 \<and> edits (levenshtein ''cron'' ''corn'') ''cron'' ''corn''"
proof -
  have "edits 2 ''cron'' ''corn''"
    unfolding numeral_2_eq_2 by (intro edits.intros)
  with levenshtein_least [of "''cron''" "''corn''" 2] show ?thesis by blast
qed

section \<open>Close matches\<close>

lemma ed_dist_bound: "ed_dist xs ys \<le> max (length xs) (length ys)"
proof (induction xs ys rule: ed_dist.induct)
  case (3 x xs y ys)
  then show ?case by (auto simp: min3_eq)
qed auto

lemma similarity_range: "0 \<le> similarity a b \<and> similarity a b \<le> 1"
proof -
  let ?m = "max (length a) (length b)"
  have "levenshtein (runes a) (runes b) \<le> ?m"
    using ed_dist_bound [of "rev (runes a)" "rev (runes b)"] runes_length [of a] runes_length [of b]
    by (simp add: levenshtein_dist)
  then have "of_nat (levenshtein (runes a) (runes b)) / of_nat ?m \<le> (1 :: rat)"
    by (intro divide_le_eq_1_pos [THEN iffD2] divide_le_eq_1 [THEN iffD2]) (auto simp del: of_nat_max)
  then show ?thesis by (simp add: similarity_def del: of_nat_max)
qed

lemma match_score_fold: "equal_fold target c \<Longrightarrow> match_score target c = 1"
  by (simp add: match_score_def similarity_def equal_fold_def)

lemma take_sorted_le:
  assumes "sorted (map f xs)" "x \<in> set (take n xs)" "y \<in> set xs" "y \<notin> set (take n xs)"
  shows "f x \<le> f y"
proof -
  have "sorted (map f (take n xs @ drop n xs))" using assms(1) by simp
  moreover have "y \<in> set (drop n xs)" using assms(3,4) by (metis Un_iff append_take_drop_id set_append)
  ultimately show ?thesis using assms(2) by (auto simp: sorted_append simp del: append_take_drop_id)
qed

definition ranked :: "string \<Rightarrow> string list \<Rightarrow> string list" where
  "ranked target choices = sort_key (\<lambda>c. - match_score target c) (filter (\<lambda>c. 3 / 5 \<le> match_score target c) choices)"

lemma insort_key_map: "insort_key k (f x) (map f xs) = map f (insort_key (\<lambda>x. k (f x)) x xs)"
  by (induction xs) simp_all

lemma sort_key_map: "sort_key k (map f xs) = map f (sort_key (\<lambda>x. k (f x)) xs)"
  by (induction xs) (simp_all add: insort_key_map)

lemma close_matches_ranked: "close_matches target choices n = take n (ranked target choices)"
  by (simp add: close_matches_def ranked_def filter_map comp_def sort_key_map take_map)

text \<open>
  the suggestions are the best ones. At most \<open>n\<close> choices, each scoring at least 0.6, best first;
  a choice left out scores less than 0.6, or the list is full and nothing on it scores less. So a
  choice that differs from the target in case only scores 1, the best score there is.
\<close>

theorem close_matches_best:
  "let ms = close_matches target choices n in
    length ms \<le> n \<and> set ms \<subseteq> set choices \<and> list_all (\<lambda>m. 3 / 5 \<le> match_score target m) ms \<and>
    sorted_wrt (\<lambda>a b. match_score target b \<le> match_score target a) ms \<and>
    list_all (\<lambda>c. match_score target c \<le> 1 \<and> (equal_fold target c \<longrightarrow> match_score target c = 1) \<and>
      (c \<in> set ms \<or> match_score target c < 3 / 5 \<or>
       length ms = n \<and> list_all (\<lambda>m. match_score target c \<le> match_score target m) ms)) choices"
proof -
  let ?r = "ranked target choices" and ?f = "match_score target"
  have set_r: "set ?r = {c \<in> set choices. 3 / 5 \<le> ?f c}" by (auto simp: ranked_def)
  have sr: "sorted (map (\<lambda>c. - ?f c) ?r)" by (simp add: ranked_def)
  then have "sorted_wrt (\<lambda>a b. ?f b \<le> ?f a) ?r" by (simp add: sorted_map)
  then have sorted: "sorted_wrt (\<lambda>a b. ?f b \<le> ?f a) (take n ?r)"
    by (metis append_take_drop_id sorted_wrt_append)
  have rest: "length (take n ?r) = n \<and> list_all (\<lambda>m. ?f c \<le> ?f m) (take n ?r)"
    if "c \<in> set choices" "c \<notin> set (take n ?r)" "3 / 5 \<le> ?f c" for c
  proof -
    have c: "c \<in> set ?r" using that(1,3) set_r by simp
    with that(2) have "n < length ?r" by (metis not_le take_all)
    moreover have "?f c \<le> ?f m" if "m \<in> set (take n ?r)" for m
      using take_sorted_le [OF sr that c \<open>c \<notin> set (take n ?r)\<close>] by simp
    ultimately show ?thesis by (simp add: list_all_iff)
  qed
  have top: "?f c \<le> 1" for c using similarity_range by (simp add: match_score_def)
  show ?thesis
    unfolding close_matches_ranked Let_def
    using sorted set_r rest top match_score_fold by (auto simp: list_all_iff not_le dest: in_set_takeD)
qed

theorem close_matches_best_witness:
  "set (close_matches ''Corn'' [''cron'', ''CORN'', ''file''] 1) \<subseteq> {''cron'', ''CORN'', ''file''} \<and>
   length (close_matches ''Corn'' [''cron'', ''CORN'', ''file''] 1) \<le> 1"
  using close_matches_best [of "''Corn''" "[''cron'', ''CORN'', ''file'']" 1] by (simp add: Let_def)
end
