(* ===== verification/Cli_Files.thy ===== *)
theory Cli_Files
  imports Cli Recurfile_Merge Stub Suggest
begin

text \<open>
  The commands on recurfiles: \<open>register\<close>, \<open>verify\<close> and \<open>deregister\<close> (\<open>cli/register.go\<close>,
  \<open>cli/deregister.go\<close>) and \<open>add\<close> (\<open>cli/add.go\<close>), which writes a group into a recurfile.
\<close>

section \<open>Which recurfile\<close>

definition recurfile_name_pattern :: string where
  "recurfile_name_pattern = ''recurfile (case-insensitive) with optional .yaml or .yml extension''"

definition find_recurfile_here :: "cli_env \<Rightarrow> string result" where
  "find_recurfile_here env =
     (case ce_here env of
        Inl e \<Rightarrow> Inl (''could not read current directory: '' @ e)
      | Inr es \<Rightarrow>
          (case filter is_recurfile_name (map de_name (filter (\<lambda>e. \<not> de_is_dir e) es)) of
             [] \<Rightarrow> Inl (''no recurfile found in current directory (expected a file named '' @ recurfile_name_pattern @ '')'')
           | [n] \<Rightarrow> Inr n
           | found \<Rightarrow> Inl (''multiple recurfiles found: '' @ join_names found @ '' (specify one explicitly)'')))"

definition resolve_recurfile_path :: "cli_env \<Rightarrow> string option \<Rightarrow> string result" where
  "resolve_recurfile_path env arg =
     (case arg of
        Some path \<Rightarrow> if ce_exists env path then Inr path else Inl (''recurfile not found: '' @ path)
      | None \<Rightarrow> find_recurfile_here env)"

text \<open>A file, or the path of a recurfile that the daemon knows under this identifier.\<close>

definition resolve_recurfile_path_or_id :: "cli_env \<Rightarrow> flags \<Rightarrow> string option \<Rightarrow> daemon \<Rightarrow> string result" where
  "resolve_recurfile_path_or_id env fg args d =
     (case args of
        None \<Rightarrow> resolve_recurfile_path env None
      | Some arg \<Rightarrow>
          if ce_exists env arg then (case ce_abs env arg of Inl _ \<Rightarrow> Inr arg | Inr a \<Rightarrow> Inr a)
          else
            let missing = Inl (''recurfile not found: '' @ arg @ '' (not a file path or known recurfile ID)'') in
            if client_here env fg then
              (case ask env (rpc_inspect_entity (ce_fmt env) arg ''recurfile'') d of
                 Inr (Recurfile_Detail r) \<Rightarrow> if fl_path r \<noteq> [] then Inr (fl_path r) else missing
               | _ \<Rightarrow> missing)
            else missing)"

section \<open>Verifying\<close>

definition count_group :: "int \<times> int \<Rightarrow> raw_group \<Rightarrow> int \<times> int" where
  "count_group st g =
     (case st of (ts, as) \<Rightarrow>
        (ts + int (length (rg_triggers g)),
         foldl (\<lambda>n t. if rt_actions t \<noteq> [] then n + int (length (rt_actions t)) else n + int (length (rg_actions g)))
           as (rg_triggers g)))"

definition count_entities :: "raw_file \<Rightarrow> int \<times> int" where
  "count_entities f = foldl count_group (0, 0) (rf_groups f)"

definition local_warnings :: "raw_file \<Rightarrow> string list" where
  "local_warnings f = concat (map (\<lambda>g. List.map_filter (\<lambda>t.
     if rt_actions t = [] \<and> rg_actions g = []
     then Some (''group '' @ go_quote (rg_name g) @ '', trigger '' @ go_quote (rt_type t) @ '': no actions defined'')
     else None) (rg_triggers g)) (rf_groups f))"

text \<open>A nil slice is \<open>null\<close> in JSON.\<close>

definition json_strings :: "string list \<Rightarrow> gval" where
  "json_strings xs = (if xs = [] then VNil else VList (map VStr xs))"

definition print_verify_result :: "verify_result \<Rightarrow> bool \<Rightarrow> cli_error option \<times> written list" where
  "print_verify_result v json =
     (if vr_valid v then None else Some Validation_Failed,
      if json then [Json (Doc_Value (VMap [(''valid'', VBool (vr_valid v)), (''errors'', json_strings (vr_errors v)),
        (''warnings'', json_strings (vr_warnings v)), (''trigger_count'', VInt (vr_triggers v)),
        (''action_count'', VInt (vr_actions v))]))]
      else [Out (if vr_valid v then ''Valid'' else ''Invalid''), Out (''  Triggers: '' @ itoa (vr_triggers v)),
        Out (''  Actions:  '' @ itoa (vr_actions v))] @
        map (\<lambda>e. Out (''  Error: '' @ e)) (vr_errors v) @ map (\<lambda>w. Out (''  Warning: '' @ w)) (vr_warnings v))"

definition local_verify :: "raw_file \<Rightarrow> string \<Rightarrow> bool \<Rightarrow> written list" where
  "local_verify f path json =
     (case count_entities f of (tn, an) \<Rightarrow>
        if json then [Json (Doc_Value (VMap [(''valid'', VBool True), (''path'', VStr path), (''trigger_count'', VInt tn),
          (''action_count'', VInt an), (''warnings'', json_strings (local_warnings f))]))]
        else [Out (''Valid: '' @ path), Out (''  Groups:   '' @ itoa (int (length (rf_groups f)))),
          Out (''  Triggers: '' @ itoa tn), Out (''  Actions:  '' @ itoa an)] @
          map (\<lambda>w. Out (''  Warning: '' @ w)) (local_warnings f))"

text \<open>The daemon verifies the file if it can be reached; otherwise the file parsed here counts.\<close>

definition run_verify :: "cli_env \<Rightarrow> flags \<Rightarrow> raw_file \<Rightarrow> string \<Rightarrow> daemon \<Rightarrow> cli_error option \<times> written list" where
  "run_verify env fg f path d =
     (let fallback = (None, local_verify f path (fg_json fg)) in
      if client_here env fg then
        (case ask env (\<lambda>_. rpc_verify_recurfile (ce_world env) (or_zero (ce_abs env path))) d of
           Inr v \<Rightarrow> print_verify_result v (fg_json fg)
         | Inl _ \<Rightarrow> fallback)
      else fallback)"

section \<open>Registering\<close>

definition registered_rows :: "register_response \<Rightarrow> written list" where
  "registered_rows r =
     [Out ((if rg_reloaded r then ''Reloaded'' else ''Registered'') @ '': '' @ rg_path r @ '' (id: '' @ rg_id r @ '')''),
      Out (''  Triggers: '' @ itoa (rg_trigger_count r)), Out (''  Actions:  '' @ itoa (rg_action_count r))]"

definition run_register :: "cli_env \<Rightarrow> flags \<Rightarrow> string \<Rightarrow> daemon \<Rightarrow> outcome" where
  "run_register env fg path = with_daemon env fg (\<lambda>d.
     case call env (rpc_register_recurfile (ce_world env) (or_zero (ce_abs env path))) d of
       (Inl e, d1) \<Rightarrow> (Some (call_failed env ''registration failed'' e), [], d1)
     | (Inr r, d1) \<Rightarrow>
         (None,
          if fg_quiet fg then []
          else if fg_json fg then
            [Json (Doc_Value (VMap [(''id'', VStr (rg_id r)), (''path'', VStr (rg_path r)), (''trigger_count'', VInt (rg_trigger_count r)),
               (''action_count'', VInt (rg_action_count r)), (''warnings'', json_strings (rg_warnings r)),
               (''reloaded'', VBool (rg_reloaded r))]))]
          else registered_rows r @ map (\<lambda>w. Out (''  Warning: '' @ w)) (rg_warnings r), d1))"

definition cmd_register :: "cli_env \<Rightarrow> flags \<Rightarrow> bool \<Rightarrow> string option \<Rightarrow> daemon \<Rightarrow> outcome" where
  "cmd_register env fg verify_only args d =
     (case resolve_recurfile_path_or_id env fg args d of
        Inl e \<Rightarrow> (Some (Cli_Error e), [], d)
      | Inr path \<Rightarrow>
          (case load_file (ce_world env) path of
             Inl e \<Rightarrow> (Some (Cli_Error e), [], d)
           | Inr f \<Rightarrow>
               if verify_only then (case run_verify env fg f path d of (err, out) \<Rightarrow> (err, out, d))
               else run_register env fg path d))"

definition cmd_verify :: "cli_env \<Rightarrow> flags \<Rightarrow> string option \<Rightarrow> daemon \<Rightarrow> outcome" where
  "cmd_verify env fg args d =
     (case resolve_recurfile_path env args of
        Inl e \<Rightarrow> (Some (Cli_Error e), [], d)
      | Inr path \<Rightarrow>
          (case load_file (ce_world env) path of
             Inl e \<Rightarrow> (Some (Cli_Error e), [], d)
           | Inr f \<Rightarrow> (case run_verify env fg f path d of (err, out) \<Rightarrow> (err, out, d))))"

definition cmd_deregister :: "cli_env \<Rightarrow> flags \<Rightarrow> string option \<Rightarrow> daemon \<Rightarrow> outcome" where
  "cmd_deregister env fg args = with_daemon env fg (\<lambda>d.
     case (case args of Some a \<Rightarrow> Inr a | None \<Rightarrow> resolve_recurfile_path env None) of
       Inl e \<Rightarrow> (Some (Cli_Error e), [], d)
     | Inr input \<Rightarrow>
         let ident = resolve_path_identifier env input in
         (case call env (rpc_deregister_recurfile (ce_world env) ident) d of
            (Inl e, d1) \<Rightarrow> (case ambiguous_or_failed env ident (fg_json fg) ''deregistration failed'' e of (err, out) \<Rightarrow> (err, out, d1))
          | (Inr (i, path, tn, an), d1) \<Rightarrow>
              (None,
               if fg_quiet fg then []
               else if fg_json fg then
                 [Json (Doc_Value (VMap [(''id'', VStr i), (''path'', VStr path), (''triggers_removed'', VInt tn), (''actions_removed'', VInt an)]))]
               else [Out (''Deregistered: '' @ path @ '' (id: '' @ i @ '')''), Out (''  Triggers removed: '' @ itoa tn),
                 Out (''  Actions removed:  '' @ itoa an)], d1)))"

section \<open>Adding a group\<close>

record add_flags =
  ga_local :: "bool option"
  ga_user :: bool
  ga_triggers :: string
  ga_actions :: string
  ga_edit :: bool
  ga_stub :: bool

text \<open>
  \<open>ga_local\<close> is the value of \<open>--local\<close> where it was given. Adding needs the configuration directory,
  the absolute form of the local file, the plugins on disk, the editor (the content of the temporary
  file after it, or what failed) and the failure to read an existing file; \<open>an_grow\<close> is the
  growth of slices.
\<close>

record add_env =
  an_config_dir :: "string result"
  an_local :: "string result"
  an_plugins :: "installed_plugin list"
  an_edit :: "string \<Rightarrow> string result"
  an_read :: "string option"
  an_grow :: "nat \<Rightarrow> nat \<Rightarrow> nat"

definition resolve_add_target :: "add_env \<Rightarrow> bool \<Rightarrow> string result" where
  "resolve_add_target ae user =
     (if user then map_sum id (\<lambda>dir. path_join dir ''Recurfile.yaml'') (an_config_dir ae)
      else wrap_err ''could not resolve path: '' (an_local ae))"

definition resolve_group_name :: "string list \<Rightarrow> bool \<Rightarrow> string" where
  "resolve_group_name args user =
     (case args of a # _ # _ \<Rightarrow> a | _ \<Rightarrow> if user then ''User'' else ''Local'')"

definition split_csv :: "string \<Rightarrow> string list" where
  "split_csv s = (if s = [] then [] else filter (\<lambda>p. p \<noteq> []) (map trim_space (str_split CHR '','' s)))"

definition collect_triggers :: "string list \<Rightarrow> string \<Rightarrow> string list" where
  "collect_triggers args csv = (case args of [] \<Rightarrow> [] | [a] \<Rightarrow> [a] | _ # b # _ \<Rightarrow> [b]) @ split_csv csv"

definition format_unknown_type :: "string \<Rightarrow> string \<Rightarrow> string list \<Rightarrow> string" where
  "format_unknown_type kind name known =
     (let suggestions = close_matches name known 3 in
      if suggestions \<noteq> []
      then ''unknown '' @ kind @ '' type '' @ go_quote name @ '' (did you mean: '' @ str_join '', '' suggestions @ ''?)''
      else ''unknown '' @ kind @ '' type '' @ go_quote name)"

definition validate_known_types :: "string list \<Rightarrow> string list \<Rightarrow> installed_plugin list \<Rightarrow> string option" where
  "validate_known_types triggers actions ps =
     (let dps = domain_all ps; (ut, ua) = unknown_types dps triggers actions in
      if ut = [] \<and> ua = [] then None
      else Some (str_join nl (map (\<lambda>t. format_unknown_type ''trigger'' t (known_trigger_names dps)) ut @
        map (\<lambda>a. format_unknown_type ''action'' a (known_action_names dps)) ua)))"

definition resolve_stub_triggers :: "string list \<Rightarrow> installed_plugin list \<Rightarrow> stub_trigger list" where
  "resolve_stub_triggers types ps = map (\<lambda>tt. \<lparr>sb_type = tt,
     sb_options = (case List.map_filter (\<lambda>p. find_trigger_definition p tt) ps of [] \<Rightarrow> [] | def # _ \<Rightarrow> td_options def)\<rparr>) types"

definition resolve_stub_actions :: "string list \<Rightarrow> installed_plugin list \<Rightarrow> stub_action list" where
  "resolve_stub_actions names ps = map (\<lambda>name.
     (case find (\<lambda>p. find_action_definition p name \<noteq> None) ps of
        None \<Rightarrow> \<lparr>sa_type = name, sa_options = [], sa_shorthand = []\<rparr>
      | Some p \<Rightarrow> \<lparr>sa_type = name, sa_options = (case find_action_definition p name of None \<Rightarrow> [] | Some def \<Rightarrow> ad_options def),
          sa_shorthand = fst (find_shorthand_option p name)\<rparr>)) names"

definition run_editor :: "add_env \<Rightarrow> string \<Rightarrow> string result" where
  "run_editor ae content =
     (case an_edit ae content of
        Inl e \<Rightarrow> Inl e
      | Inr data \<Rightarrow> let r = trim_space data in Inr (if r = [] then [] else r @ nl))"

definition parse_text :: "cli_env \<Rightarrow> string \<Rightarrow> raw_file result" where
  "parse_text env = parse_recurfile (wd_yaml (ce_world env)) (wd_decode (ce_world env))"

definition merge_fragment :: "cli_env \<Rightarrow> add_env \<Rightarrow> string \<Rightarrow> string \<Rightarrow> dir \<Rightarrow> string result" where
  "merge_fragment env ae target fragment disk =
     (case an_read ae of
        Some e \<Rightarrow> Inl (''could not read existing recurfile: '' @ e)
      | None \<Rightarrow>
          (case map_of disk (path_base target) of
             None \<Rightarrow> Inr fragment
           | Some existing \<Rightarrow> merge (parse_text env) (ce_fmt env) (an_grow ae) existing fragment))"

text \<open>The daemon that registers the file reads what was just written.\<close>

definition auto_register :: "cli_env \<Rightarrow> flags \<Rightarrow> string \<Rightarrow> string \<Rightarrow> daemon \<Rightarrow> written list \<times> daemon" where
  "auto_register env fg target text d =
     (case resolve_socket_path env fg of
        Inl _ \<Rightarrow> ([], d)
      | Inr addr \<Rightarrow>
          if \<not> connect_or_nil env addr
          then ([Out (''Hint: daemon is not running. Register later with: recur register '' @ target)], d)
          else
            let w = (ce_world env)\<lparr>wd_read := (wd_read (ce_world env))(target := Inr text)\<rparr> in
            (case call env (rpc_register_recurfile w (or_zero (ce_abs env target))) d of
               (Inl e, d1) \<Rightarrow> ([Out (''Warning: could not register with daemon: '' @ ce_call_text env e)], d1)
             | (Inr r, d1) \<Rightarrow> (registered_rows r, d1)))"

text \<open>The fragment: generated, and edited where the user asks for it or gives nothing to generate.\<close>

definition stub_fragment :: "cli_env \<Rightarrow> add_env \<Rightarrow> add_flags \<Rightarrow> string list \<Rightarrow> string list \<Rightarrow> string list \<Rightarrow> string" where
  "stub_fragment env ae ga args triggers actions =
     (case (if ga_stub ga then (resolve_stub_triggers triggers (an_plugins ae), resolve_stub_actions actions (an_plugins ae))
            else (map (\<lambda>t. \<lparr>sb_type = t, sb_options = []\<rparr>) triggers,
                  map (\<lambda>a. \<lparr>sa_type = a, sa_options = [], sa_shorthand = []\<rparr>) actions)) of
        (sts, sas) \<Rightarrow> generate_group_stub (ce_fmt env) (resolve_group_name args (ga_user ga)) sts sas)"

text \<open>What follows once the fragment is there: parse it, merge it, parse the result, write it, register it.\<close>

definition write_fragment :: "cli_env \<Rightarrow> flags \<Rightarrow> add_env \<Rightarrow> string \<Rightarrow> string \<Rightarrow> daemon \<Rightarrow> dir \<Rightarrow> outcome \<times> dir" where
  "write_fragment env fg ae target fragment d disk =
     (case parse_text env fragment of
        Inl e \<Rightarrow> ((Some (Cli_Error (''invalid recurfile fragment: '' @ e)), [], d), disk)
      | Inr _ \<Rightarrow>
          (case merge_fragment env ae target fragment disk of
             Inl e \<Rightarrow> ((Some (Cli_Error e), [], d), disk)
           | Inr merged \<Rightarrow>
               (case parse_text env merged of
                  Inl e \<Rightarrow> ((Some (Cli_Error (''merged recurfile is invalid: '' @ e)), [], d), disk)
                | Inr _ \<Rightarrow>
                    (case af_write (wd_os (ce_world env)) target (wd_stamp (ce_world env)) merged disk of
                       (Some e, disk1) \<Rightarrow> ((Some (Cli_Error (''failed to write recurfile: '' @ e)), [], d), disk1)
                     | (None, disk1) \<Rightarrow>
                         (case auto_register env fg target merged d of
                            (out, d1) \<Rightarrow> ((None, Out (''Wrote: '' @ target) # out, d1), disk1))))))"

definition cmd_add :: "cli_env \<Rightarrow> flags \<Rightarrow> add_env \<Rightarrow> add_flags \<Rightarrow> string list \<Rightarrow> daemon \<Rightarrow> dir \<Rightarrow> outcome \<times> dir" where
  "cmd_add env fg ae ga args d disk =
     (let failed = (\<lambda>e. ((Some (Cli_Error e), [], d), disk)) in
      if ga_user ga \<and> ga_local ga = Some True then failed ''--local and --user are mutually exclusive''
      else case resolve_add_target ae (ga_user ga) of
        Inl e \<Rightarrow> failed e
      | Inr target \<Rightarrow>
          let triggers = collect_triggers args (ga_triggers ga); actions = split_csv (ga_actions ga) in
          (case validate_known_types triggers actions (an_plugins ae) of
             Some e \<Rightarrow> failed e
           | None \<Rightarrow>
               let stub = stub_fragment env ae ga args triggers actions in
               if ga_edit ga \<or> triggers = [] \<and> actions = [] then
                 (case run_editor ae stub of
                    Inl e \<Rightarrow> failed e
                  | Inr fragment \<Rightarrow>
                      if fragment = [] then ((None, [Out ''Cancelled.''], d), disk)
                      else write_fragment env fg ae target fragment d disk)
               else write_fragment env fg ae target stub d disk))"

end
