(* ===== verification/Urls.thy ===== *)
theory Urls
  imports Archive
begin

text \<open>
  The sources of bundles and plugins that are URLs: what \<open>HostFromURL\<close>, \<open>Download\<close> (\<open>fs/plugin/archive.go\<close>)
  and \<open>bundleStem\<close> use of \<open>net/url\<close>, for URLs that begin with \<open>http://\<close> or \<open>https://\<close>, as \<open>IsURL\<close>
  demands. Hosts in brackets (IP literals), which the versions of the library treat differently,
  are an argument \<open>lit\<close>: the host and port in brackets form, or the error.
\<close>

section \<open>Unescaping\<close>

definition unhex :: "char \<Rightarrow> nat option" where
  "unhex c =
     (if is_digit c then Some (ord c - 48)
      else if 97 \<le> ord c \<and> ord c \<le> 102 then Some (ord c - 87)
      else if 65 \<le> ord c \<and> ord c \<le> 70 then Some (ord c - 55)
      else None)"

definition ascii_letter :: "char \<Rightarrow> bool" where
  "ascii_letter c \<longleftrightarrow> 97 \<le> ord c \<and> ord c \<le> 122 \<or> 65 \<le> ord c \<and> ord c \<le> 90"

text \<open>The ASCII characters that may stand in a host as they are.\<close>

definition host_char :: "char \<Rightarrow> bool" where
  "host_char c \<longleftrightarrow> ascii_letter c \<or> is_digit c \<or> c \<in> set ''!$&()*+,;=:[]<>-_.~'' \<or> ord c = 34 \<or> ord c = 39"

text \<open>\<open>unescape\<close>, for a host or for another part: the decoded text, or the error of its first fault.\<close>

fun unescape :: "bool \<Rightarrow> string \<Rightarrow> string result" where
  "unescape host [] = Inr []"
| "unescape host (c # s) =
     (if c = CHR ''%'' then
        (case s of
           a # b # t \<Rightarrow>
             (case (unhex a, unhex b) of
                (Some x, Some y) \<Rightarrow>
                  if host \<and> x < 8 \<and> \<not> (a = CHR ''2'' \<and> b = CHR ''5'') then Inl (''invalid URL escape '' @ go_quote [c, a, b])
                  else map_sum id (\<lambda>r. char_of (16 * x + y) # r) (unescape host t)
              | _ \<Rightarrow> Inl (''invalid URL escape '' @ go_quote [c, a, b]))
         | _ \<Rightarrow> Inl (''invalid URL escape '' @ go_quote (c # s)))
      else if host \<and> ord c < 128 \<and> \<not> host_char c then Inl (''invalid character '' @ go_quote [c] @ '' in host name'')
      else map_sum id (\<lambda>r. c # r) (unescape host s))"

section \<open>Parsing\<close>

definition split_last :: "char \<Rightarrow> string \<Rightarrow> (string \<times> string) option" where
  "split_last c s =
     (if c \<in> set s then
        (let b = takeWhile (\<lambda>x. x \<noteq> c) (rev s) in Some (take (length s - Suc (length b)) s, rev b))
      else None)"

definition valid_optional_port :: "string \<Rightarrow> bool" where
  "valid_optional_port p \<longleftrightarrow> p = [] \<or> hd p = CHR '':'' \<and> list_all is_digit (tl p)"

definition userinfo_char :: "char \<Rightarrow> bool" where
  "userinfo_char c \<longleftrightarrow> ascii_letter c \<or> is_digit c \<or> c \<in> set ''-._:~!$&()*+,;=%@'' \<or> ord c = 39"

definition parse_host :: "(string \<Rightarrow> string result) \<Rightarrow> string \<Rightarrow> string result" where
  "parse_host lit h =
     (if CHR ''['' \<in> set h then lit h
      else case split_last CHR '':'' h of
        Some (_, p) \<Rightarrow>
          if valid_optional_port (CHR '':'' # p) then unescape True h
          else Inl (''invalid port '' @ go_quote (CHR '':'' # p) @ '' after host'')
      | None \<Rightarrow> unescape True h)"

text \<open>The user information itself is not used; it is checked, and it can be what is wrong.\<close>

definition parse_authority :: "(string \<Rightarrow> string result) \<Rightarrow> string \<Rightarrow> string result" where
  "parse_authority lit a =
     (case split_last CHR ''@'' a of
        None \<Rightarrow> parse_host lit a
      | Some (user, h) \<Rightarrow>
          (case parse_host lit h of
             Inl e \<Rightarrow> Inl e
           | Inr host \<Rightarrow>
               if \<not> list_all userinfo_char user then Inl ''net/url: invalid userinfo''
               else (case split2 CHR '':'' user of (name, pw) \<Rightarrow>
                 (case unescape False name of
                    Inl e \<Rightarrow> Inl e
                  | Inr _ \<Rightarrow> (case unescape False (case pw of None \<Rightarrow> [] | Some p \<Rightarrow> p) of Inl e \<Rightarrow> Inl e | Inr _ \<Rightarrow> Inr host)))))"

text \<open>\<open>url.Parse\<close>: the host with its port, and the decoded path.\<close>

definition parse_url :: "(string \<Rightarrow> string result) \<Rightarrow> string \<Rightarrow> (string \<times> string) result" where
  "parse_url lit raw =
     (case split2 CHR ''#'' raw of (u, frag) \<Rightarrow>
        let failed = (\<lambda>url e. Inl (''parse '' @ go_quote url @ '': '' @ e));
            rest = drop 2 (fst (split2 CHR ''?'' (case snd (split2 CHR '':'' u) of None \<Rightarrow> [] | Some r \<Rightarrow> r)));
            (authority, path) = (takeWhile (\<lambda>c. c \<noteq> CHR ''/'') rest, dropWhile (\<lambda>c. c \<noteq> CHR ''/'') rest)
        in if list_ex (\<lambda>c. ord c < 32 \<or> ord c = 127) u then failed u ''net/url: invalid control character in URL''
           else case parse_authority lit authority of
             Inl e \<Rightarrow> failed u e
           | Inr host \<Rightarrow>
               (case unescape False path of
                  Inl e \<Rightarrow> failed u e
                | Inr p \<Rightarrow>
                    (case unescape False (case frag of None \<Rightarrow> [] | Some f \<Rightarrow> f) of
                       Inl e \<Rightarrow> failed raw e
                     | Inr _ \<Rightarrow> Inr (host, p))))"

text \<open>\<open>URL.Hostname\<close>: without the port and the brackets.\<close>

definition hostname :: "string \<Rightarrow> string" where
  "hostname hp =
     (let h = (case split_last CHR '':'' hp of
            Some (a, p) \<Rightarrow> if valid_optional_port (CHR '':'' # p) then a else hp
          | None \<Rightarrow> hp)
      in if h \<noteq> [] \<and> hd h = CHR ''['' \<and> last h = CHR '']'' then butlast (tl h) else h)"

section \<open>The host and the download\<close>

definition host_from_url :: "(string \<Rightarrow> string result) \<Rightarrow> string \<Rightarrow> string result" where
  "host_from_url lit raw =
     (case parse_url lit raw of
        Inl e \<Rightarrow> Inl e
      | Inr (hp, _) \<Rightarrow>
          if hostname hp = [] then Inl (''no host in URL: '' @ raw) else Inr (hostname hp))"

text \<open>
  \<open>ht_get\<close> is the response of the HTTP client, its status and body, \<open>ht_temp\<close> makes a temporary file for a
  pattern, \<open>ht_save\<close> is what fails when the body is copied into it.
\<close>

record http_env =
  ht_lit :: "string \<Rightarrow> string result"
  ht_get :: "string \<Rightarrow> (int \<times> string) result"
  ht_temp :: "string \<Rightarrow> string result"
  ht_save :: "string \<Rightarrow> string option"

definition download :: "http_env \<Rightarrow> string \<Rightarrow> string result" where
  "download ht raw =
     (case ht_get ht raw of
        Inl e \<Rightarrow> Inl (''download failed: '' @ e)
      | Inr (status, body) \<Rightarrow>
          if status \<noteq> 200 then Inl (''download failed: HTTP '' @ itoa status)
          else case parse_url (ht_lit ht) raw of
            Inl e \<Rightarrow> Inl (''invalid URL: '' @ e)
          | Inr (_, path) \<Rightarrow>
              let b = path_base path; base = (if b \<in> {[], ''.'', ''/''} then ''plugin-download'' else b) in
              (case ht_temp ht (''recur-download-*-'' @ base) of
                 Inl e \<Rightarrow> Inl (''creating temp file: '' @ e)
               | Inr name \<Rightarrow> (case ht_save ht name of Some e \<Rightarrow> Inl (''saving download: '' @ e) | None \<Rightarrow> Inr name)))"

section \<open>The host that is checked\<close>

text \<open>The parts of an ordinary URL: characters that mean nothing to the parser.\<close>

definition plain_char :: "char \<Rightarrow> bool" where
  "plain_char c \<longleftrightarrow> ascii_letter c \<or> is_digit c \<or> c \<in> set ''-._~''"

lemma not_plain [simp]:
  "\<not> plain_char CHR ''%''" "\<not> plain_char CHR ''#''" "\<not> plain_char CHR ''?''" "\<not> plain_char CHR ''/''" "\<not> plain_char CHR '':''" "\<not> plain_char CHR ''@''" "\<not> plain_char CHR ''[''"
  by (simp_all add: plain_char_def ascii_letter_def is_digit_def)

lemma not_digit [simp]:
  "\<not> is_digit CHR ''%''" "\<not> is_digit CHR ''#''" "\<not> is_digit CHR ''?''" "\<not> is_digit CHR ''/''" "\<not> is_digit CHR '':''" "\<not> is_digit CHR ''@''" "\<not> is_digit CHR ''[''"
  by (simp_all add: is_digit_def)

lemma plain_host: "plain_char c \<Longrightarrow> host_char c"
proof -
  have "set ''-._~'' \<subseteq> set ''!$&()*+,;=:[]<>-_.~''" by simp
  then show "plain_char c \<Longrightarrow> host_char c" unfolding plain_char_def host_char_def by blast
qed

lemma plain_userinfo: "plain_char c \<or> c \<in> set '':@'' \<Longrightarrow> userinfo_char c"
proof -
  have "set ''-._~'' \<subseteq> set ''-._:~!$&()*+,;=%@''" "set '':@'' \<subseteq> set ''-._:~!$&()*+,;=%@''" by simp_all
  then show "plain_char c \<or> c \<in> set '':@'' \<Longrightarrow> userinfo_char c" unfolding plain_char_def userinfo_char_def by blast
qed

lemma unescape_plain: "list_all (\<lambda>c. c \<noteq> CHR ''%'' \<and> (host \<longrightarrow> host_char c)) s \<Longrightarrow> unescape host s = Inr s"
  by (induction s) auto

lemma split_last_Some: "c \<notin> set b \<Longrightarrow> split_last c (a @ c # b) = Some (a, b)"
  by (simp add: split_last_def takeWhile_append Let_def)

lemma split_last_None: "c \<notin> set s \<Longrightarrow> split_last c s = None"
  by (simp add: split_last_def)

lemma split2_none: "c \<notin> set s \<Longrightarrow> split2 c s = (s, None)"
  by (induction s) auto

definition user_part :: "string \<Rightarrow> bool" where
  "user_part s \<longleftrightarrow> s = [] \<or> last s = CHR ''@'' \<and> list_all (\<lambda>c. plain_char c \<or> c \<in> set '':@'') (butlast s)"

definition port_part :: "string \<Rightarrow> bool" where
  "port_part s \<longleftrightarrow> s = [] \<or> hd s = CHR '':'' \<and> list_all is_digit (tl s)"

definition path_part :: "string \<Rightarrow> bool" where
  "path_part s \<longleftrightarrow> s = [] \<or> hd s = CHR ''/'' \<and> list_all (\<lambda>c. plain_char c \<or> c \<in> set ''/:@'') (tl s)"

definition query_part :: "string \<Rightarrow> bool" where
  "query_part s \<longleftrightarrow> s = [] \<or> hd s = CHR ''?'' \<and> list_all (\<lambda>c. c \<noteq> CHR ''#'' \<and> 32 \<le> ord c \<and> ord c \<noteq> 127) (tl s)"

lemma digit_host: "is_digit c \<Longrightarrow> host_char c"
  by (simp add: host_char_def)

lemma plain_printable: "plain_char c \<Longrightarrow> 32 \<le> ord c \<and> ord c < 127"
  by (auto simp: plain_char_def ascii_letter_def is_digit_def)

lemma digit_printable: "is_digit c \<Longrightarrow> 32 \<le> ord c \<and> ord c < 127"
  by (simp add: is_digit_def)

text \<open>What the parts are made of, character by character.\<close>

lemma list_all_parts:
  "s \<noteq> [] \<Longrightarrow> P (hd s) \<Longrightarrow> list_all P (tl s) \<Longrightarrow> c \<in> set s \<Longrightarrow> P c"
  "s \<noteq> [] \<Longrightarrow> P (last s) \<Longrightarrow> list_all P (butlast s) \<Longrightarrow> c \<in> set s \<Longrightarrow> P c"
  by (cases s; simp add: list_all_iff; blast) (cases s rule: rev_cases; simp add: list_all_iff; blast)

lemma user_chars: "user_part s \<Longrightarrow> c \<in> set s \<Longrightarrow> plain_char c \<or> c \<in> set '':@''"
  using list_all_parts(2) [of s "\<lambda>c. plain_char c \<or> c \<in> set '':@''" c] unfolding user_part_def by (cases "s = []") auto

lemma port_chars: "port_part s \<Longrightarrow> c \<in> set s \<Longrightarrow> is_digit c \<or> c = CHR '':''"
  using list_all_parts(1) [of s "\<lambda>c. is_digit c \<or> c = CHR '':''" c] unfolding port_part_def list_all_iff by (cases "s = []") auto

lemma path_chars: "path_part s \<Longrightarrow> c \<in> set s \<Longrightarrow> plain_char c \<or> c \<in> set ''/:@''"
  using list_all_parts(1) [of s "\<lambda>c. plain_char c \<or> c \<in> set ''/:@''" c] unfolding path_part_def by (cases "s = []") auto

lemma query_chars: "query_part s \<Longrightarrow> c \<in> set s \<Longrightarrow> c \<noteq> CHR ''#'' \<and> 32 \<le> ord c \<and> ord c \<noteq> 127"
  using list_all_parts(1) [of s "\<lambda>c. c \<noteq> CHR ''#'' \<and> 32 \<le> ord c \<and> ord c \<noteq> 127" c] unfolding query_part_def by (cases "s = []") auto

lemma host_port_chars:
  "list_all plain_char host \<Longrightarrow> port_part port \<Longrightarrow> c \<in> set (host @ port) \<Longrightarrow> plain_char c \<or> is_digit c \<or> c = CHR '':''"
  using port_chars [of port c] by (auto simp: list_all_iff)

lemma parse_host_plain:
  assumes "list_all plain_char host" "port_part port"
  shows "parse_host lit (host @ port) = Inr (host @ port)"
proof -
  note ch = host_port_chars [OF assms]
  have "CHR ''['' \<notin> set (host @ port)" by (rule notI) (drule ch, simp)
  moreover have "unescape True (host @ port) = Inr (host @ port)"
  proof (rule unescape_plain)
    have "c \<noteq> CHR ''%'' \<and> host_char c" if "c \<in> set (host @ port)" for c
      using ch [OF that] by (auto simp: plain_host digit_host) (simp_all add: host_char_def)
    then show "list_all (\<lambda>c. c \<noteq> CHR ''%'' \<and> (True \<longrightarrow> host_char c)) (host @ port)" by (simp add: list_all_iff)
  qed
  moreover have "split_last CHR '':'' (host @ port) = (if port = [] then None else Some (host, tl port))"
  proof (cases port)
    case Nil
    have "CHR '':'' \<notin> set host" using assms(1) by (auto simp: list_all_iff)
    with Nil show ?thesis by (simp add: split_last_None)
  next
    case (Cons x p)
    then have p: "x = CHR '':''" "list_all is_digit p" using assms(2) by (auto simp: port_part_def)
    then have "CHR '':'' \<notin> set p" by (auto simp: list_all_iff)
    with Cons p show ?thesis by (simp add: split_last_Some)
  qed
  ultimately show ?thesis
    using assms(2) by (auto simp: parse_host_def valid_optional_port_def port_part_def)
qed

lemma unescape_user: "list_all (\<lambda>c. plain_char c \<or> c \<in> set '':@'') u \<Longrightarrow> set t \<subseteq> set u \<Longrightarrow> unescape False t = Inr t"
  by (rule unescape_plain) (auto simp: list_all_iff dest!: subsetD)

lemma parse_authority_plain:
  assumes "user_part user" "list_all plain_char host" "port_part port"
  shows "parse_authority lit (user @ host @ port) = Inr (host @ port)"
proof -
  note h = parse_host_plain [OF assms(2,3), of lit]
  have at: "CHR ''@'' \<notin> set (host @ port)" by (rule notI) (drule host_port_chars [OF assms(2,3)], simp)
  show ?thesis
  proof (cases user rule: rev_cases)
    case Nil
    with h at show ?thesis by (simp add: parse_authority_def split_last_None)
  next
    case (snoc u x)
    then have u: "x = CHR ''@''" "list_all (\<lambda>c. plain_char c \<or> c \<in> set '':@'') u" using assms(1) by (auto simp: user_part_def)
    have s: "split_last CHR ''@'' (user @ host @ port) = Some (u, host @ port)"
      using split_last_Some [OF at, of u] by (simp add: snoc u(1))
    have v: "list_all userinfo_char u"
      using u(2) plain_userinfo unfolding list_all_iff by blast
    obtain n pw where np: "split2 CHR '':'' u = (n, pw)" by fastforce
    have sub: "set n \<subseteq> set u" "\<And>p. pw = Some p \<Longrightarrow> set p \<subseteq> set u"
      using np split2_SomeD [of "CHR '':''" u n] by (auto simp: split2_eq dest: set_takeWhileD)
    note unescape_user [OF u(2)]
    with s v h np sub show ?thesis
      by (auto simp: parse_authority_def split: option.split)
  qed
qed

lemma plain_rest:
  assumes "user_part user" "list_all plain_char host" "port_part port"
  shows "c \<in> set (user @ host @ port) \<Longrightarrow> plain_char c \<or> c \<in> set '':@''"
  using user_chars [OF assms(1)] port_chars [OF assms(3)] assms(2) by (auto simp: list_all_iff plain_char_def)

text \<open>Where such a URL is cut: no fragment, no control character, the scheme, the query and the path.\<close>

lemma plain_url_cuts:
  assumes s: "scheme = ''http://'' \<or> scheme = ''https://''"
    and all: "list_all (\<lambda>c. plain_char c \<or> c \<in> set '':@'') auth" and p: "path_part path" and q: "query_part query"
  shows "CHR ''#'' \<notin> set (scheme @ auth @ path @ query)"
    and "\<not> list_ex (\<lambda>c. ord c < 32 \<or> ord c = 127) (scheme @ auth @ path @ query)"
    and "snd (split2 CHR '':'' (scheme @ auth @ path @ query)) = Some (''//'' @ auth @ path @ query)"
    and "fst (split2 CHR ''?'' (''//'' @ auth @ path @ query)) = ''//'' @ auth @ path"
proof -
  have au: "plain_char c \<or> c \<in> set '':@''" if "c \<in> set auth" for c using all that by (auto simp: list_all_iff)
  have ap: "plain_char c \<or> c \<in> set ''/:@''" if "c \<in> set (auth @ path)" for c
    using au [of c] path_chars [OF p, of c] that by auto
  show "CHR ''#'' \<notin> set (scheme @ auth @ path @ query)"
    using ap [of "CHR ''#''"] query_chars [OF q, of "CHR ''#''"] s by auto
  show "\<not> list_ex (\<lambda>c. ord c < 32 \<or> ord c = 127) (scheme @ auth @ path @ query)"
  proof -
    have "32 \<le> ord c \<and> ord c \<noteq> 127" if "c \<in> set (auth @ path @ query)" for c
      using ap [of c] query_chars [OF q, of c] plain_printable [of c] that by auto
    moreover have "32 \<le> ord c \<and> ord c \<noteq> 127" if "c \<in> set scheme" for c using s that by auto
    ultimately show ?thesis unfolding list_ex_iff by fastforce
  qed
  show "snd (split2 CHR '':'' (scheme @ auth @ path @ query)) = Some (''//'' @ auth @ path @ query)"
    using s by auto
  show "fst (split2 CHR ''?'' (''//'' @ auth @ path @ query)) = ''//'' @ auth @ path"
  proof -
    have n: "CHR ''?'' \<notin> set (''//'' @ auth @ path)" using ap [of "CHR ''?''"] by auto
    show ?thesis
    proof (cases query)
      case Nil
      with split2_none [OF n] show ?thesis by simp
    next
      case (Cons x t)
      with q have "x = CHR ''?''" by (simp add: query_part_def)
      with Cons split2_Some [OF n, of t] show ?thesis by simp
    qed
  qed
qed

lemma plain_url_path:
  assumes all: "list_all (\<lambda>c. plain_char c \<or> c \<in> set '':@'') auth" and p: "path_part path"
  shows "takeWhile (\<lambda>c. c \<noteq> CHR ''/'') (auth @ path) = auth" "dropWhile (\<lambda>c. c \<noteq> CHR ''/'') (auth @ path) = path"
proof -
  have au: "plain_char c \<or> c \<in> set '':@''" if "c \<in> set auth" for c using all that by (auto simp: list_all_iff)
  have n: "\<And>c. c \<in> set auth \<Longrightarrow> c \<noteq> CHR ''/''" using au by fastforce
  have "path = [] \<or> hd path = CHR ''/''" using p by (auto simp: path_part_def)
  with n show "takeWhile (\<lambda>c. c \<noteq> CHR ''/'') (auth @ path) = auth" "dropWhile (\<lambda>c. c \<noteq> CHR ''/'') (auth @ path) = path"
    by (cases path; simp add: takeWhile_append2 dropWhile_append2)+
qed

lemma parse_url_plain:
  assumes s: "scheme = ''http://'' \<or> scheme = ''https://''"
    and a: "user_part user" "list_all plain_char host" "port_part port" and p: "path_part path" and q: "query_part query"
  shows "parse_url lit (scheme @ user @ host @ port @ path @ query) = Inr (host @ port, path)"
proof -
  define auth where "auth = user @ host @ port"
  have au: "list_all (\<lambda>c. plain_char c \<or> c \<in> set '':@'') auth"
    using plain_rest [OF a] unfolding auth_def list_all_iff by blast
  have url: "scheme @ user @ host @ port @ path @ query = scheme @ auth @ path @ query" by (simp add: auth_def)
  note cuts = plain_url_cuts [OF s au p q] and slash = plain_url_path [OF au p]
  have drop_path: "drop 2 (''//'' @ auth @ path) = auth @ path" by simp
  have up: "unescape False path = Inr path"
  proof (rule unescape_plain)
    show "list_all (\<lambda>c. c \<noteq> CHR ''%'' \<and> (False \<longrightarrow> host_char c)) path" using path_chars [OF p] by (fastforce simp: list_all_iff)
  qed
  have pa: "parse_authority lit auth = Inr (host @ port)" unfolding auth_def by (rule parse_authority_plain [OF a])
  show ?thesis
    unfolding url parse_url_def split2_none [OF cuts(1)]
    by (simp only: cuts(2-4) slash pa up prod.case option.case sum.case Let_def snd_conv fst_conv if_False drop_path unescape.simps)
qed

lemma hostname_plain:
  assumes "list_all plain_char host" "port_part port"
  shows "hostname (host @ port) = host"
proof -
  have n: "CHR '':'' \<notin> set host" "CHR ''['' \<notin> set host" using assms(1) by (auto simp: list_all_iff)
  then have b: "(host \<noteq> [] \<and> hd host = CHR ''['' \<and> last host = CHR '']'') = False" by (cases host) auto
  have c: "(case split_last CHR '':'' (host @ port) of Some (a, p) \<Rightarrow> if valid_optional_port (CHR '':'' # p) then a else host @ port
      | None \<Rightarrow> host @ port) = host"
  proof (cases port)
    case Nil
    with n show ?thesis by (simp add: split_last_None)
  next
    case (Cons x p)
    then have p: "x = CHR '':''" "list_all is_digit p" using assms(2) by (auto simp: port_part_def)
    then have "CHR '':'' \<notin> set p" by (auto simp: list_all_iff)
    with Cons p show ?thesis by (simp add: split_last_Some valid_optional_port_def)
  qed
  show ?thesis unfolding hostname_def Let_def c b by simp
qed

definition ordinary_url :: "string \<Rightarrow> string \<Rightarrow> bool" where
  "ordinary_url host url \<longleftrightarrow> (\<exists>scheme user port path query. (scheme = ''http://'' \<or> scheme = ''https://'') \<and> user_part user \<and>
     port_part port \<and> path_part path \<and> query_part query \<and> url = scheme @ user @ host @ port @ path @ query)"

lemma host_from_ordinary_url:
  assumes "ordinary_url host url" "list_all plain_char host" "host \<noteq> []"
  shows "host_from_url lit url = Inr host"
proof -
  obtain scheme user port path query where u: "scheme = ''http://'' \<or> scheme = ''https://''" "user_part user" "port_part port"
      "path_part path" "query_part query" "url = scheme @ user @ host @ port @ path @ query"
    using assms(1) unfolding ordinary_url_def by blast
  have "parse_url lit url = Inr (host @ port, path)"
    unfolding u(6) by (rule parse_url_plain [OF u(1,2) assms(2) u(3,4,5)])
  with assms(3) hostname_plain [OF assms(2) u(3)] show ?thesis by (simp add: host_from_url_def)
qed

lemma ordinary_is_url: "ordinary_url host url \<Longrightarrow> is_url url"
  unfolding ordinary_url_def is_url_def by (elim exE conjE disjE) simp_all

end
