(* ===== verification/Cli_Apps.thy ===== *)
theory Cli_Apps
  imports Cli_Files Urls
begin

text \<open>
  App bundles and plugins on the command line: \<open>cli/app.go\<close> (pack, install, list and remove apps)
  and \<open>cli/plugin.go\<close> (install and uninstall plugins). The file system is the one of \<open>Archive\<close>;
  the HTTP client (\<open>Urls\<close>), archive formats, the answer of the user and failing system calls are the environment.
  A downloaded file lies outside the directories that are modelled, and is removed again.
\<close>

text \<open>
  \<open>pe_temp\<close> is the fresh directory of \<open>os.MkdirTemp\<close>; \<open>pe_zip\<close> and \<open>pe_tar\<close> read an archive;
  \<open>pe_http\<close> is the HTTP client and its temporary files; \<open>pe_answer\<close> is the line read from
  standard input; \<open>pe_stuck\<close> and \<open>pe_rename\<close> are the failures of \<open>os.RemoveAll\<close> and \<open>os.Rename\<close>.
\<close>

record app_env =
  pe_io :: io_env
  pe_app_dir :: "string result"
  pe_temp :: "string result"
  pe_zip :: "string \<Rightarrow> ar_entry list result"
  pe_tar :: "string \<Rightarrow> (ar_entry list \<times> string option) result"
  pe_http :: http_env
  pe_answer :: string
  pe_stuck :: "string \<Rightarrow> string option"
  pe_rename :: "string option"
  pe_discover :: "fsys \<Rightarrow> installed_plugin list"
  pe_load :: "fsys \<Rightarrow> string \<Rightarrow> installed_plugin result"
  pe_symlink :: "string option"
  pe_plugins_dir :: "string result"
  pe_cwd :: string

text \<open>The commands' daemon reads the files as the command has left them.\<close>

definition world_on :: "fsys \<Rightarrow> world \<Rightarrow> world" where
  "world_on fs w = w\<lparr>wd_read := (\<lambda>p. case map_of (fs_files fs) p of Some c \<Rightarrow> Inr c | None \<Rightarrow> wd_read w p)\<rparr>"

definition remove_tree :: "app_env \<Rightarrow> string \<Rightarrow> fsys \<Rightarrow> string option \<times> fsys" where
  "remove_tree pe d fs = (case pe_stuck pe d of Some e \<Rightarrow> (Some e, fs) | None \<Rightarrow> (None, remove_all d fs))"

text \<open>\<open>os.Rename\<close> of a directory to a path that does not exist.\<close>

definition move_path :: "string \<Rightarrow> string \<Rightarrow> string \<Rightarrow> string" where
  "move_path src dst p = (if inside src p then dst @ drop (length src) p else p)"

definition move_dir :: "string \<Rightarrow> string \<Rightarrow> fsys \<Rightarrow> fsys" where
  "move_dir src dst fs = \<lparr>fs_files = map (apfst (move_path src dst)) (fs_files fs),
     fs_dirs = map (move_path src dst) (fs_dirs fs), fs_links = map (apfst (move_path src dst)) (fs_links fs)\<rparr>"

section \<open>Sources\<close>

text \<open>
  What is written and the path of the source, or the error. Without a readable configuration the store
  is nil, and asking it panics.
\<close>

definition check_host :: "cli_env \<Rightarrow> app_env \<Rightarrow> string \<Rightarrow> cli_error + string" where
  "check_host env pe source =
     (case host_from_url (ht_lit (pe_http pe)) source of
        Inl e \<Rightarrow> Inl (Cli_Error e)
      | Inr host \<Rightarrow>
          (case ce_config env of
             Inl _ \<Rightarrow> Inl Cli_Panic
           | Inr (s, _) \<Rightarrow>
               if is_host_allowed (fst (st_get s)) host then Inr host
               else Inl (Cli_Error (''host '' @ go_quote host @
                 '' is not in allowed_hosts (configure with: recur config set allowed_hosts '' @ go_quote host @ '')''))))"

definition resolve_bundle_source :: "cli_env \<Rightarrow> app_env \<Rightarrow> string \<Rightarrow> fsys \<Rightarrow> (cli_error + string) \<times> written list" where
  "resolve_bundle_source env pe source fs =
     (if is_url source then
        (case check_host env pe source of
           Inl e \<Rightarrow> (Inl e, [])
         | Inr host \<Rightarrow> (map_sum Cli_Error id (download (pe_http pe) source), [Out (''Downloading from '' @ host @ ''...'')]))
      else
        let a = (case ce_abs env source of Inl _ \<Rightarrow> source | Inr a \<Rightarrow> a) in
        (if path_exists fs a then Inr a else Inl (Cli_Error (''bundle not found: '' @ source)), []))"

definition prefix_error :: "string \<Rightarrow> cli_error \<Rightarrow> cli_error" where
  "prefix_error p e = (case e of Cli_Error m \<Rightarrow> Cli_Error (p @ m) | _ \<Rightarrow> e)"

section \<open>Names of apps\<close>

definition bundle_stem :: "app_env \<Rightarrow> string \<Rightarrow> string" where
  "bundle_stem pe source =
     (let b = (if is_url source then (case parse_url (ht_lit (pe_http pe)) source of Inr (_, p) \<Rightarrow> p | Inl _ \<Rightarrow> source) else source)
      in trim_suffix (path_base b) ''.recur'')"

definition default_app_name :: "app_env \<Rightarrow> string \<Rightarrow> string \<Rightarrow> string" where
  "default_app_name pe recurfile source =
     (let stem = trim_suffix (path_base recurfile) (path_ext recurfile) in
      if \<not> equal_fold stem ''recurfile'' then stem else bundle_stem pe source)"

definition bad_app_name :: "string \<Rightarrow> bool" where
  "bad_app_name name \<longleftrightarrow> name = [] \<or> name = ''.'' \<or> name = ''..'' \<or> CHR ''/'' \<in> set name \<or> CHR 0x5C \<in> set name"

definition validate_app_name :: "string \<Rightarrow> string option" where
  "validate_app_name name =
     (if bad_app_name name then Some (''invalid app name '' @ go_quote name @ '' (pass a valid name with --name)'') else None)"

definition confirm_overwrite :: "app_env \<Rightarrow> bool" where
  "confirm_overwrite pe \<longleftrightarrow> (let answer = to_lower (trim_space (pe_answer pe)) in answer = ''y'' \<or> answer = ''yes'')"

section \<open>Installing an app\<close>

text \<open>Unpacking into the staging directory: the recurfile found there, or the error.\<close>

definition find_recurfile_on :: "fsys \<Rightarrow> string \<Rightarrow> string result" where
  "find_recurfile_on fs dir = find_recurfile_in dir (Inr (dir_entries dir fs))"

definition stage_bundle :: "app_env \<Rightarrow> string \<Rightarrow> string \<Rightarrow> fsys \<Rightarrow> string result \<times> fsys" where
  "stage_bundle pe bundle staging fs =
     (case unpack (pe_io pe) bundle (pe_zip pe bundle) staging (fs\<lparr>fs_dirs := staging # fs_dirs fs\<rparr>) of
        (Some e, fs1) \<Rightarrow> (Inl (''install failed: '' @ e), fs1)
      | (None, fs1) \<Rightarrow> (wrap_err ''install failed: '' (find_recurfile_on fs1 staging), fs1))"

text \<open>
  Replacing what is installed under the name, if anything; \<open>None\<close> in the result: the user declined.
\<close>

definition place_app :: "app_env \<Rightarrow> bool \<Rightarrow> string \<Rightarrow> string \<Rightarrow> string \<Rightarrow> fsys \<Rightarrow> string option result \<times> written list \<times> fsys" where
  "place_app pe force name staging dest fs =
     (let asks = path_exists fs dest \<and> \<not> force;
          prompt = (if asks then [Prompt (''App '' @ go_quote name @ '' already exists. Overwrite? [y/N]: '')] else [])
      in if asks \<and> \<not> confirm_overwrite pe then (Inr None, prompt @ [Out ''Aborted.''], fs)
         else case (if path_exists fs dest then remove_tree pe dest fs else (None, fs)) of
           (Some e, fs1) \<Rightarrow> (Inl (''could not replace existing app '' @ go_quote name @ '': '' @ e), prompt, fs1)
         | (None, fs1) \<Rightarrow>
             (case pe_rename pe of
                Some e \<Rightarrow> (Inl (''could not install app '' @ go_quote name @ '': '' @ e), prompt, fs1)
              | None \<Rightarrow> (Inr (Some dest), prompt, move_dir staging dest fs1)))"

definition installed_rows :: "flags \<Rightarrow> string \<Rightarrow> string \<Rightarrow> register_response \<Rightarrow> written list" where
  "installed_rows fg name dest r =
     (if fg_quiet fg then []
      else if fg_json fg then
        [Json (Doc_Value (VMap [(''name'', VStr name), (''id'', VStr (rg_id r)), (''path'', VStr dest),
           (''trigger_count'', VInt (rg_trigger_count r)), (''action_count'', VInt (rg_action_count r))]))]
      else [Out (''Installed app '' @ go_quote name @ '' (id: '' @ rg_id r @ '')''), Out (''  Path:     '' @ dest),
        Out (''  Triggers: '' @ itoa (rg_trigger_count r)), Out (''  Actions:  '' @ itoa (rg_action_count r))])"

definition register_app :: "cli_env \<Rightarrow> flags \<Rightarrow> string \<Rightarrow> string \<Rightarrow> string \<Rightarrow> fsys \<Rightarrow> daemon \<Rightarrow> outcome" where
  "register_app env fg name dest recurfile fs d =
     (case connect env (or_zero (resolve_socket_path env fg)) of
        Inl _ \<Rightarrow> (None, unless_quiet fg [Out (''Installed app '' @ go_quote name @ '' to '' @ dest),
           Out ''Hint: daemon is not running. The app will be registered on next start.''], d)
      | Inr _ \<Rightarrow>
          (case call env (rpc_register_recurfile (world_on fs (ce_world env)) (path_join dest (path_base recurfile))) d of
             (Inl e, d1) \<Rightarrow> (Some (Cli_Error (''app installed to '' @ dest @ '' but registration failed: '' @ ce_call_text env e)), [], d1)
           | (Inr r, d1) \<Rightarrow> (None, installed_rows fg name dest r, d1)))"

text \<open>From the staged recurfile on; the staging directory is removed when the command returns.\<close>

definition app_name :: "app_env \<Rightarrow> string \<Rightarrow> string \<Rightarrow> string \<Rightarrow> string" where
  "app_name pe name_flag recurfile source = (if name_flag = [] then default_app_name pe recurfile source else name_flag)"

definition install_staged :: "cli_env \<Rightarrow> flags \<Rightarrow> app_env \<Rightarrow> bool \<Rightarrow> string \<Rightarrow> string \<Rightarrow> string \<Rightarrow> string \<Rightarrow> daemon \<Rightarrow> fsys \<Rightarrow>
    outcome \<times> fsys" where
  "install_staged env fg pe force name base staging recurfile d fs =
     (case validate_app_name name of
        Some e \<Rightarrow> ((Some (Cli_Error e), [], d), fs)
      | None \<Rightarrow>
          (case place_app pe force name staging (path_join base name) fs of
             (Inl e, out, fs1) \<Rightarrow> ((Some (Cli_Error e), out, d), fs1)
           | (Inr None, out, fs1) \<Rightarrow> ((None, out, d), fs1)
           | (Inr (Some dest), out, fs1) \<Rightarrow>
               (case register_app env fg name dest recurfile fs1 d of (err, out1, d1) \<Rightarrow> ((err, out @ out1, d1), fs1))))"

definition cmd_app_install :: "cli_env \<Rightarrow> flags \<Rightarrow> app_env \<Rightarrow> string \<Rightarrow> bool \<Rightarrow> string \<Rightarrow> daemon \<Rightarrow> fsys \<Rightarrow> outcome \<times> fsys" where
  "cmd_app_install env fg pe name_flag force source d fs =
     (case resolve_bundle_source env pe source fs of
        (Inl e, out) \<Rightarrow> ((Some (prefix_error ''install failed: '' e), out, d), fs)
      | (Inr bundle, out) \<Rightarrow>
          (case pe_app_dir pe of
             Inl e \<Rightarrow> ((Some (Cli_Error e), out, d), fs)
           | Inr base \<Rightarrow>
               (case pe_temp pe of
                  Inl e \<Rightarrow> ((Some (Cli_Error e), out, d), fs)
                | Inr staging \<Rightarrow>
                    (case (case stage_bundle pe bundle staging fs of
                             (Inl e, fs1) \<Rightarrow> ((Some (Cli_Error e), [], d), fs1)
                           | (Inr recurfile, fs1) \<Rightarrow>
                               install_staged env fg pe force (app_name pe name_flag recurfile source) base staging recurfile d fs1) of
                       ((err, out1, d1), fs1) \<Rightarrow> ((err, out @ out1, d1), snd (remove_tree pe staging fs1))))))"

section \<open>Packing, listing and removing apps\<close>

text \<open>The bundle's path and entries, if packing succeeds.\<close>

definition cmd_app_pack :: "cli_env \<Rightarrow> flags \<Rightarrow> string \<Rightarrow> string \<Rightarrow> fsys \<Rightarrow>
    cli_error option \<times> written list \<times> (string \<times> ar_entry list) option" where
  "cmd_app_pack env fg src output fs =
     (let trimmed = rev (dropWhile (\<lambda>c. c = CHR ''/'' \<or> c = CHR 0x5C) (rev src)) in
      case (if output = [] then map_sum id (\<lambda>a. path_base a @ ''.recur'') (ce_abs env trimmed) else Inr output) of
        Inl e \<Rightarrow> (Some (Cli_Error e), [], None)
      | Inr out \<Rightarrow>
          (case pack src fs of
             Inl e \<Rightarrow> (Some (Cli_Error (''pack failed: '' @ e)), [], None)
           | Inr es \<Rightarrow> (None, unless_quiet fg [Out (''Packed '' @ src @ '' -> '' @ out)], Some (out, es))))"

definition registered_paths :: "cli_env \<Rightarrow> flags \<Rightarrow> daemon \<Rightarrow> string list" where
  "registered_paths env fg d =
     (if client_here env fg then
        (case ask env (\<lambda>d. Inr (rpc_list_recurfiles d)) d of
           Inl _ \<Rightarrow> []
         | Inr ws \<Rightarrow> map (\<lambda>w. path_clean (rm_path w)) ws)
      else [])"

definition installed_apps :: "string list \<Rightarrow> string \<Rightarrow> fsys \<Rightarrow> (string \<times> string \<times> bool) list" where
  "installed_apps known base fs = List.map_filter (\<lambda>e.
     if \<not> de_is_dir e \<or> has_prefix (de_name e) ''.'' then None
     else let dir = path_join base (de_name e) in
       (case find_recurfile_on fs dir of
          Inl _ \<Rightarrow> None
        | Inr rf \<Rightarrow> Some (de_name e, dir, path_clean rf \<in> set known))) (dir_entries base fs)"

definition cmd_app_list :: "cli_env \<Rightarrow> flags \<Rightarrow> app_env \<Rightarrow> daemon \<Rightarrow> fsys \<Rightarrow> cli_error option \<times> written list" where
  "cmd_app_list env fg pe d fs =
     (case pe_app_dir pe of
        Inl e \<Rightarrow> (Some (Cli_Error e), [])
      | Inr base \<Rightarrow>
          let apps = installed_apps (registered_paths env fg d) base fs in
          (None,
           if fg_json fg then
             [Json (Doc_Value (if apps = [] then VNil else VList (map (\<lambda>(n, p, r). VMap [(''name'', VStr n), (''path'', VStr p),
                (''registered'', VBool r)]) apps)))]
           else if apps = [] then [Out ''No apps installed.'']
           else map (\<lambda>(n, p, r). Out (pad_right 20 n @ '' '' @ pad_right 14 (if r then ''registered'' else ''not registered'') @
             '' '' @ p)) apps))"

definition cmd_app_remove :: "cli_env \<Rightarrow> flags \<Rightarrow> app_env \<Rightarrow> string \<Rightarrow> daemon \<Rightarrow> fsys \<Rightarrow> outcome \<times> fsys" where
  "cmd_app_remove env fg pe name d fs =
     (case validate_app_name name of
        Some e \<Rightarrow> ((Some (Cli_Error e), [], d), fs)
      | None \<Rightarrow>
          (case pe_app_dir pe of
             Inl e \<Rightarrow> ((Some (Cli_Error e), [], d), fs)
           | Inr base \<Rightarrow>
               let dir = path_join base name in
               if \<not> path_exists fs dir then ((Some (Cli_Error (''app '' @ go_quote name @ '' is not installed'')), [], d), fs)
               else
                 let d1 = (case find_recurfile_on fs dir of
                             Inl _ \<Rightarrow> d
                           | Inr rf \<Rightarrow> if client_here env fg
                                      then snd (call env (rpc_deregister_recurfile (ce_world env) rf) d) else d) in
                 (case remove_tree pe dir fs of
                    (Some e, fs1) \<Rightarrow> ((Some (Cli_Error (''could not remove app '' @ go_quote name @ '': '' @ e)), [], d1), fs1)
                  | (None, fs1) \<Rightarrow> ((None, unless_quiet fg [Out (''Removed app '' @ go_quote name)], d1), fs1))))"

section \<open>Plugins\<close>

definition resolve_plugin_source :: "cli_env \<Rightarrow> app_env \<Rightarrow> string \<Rightarrow> bool \<Rightarrow> fsys \<Rightarrow>
    (cli_error + string) \<times> written list \<times> fsys" where
  "resolve_plugin_source env pe source link fs =
     (let extract = (\<lambda>path. extract_archive (pe_io pe) (pe_tar pe path) (pe_zip pe path) (or_zero (pe_temp pe)) path fs) in
      if is_url source then
        (if link then (Inl (Cli_Error ''--link cannot be used with URLs''), [], fs)
         else case check_host env pe source of
           Inl e \<Rightarrow> (Inl e, [], fs)
         | Inr host \<Rightarrow>
             let note = [Out (''Downloading from '' @ host @ ''...'')] in
             (case download (pe_http pe) source of
                Inl e \<Rightarrow> (Inl (Cli_Error e), note, fs)
              | Inr archive \<Rightarrow> (case extract archive of (r, fs1) \<Rightarrow> (map_sum Cli_Error id r, note, fs1))))
      else
        let a = or_zero (ce_abs env source) in
        if is_archive a then
          (if link then (Inl (Cli_Error ''--link cannot be used with archives''), [], fs)
           else case extract a of (r, fs1) \<Rightarrow> (map_sum Cli_Error id r, [], fs1))
        else (Inr a, [], fs))"

definition install_mode :: "bool \<Rightarrow> string \<Rightarrow> string" where
  "install_mode link source =
     (if link then ''linked'' else if is_url source then ''downloaded'' else if is_archive source then ''extracted''
      else ''copied'')"

definition plugin_row :: "bool \<Rightarrow> string \<Rightarrow> string \<Rightarrow> string \<Rightarrow> string \<Rightarrow> written" where
  "plugin_row link source name namespace version =
     Out (''Installed ('' @ install_mode link source @ ''): '' @ name @ '' ('' @ namespace @ '') v'' @ version)"

definition cmd_plugin_install :: "cli_env \<Rightarrow> flags \<Rightarrow> app_env \<Rightarrow> bool \<Rightarrow> string \<Rightarrow> daemon \<Rightarrow> fsys \<Rightarrow> outcome \<times> fsys" where
  "cmd_plugin_install env fg pe link source d fs =
     (case resolve_plugin_source env pe source link fs of
        (Inl e, out, fs1) \<Rightarrow> ((Some (prefix_error ''install failed: '' e), out, d), fs1)
      | (Inr src, out, fs1) \<Rightarrow>
          (case install (pe_io pe) (pe_load pe) (pe_symlink pe) (pe_cwd pe) (pe_plugins_dir pe) src link fs1 of
             (Inl e, fs2) \<Rightarrow> ((Some (Cli_Error (''install failed: '' @ e)), out, d), fs2)
           | (Inr p, fs2) \<Rightarrow>
               let warned = out @ map (\<lambda>w. Out (''Warning: '' @ w)) (check_conflicts (pe_discover pe fs2)) in
               if require_daemon env fg \<noteq> None then
                 ((None, warned @ unless_quiet fg [plugin_row link source (mf_name (ip_manifest p)) (mf_namespace (ip_manifest p))
                      (mf_version (ip_manifest p)), Out ''Hint: daemon is not running. Plugin will be loaded on next start.''], d), fs2)
               else
                 (case call env (rpc_install_plugin (ce_world env) (ip_dir p)) d of
                    (Inl e, d1) \<Rightarrow> ((Some (Cli_Error (''plugin installed to disk but daemon failed to load it: '' @ ce_call_text env e)),
                      warned, d1), fs2)
                  | (Inr (i, name, namespace, version), d1) \<Rightarrow>
                      ((None, warned @ unless_quiet fg
                         (if fg_json fg then [Json (Doc_Value (VMap [(''id'', VStr i), (''name'', VStr name), (''namespace'', VStr namespace),
                            (''version'', VStr version)]))]
                          else [plugin_row link source name namespace version]), d1), fs2))))"

definition cmd_plugin_uninstall :: "cli_env \<Rightarrow> flags \<Rightarrow> app_env \<Rightarrow> string \<Rightarrow> daemon \<Rightarrow> fsys \<Rightarrow> outcome \<times> fsys" where
  "cmd_plugin_uninstall env fg pe ident d fs =
     (let installed = find_by_identifier (pe_discover pe fs) ident;
          (r, d1) = (if require_daemon env fg = None
                     then map_prod (map_sum id (\<lambda>_. ())) id (call env (rpc_uninstall_plugin (ce_world env) ident) d)
                     else (Inr (), d))
      in case r of
        Inl e \<Rightarrow> ((Some (call_failed env ''uninstall failed'' e), [], d1), fs)
      | Inr _ \<Rightarrow>
          (case (case installed of None \<Rightarrow> (None, fs) | Some p \<Rightarrow> remove_plugin (pe_stuck pe (ip_dir p)) (ip_dir p) fs) of
             (Some e, fs1) \<Rightarrow> ((Some (Cli_Error (''removed from daemon but failed to delete from disk: '' @ e)), [], d1), fs1)
           | (None, fs1) \<Rightarrow> ((None, unless_quiet fg [Out (''Plugin '' @ ident @ '' uninstalled.'')], d1), fs1)))"

end
