(* ===== verification/Platform.thy ===== *)
theory Platform
  imports Atomic_File Path_Facts
begin

text \<open>
  Where the daemon meets the machine, on Unix: the directories and files of a user's installation
  (\<open>ConfigDir\<close>, \<open>AppDir\<close>, \<open>RunDir\<close> and the rest of \<open>config.go\<close>, \<open>process.go\<close>, \<open>state.go\<close> and \<open>discovery.go\<close>), whether a
  process is alive (\<open>signal_unix.go\<close>), the version of a binary (\<open>buildinfo.go\<close>), and the socket the daemon
  listens on (\<open>grpc/server\<close>).
\<close>

section \<open>Directories and files\<close>

text \<open>
  \<open>ho_home\<close> is \<open>os.UserHomeDir\<close>, \<open>ho_mkdir\<close> what \<open>os.MkdirAll\<close> fails with. The directories that an operation makes, or
  finds, are returned beside its result.
\<close>

record host_env =
  ho_home :: "string result"
  ho_mkdir :: "string \<Rightarrow> string option"

definition ensure_dir :: "host_env \<Rightarrow> string \<Rightarrow> string \<Rightarrow> string result \<times> string list" where
  "ensure_dir ho what d =
     (case ho_mkdir ho d of
        Some e \<Rightarrow> (Inl (''could not create '' @ what @ '' directory: '' @ e), [])
      | None \<Rightarrow> (Inr d, [d]))"

definition config_dir :: "host_env \<Rightarrow> string result \<times> string list" where
  "config_dir ho =
     (case ho_home ho of
        Inl e \<Rightarrow> (Inl (''could not determine home directory: '' @ e), [])
      | Inr home \<Rightarrow> ensure_dir ho ''config'' (path_join (path_join home ''.config'') ''recur''))"

definition config_subdir :: "host_env \<Rightarrow> string \<Rightarrow> string \<Rightarrow> string result \<times> string list" where
  "config_subdir ho name what =
     (case config_dir ho of
        (Inl e, made) \<Rightarrow> (Inl e, made)
      | (Inr dir, made) \<Rightarrow> (case ensure_dir ho what (path_join dir name) of (r, made1) \<Rightarrow> (r, made @ made1)))"

definition app_dir :: "host_env \<Rightarrow> string result \<times> string list" where
  "app_dir ho = config_subdir ho ''app'' ''app''"

definition run_dir :: "host_env \<Rightarrow> string result \<times> string list" where
  "run_dir ho = config_subdir ho ''run'' ''run''"

definition default_plugins_dir :: "host_env \<Rightarrow> string result \<times> string list" where
  "default_plugins_dir ho = config_subdir ho ''plugins'' ''plugins''"

definition file_in :: "string \<Rightarrow> string result \<times> string list \<Rightarrow> string result \<times> string list" where
  "file_in name r = map_prod (map_sum id (\<lambda>dir. path_join dir name)) id r"

definition default_config_path :: "host_env \<Rightarrow> string result \<times> string list" where
  "default_config_path ho = file_in ''config.yaml'' (config_dir ho)"

definition default_pid_path :: "host_env \<Rightarrow> string result \<times> string list" where
  "default_pid_path ho = file_in ''recur.pid'' (run_dir ho)"

definition default_socket_path :: "host_env \<Rightarrow> string result \<times> string list" where
  "default_socket_path ho = file_in ''recur.sock'' (run_dir ho)"

text \<open>The state file's directory is made when it is written.\<close>

definition default_state_path :: "host_env \<Rightarrow> string result" where
  "default_state_path ho =
     (case ho_home ho of
        Inl e \<Rightarrow> Inl (''cannot determine home directory: '' @ e)
      | Inr home \<Rightarrow> Inr (foldl path_join home [''.config'', ''recur'', ''state'', ''state.json'']))"

text \<open>On a machine where the directories can be made, all of it lies under \<open>.config/recur\<close> of the home directory.\<close>

lemma plain_rel_single: "plain_elem e \<Longrightarrow> CHR ''/'' \<notin> set e \<Longrightarrow> plain_rel e"
  by (simp add: plain_rel_def str_split_single)

lemma config_dir_ok:
  assumes "ho_home ho = Inr home" "plain_abs home" "ho_mkdir ho = (\<lambda>_. None)"
  shows "config_dir ho = (Inr (home @ ''/.config/recur''), [home @ ''/.config/recur''])" "plain_abs (home @ ''/.config/recur'')"
proof -
  have e: "plain_rel ''.config''" "plain_rel ''recur''" by (simp_all add: plain_rel_single plain_elem_def)
  have p: "plain_abs (home @ ''/.config'')" using plain_abs_append [OF assms(2) e(1)] by simp
  show "config_dir ho = (Inr (home @ ''/.config/recur''), [home @ ''/.config/recur''])"
    using join_plain [OF assms(2) e(1)] join_plain [OF p e(2)] assms by (simp add: config_dir_def ensure_dir_def)
  show "plain_abs (home @ ''/.config/recur'')" using plain_abs_append [OF p e(2)] by simp
qed

lemma config_subdir_ok:
  assumes "ho_home ho = Inr home" "plain_abs home" "ho_mkdir ho = (\<lambda>_. None)" "plain_elem name" "CHR ''/'' \<notin> set name"
  shows "config_subdir ho name what =
      (Inr (home @ ''/.config/recur/'' @ name), [home @ ''/.config/recur'', home @ ''/.config/recur/'' @ name])"
    "plain_abs (home @ ''/.config/recur/'' @ name)"
  using config_dir_ok [OF assms(1-3)] join_plain [OF _ plain_rel_single [OF assms(4,5)], of "home @ ''/.config/recur''"]
    plain_abs_append [OF _ plain_rel_single [OF assms(4,5)], of "home @ ''/.config/recur''"] assms(3)
  by (simp_all add: config_subdir_def ensure_dir_def)

lemma default_files:
  assumes "ho_home ho = Inr home" "plain_abs home" "ho_mkdir ho = (\<lambda>_. None)"
  shows "fst (default_config_path ho) = Inr (home @ ''/.config/recur/config.yaml'')"
    "fst (default_pid_path ho) = Inr (home @ ''/.config/recur/run/recur.pid'')"
    "fst (default_socket_path ho) = Inr (home @ ''/.config/recur/run/recur.sock'')"
proof -
  have e: "plain_elem ''run''" "CHR ''/'' \<notin> set ''run''" "plain_rel ''recur.pid''" "plain_rel ''recur.sock''" "plain_rel ''config.yaml''"
    by (simp_all add: plain_rel_single plain_elem_def)
  note run = config_subdir_ok [OF assms e(1,2)]
  show "fst (default_config_path ho) = Inr (home @ ''/.config/recur/config.yaml'')"
    using config_dir_ok [OF assms] join_plain [OF _ e(5), of "home @ ''/.config/recur''"] by (simp add: default_config_path_def file_in_def)
  show "fst (default_pid_path ho) = Inr (home @ ''/.config/recur/run/recur.pid'')"
    using run join_plain [OF run(2) e(3)] by (simp add: default_pid_path_def run_dir_def file_in_def)
  show "fst (default_socket_path ho) = Inr (home @ ''/.config/recur/run/recur.sock'')"
    using run join_plain [OF run(2) e(4)] by (simp add: default_socket_path_def run_dir_def file_in_def)
qed

section \<open>Processes and versions\<close>

text \<open>
  \<open>probe\<close> is the outcome of sending the null signal. \<open>os.Process.Signal\<close> sends nothing to the numbers 0 and \<open>-1\<close>, which
  would mean the caller's process group and every process.
\<close>

definition is_process_alive :: "(int \<Rightarrow> string option) \<Rightarrow> int \<Rightarrow> bool" where
  "is_process_alive probe pid \<longleftrightarrow> pid \<noteq> 0 \<and> pid \<noteq> - 1 \<and> probe pid = None"

text \<open>\<open>info\<close> is the version of the main module in the build information, if there is any.\<close>

definition build_version :: "string \<Rightarrow> string option \<Rightarrow> string \<Rightarrow> string" where
  "build_version injected info fallback =
     (if injected \<noteq> [] then injected
      else case info of
        Some v \<Rightarrow> if v \<noteq> [] \<and> v \<noteq> ''(devel)'' then v else fallback
      | None \<Rightarrow> fallback)"

lemma build_version_nonempty: "fallback \<noteq> [] \<Longrightarrow> build_version i v fallback \<noteq> []"
  by (simp add: build_version_def split: option.split)

section \<open>The socket\<close>

text \<open>
  \<open>nodes\<close> is what stands at the addresses: a socket on which the process of that number listens, or something
  else (\<open>None\<close>), such as the socket of a process that is gone. \<open>nt_denied\<close> is what removing fails with, absence
  apart, and \<open>nt_bind\<close> what binding to a free address fails with.
\<close>

type_synonym nodes = "(string, int option) amap"

record net_env =
  nt_denied :: "string \<Rightarrow> string option"
  nt_bind :: "string \<Rightarrow> string option"

definition cleanup_listener :: "net_env \<Rightarrow> string \<Rightarrow> nodes \<Rightarrow> string option \<times> nodes" where
  "cleanup_listener nt addr ns = (case nt_denied nt addr of Some e \<Rightarrow> (Some e, ns) | None \<Rightarrow> (None, AList.delete addr ns))"

definition cleanup_on_stop :: "net_env \<Rightarrow> string \<Rightarrow> nodes \<Rightarrow> nodes" where
  "cleanup_on_stop nt addr ns = snd (cleanup_listener nt addr ns)"

definition listen_on :: "net_env \<Rightarrow> int \<Rightarrow> string \<Rightarrow> nodes \<Rightarrow> string option \<times> nodes" where
  "listen_on nt pid addr ns =
     (if map_of ns addr \<noteq> None then (Some (''listen unix '' @ addr @ '': bind: address already in use''), ns)
      else case nt_bind nt addr of Some e \<Rightarrow> (Some e, ns) | None \<Rightarrow> (None, AList.update addr (Some pid) ns))"

definition new_server :: "net_env \<Rightarrow> int \<Rightarrow> string \<Rightarrow> nodes \<Rightarrow> string option \<times> nodes" where
  "new_server nt pid addr ns =
     (case cleanup_listener nt addr ns of
        (Some e, ns1) \<Rightarrow> (Some (''could not clean up stale listener: '' @ e), ns1)
      | (None, ns1) \<Rightarrow>
          (case listen_on nt pid addr ns1 of
             (Some e, ns2) \<Rightarrow> (Some (''could not listen on '' @ addr @ '': '' @ e), ns2)
           | (None, ns2) \<Rightarrow> (None, ns2)))"

text \<open>The listener removes its socket when it closes, and \<open>Stop\<close> removes what is there then.\<close>

definition stop_server :: "net_env \<Rightarrow> string \<Rightarrow> nodes \<Rightarrow> nodes" where
  "stop_server nt addr ns = cleanup_on_stop nt addr (cleanup_on_stop nt addr ns)"

text \<open>
  What was at the address, a socket that nobody serves or one that another daemon does, never keeps a server
  from starting: either the system refuses, or the address is the new server's. Other addresses are left alone.
\<close>

lemma new_server_outcome:
  "case new_server nt pid addr ns of
     (None, ns') \<Rightarrow> nt_denied nt addr = None \<and> nt_bind nt addr = None \<and> map_of ns' addr = Some (Some pid)
   | (Some e, ns') \<Rightarrow> (nt_denied nt addr \<noteq> None \<and> ns' = ns) \<or> (nt_bind nt addr \<noteq> None \<and> map_of ns' addr = None)"
  by (simp add: new_server_def cleanup_listener_def listen_on_def split: option.split)

lemma new_server_other: "a \<noteq> addr \<Longrightarrow> map_of (snd (new_server nt pid addr ns)) a = map_of ns a"
  by (simp add: new_server_def cleanup_listener_def listen_on_def split: option.split)

lemma stop_server_clears: "nt_denied nt addr = None \<Longrightarrow> map_of (stop_server nt addr ns) addr = None"
  by (simp add: stop_server_def cleanup_on_stop_def cleanup_listener_def)

lemma stop_server_other: "a \<noteq> addr \<Longrightarrow> map_of (stop_server nt addr ns) a = map_of ns a"
  by (simp add: stop_server_def cleanup_on_stop_def cleanup_listener_def split: option.split)

text \<open>
  A second server on the address of a first one takes it over, and when the first one stops it removes the
  second one's socket: a server that still runs cannot be reached any more.
\<close>

lemma stop_unlinks_successor:
  assumes "nt_denied nt addr = None" "new_server nt p1 addr ns = (None, ns1)" "new_server nt p2 addr ns1 = (None, ns2)"
  shows "map_of ns2 addr = Some (Some p2) \<and> map_of (stop_server nt addr ns2) addr = None"
  using new_server_outcome [where nt = nt and pid = p2 and addr = addr and ns = ns1] stop_server_clears [OF assms(1)] assms(3) by simp

text \<open>The target that the client gives to gRPC.\<close>

definition dial_address :: "string \<Rightarrow> string" where
  "dial_address path = ''unix://'' @ path"

text \<open>
  What stands between the slashes of such a target is its authority, which gRPC's naming of targets has empty
  for Unix sockets. That of a relative path is not: a daemon can listen there, and no command can dial it.
\<close>

lemma dial_authority: "takeWhile (\<lambda>c. c \<noteq> CHR ''/'') (drop (length ''unix://'') (dial_address path)) = [] \<longleftrightarrow> path = [] \<or> is_abs path"
  by (cases path) (auto simp: dial_address_def is_abs_def)

end
