(* ===== verification/Cli_Daemon.thy ===== *)
theory Cli_Daemon
  imports Cli_Files Platform
begin

text \<open>
  The commands about the daemon process: \<open>status\<close>, \<open>start\<close>, \<open>stop\<close> and \<open>restart\<close>
  (\<open>cli/status.go\<close>, \<open>start.go\<close>, \<open>stop.go\<close>, \<open>restart.go\<close>), the start of \<open>recurd\<close> (\<open>app/recurd/main.go\<close>)
  and the configuration commands (\<open>cli/config.go\<close>).
\<close>

section \<open>Status\<close>

text \<open>
  The paths the commands work out, the run directory with the PID file, what probing a process gives, and
  what the running daemon adds to its status: its process, its uptime and its version.
\<close>

record proc_env =
  pv_pid_path :: "string result"
  pv_run_dir :: dir
  pv_probe :: "int \<Rightarrow> string option"
  pv_config_path :: "string result"
  pv_state_path :: "string result"
  pv_plugins_dir :: "string result"
  pv_version :: string
  pv_daemon_pid :: int
  pv_uptime :: string
  pv_daemon_version :: string

record status_json =
  sx_running :: bool
  sx_pid :: "int option"
  sx_uptime :: string
  sx_version :: string
  sx_triggers :: "(int \<times> int) option"
  sx_actions :: "(int \<times> int) option"
  sx_plugins :: "int option"
  sx_recurfiles :: "int option"
  sx_config_path :: string
  sx_socket_path :: string
  sx_state_path :: string
  sx_pid_path :: string
  sx_plugins_dir :: string
  sx_log_level :: string
  sx_foreground :: bool
  sx_warnings :: "string list"

definition version_mismatch :: "proc_env \<Rightarrow> string option" where
  "version_mismatch pv =
     (if pv_daemon_version pv \<noteq> [] \<and> pv_daemon_version pv \<noteq> pv_version pv
      then Some (''daemon version '' @ go_quote (pv_daemon_version pv) @ '' does not match CLI version '' @ go_quote (pv_version pv))
      else None)"

definition empty_status :: "bool \<Rightarrow> status_json" where
  "empty_status running = \<lparr>sx_running = running, sx_pid = None, sx_uptime = [], sx_version = [], sx_triggers = None, sx_actions = None,
     sx_plugins = None, sx_recurfiles = None, sx_config_path = [], sx_socket_path = [], sx_state_path = [], sx_pid_path = [],
     sx_plugins_dir = [], sx_log_level = [], sx_foreground = False, sx_warnings = []\<rparr>"

definition build_status_json :: "cli_env \<Rightarrow> flags \<Rightarrow> proc_env \<Rightarrow> bool \<Rightarrow> int \<Rightarrow> daemon \<Rightarrow> status_json" where
  "build_status_json env fg pv running pid d =
     (let out0 = empty_status running;
          out1 = (if fg_verbose fg then out0\<lparr>sx_config_path := or_zero (pv_config_path pv), sx_state_path := or_zero (pv_state_path pv),
                    sx_socket_path := or_zero (ce_default_socket env), sx_pid_path := or_zero (pv_pid_path pv),
                    sx_plugins_dir := or_zero (pv_plugins_dir pv)\<rparr> else out0)
      in if \<not> running then out1
         else
           let out2 = out1\<lparr>sx_pid := Some (int32 pid)\<rparr> in
           if \<not> client_here env fg then out2\<lparr>sx_warnings := [''could not connect to daemon socket'']\<rparr>
           else case ask env (\<lambda>d. Inr (rpc_get_status d)) d of
             Inl e \<Rightarrow> out2\<lparr>sx_warnings := [''could not reach daemon via gRPC: '' @ ce_call_text env e]\<rparr>
           | Inr s \<Rightarrow>
               (let out3 = out2\<lparr>sx_pid := (if pv_daemon_pid pv \<noteq> 0 then Some (pv_daemon_pid pv) else Some (int32 pid)),
                      sx_uptime := pv_uptime pv, sx_version := pv_daemon_version pv,
                      sx_triggers := Some (ds_active_triggers s, ds_suspended_triggers s),
                      sx_actions := Some (ds_active_actions s, ds_suspended_actions s),
                      sx_plugins := Some (ds_plugins s), sx_recurfiles := Some (ds_recurfiles s)\<rparr>;
                    out4 = (case ds_launch s of
                        None \<Rightarrow> out3
                      | Some la \<Rightarrow> out3\<lparr>sx_log_level := la_log_level la, sx_foreground := la_foreground la,
                          sx_config_path := (if la_config_path la \<noteq> [] then la_config_path la else sx_config_path out3),
                          sx_socket_path := (if la_socket_address la \<noteq> [] then la_socket_address la else sx_socket_path out3)\<rparr>)
                in out4\<lparr>sx_warnings := (case version_mismatch pv of None \<Rightarrow> [] | Some m \<Rightarrow> [m])\<rparr>))"

text \<open>The encoding, with the fields that \<open>omitempty\<close> leaves out.\<close>

definition omit_str :: "string \<Rightarrow> string \<Rightarrow> (string \<times> gval) list" where
  "omit_str k s = (if s = [] then [] else [(k, VStr s)])"

definition omit_none :: "string \<Rightarrow> ('a \<Rightarrow> gval) \<Rightarrow> 'a option \<Rightarrow> (string \<times> gval) list" where
  "omit_none k f x = (case x of None \<Rightarrow> [] | Some v \<Rightarrow> [(k, f v)])"

definition counts_value :: "int \<times> int \<Rightarrow> gval" where
  "counts_value c = VMap [(''active'', VInt (fst c)), (''suspended'', VInt (snd c))]"

definition status_value :: "status_json \<Rightarrow> gval" where
  "status_value s = VMap ([(''running'', VBool (sx_running s))] @ omit_none ''pid'' VInt (sx_pid s) @
     omit_str ''uptime'' (sx_uptime s) @ omit_str ''version'' (sx_version s) @ omit_none ''triggers'' counts_value (sx_triggers s) @
     omit_none ''actions'' counts_value (sx_actions s) @ omit_none ''plugins'' VInt (sx_plugins s) @
     omit_none ''recurfiles'' VInt (sx_recurfiles s) @ omit_str ''config_path'' (sx_config_path s) @
     omit_str ''socket_path'' (sx_socket_path s) @ omit_str ''state_path'' (sx_state_path s) @ omit_str ''pid_path'' (sx_pid_path s) @
     omit_str ''plugins_dir'' (sx_plugins_dir s) @ omit_str ''log_level'' (sx_log_level s) @
     (if sx_foreground s then [(''foreground'', VBool True)] else []) @
     (if sx_warnings s = [] then [] else [(''warnings'', VList (map VStr (sx_warnings s)))]))"

text \<open>Entries of the text form: a key and a value. The three results are the headers, the launch arguments and the status.\<close>

type_synonym entries = "(string \<times> string) list"

definition parse_status :: "cli_env \<Rightarrow> proc_env \<Rightarrow> daemon_status \<Rightarrow> entries \<times> entries \<times> entries" where
  "parse_status env pv s =
     (let launch = (case ds_launch s of
            None \<Rightarrow> []
          | Some la \<Rightarrow> (if la_log_level la \<noteq> [] then [(''Log Level'', la_log_level la)] else []) @
              (if la_config_path la \<noteq> [] then [(''Config'', la_config_path la)] else []) @
              (if la_socket_address la \<noteq> [] then [(''Socket'', la_socket_address la)] else []) @
              (if la_foreground la then [(''Mode'', ''foreground'')] else []));
          config = (case ds_launch s of None \<Rightarrow> [] | Some la \<Rightarrow> la_config_path la);
          socket = (case ds_launch s of None \<Rightarrow> [] | Some la \<Rightarrow> la_socket_address la);
          level = (case ds_launch s of None \<Rightarrow> ''info'' | Some la \<Rightarrow> if la_log_level la \<noteq> [] then la_log_level la else ''info'')
      in ([], launch,
          [(''Daemon'', ''running (pid '' @ itoa (pv_daemon_pid pv) @ '')''), (''Uptime'', pv_uptime pv)] @
          (if pv_daemon_version pv \<noteq> [] then [(''Version'', pv_daemon_version pv)] else []) @
          [(''Config'', if config = [] then or_zero (pv_config_path pv) else config),
           (''Socket'', if socket = [] then or_zero (ce_default_socket env) else socket), (''Log Level'', level),
           (''Triggers'', itoa (ds_active_triggers s) @ '' active, '' @ itoa (ds_suspended_triggers s) @ '' suspended''),
           (''Actions'', itoa (ds_active_actions s) @ '' active, '' @ itoa (ds_suspended_actions s) @ '' suspended''),
           (''Plugins'', itoa (ds_plugins s) @ '' registered''), (''Recurfiles'', itoa (ds_recurfiles s) @ '' registered'')]))"

definition get_running_daemon_status :: "cli_env \<Rightarrow> flags \<Rightarrow> proc_env \<Rightarrow> daemon \<Rightarrow>
    string list \<times> entries \<times> entries \<times> entries" where
  "get_running_daemon_status env fg pv d =
     (if \<not> client_here env fg
      then ([''Warning: could not connect to daemon socket (limited info available)''], [], [], [])
      else case ask env (\<lambda>d. Inr (rpc_get_status d)) d of
        Inl e \<Rightarrow> ([''Warning: could not reach daemon via gRPC: '' @ ce_call_text env e @ nl], [], [], [])
      | Inr s \<Rightarrow> (case version_mismatch pv of None \<Rightarrow> [] | Some m \<Rightarrow> [''Warning: '' @ m @ nl], parse_status env pv s))"

definition verbose_path_entries :: "cli_env \<Rightarrow> proc_env \<Rightarrow> entries" where
  "verbose_path_entries env pv =
     List.map_filter (\<lambda>(k, r). case r of Inl _ \<Rightarrow> None | Inr p \<Rightarrow> Some (k, p))
       [(''Config Path'', pv_config_path pv), (''State Path'', pv_state_path pv), (''Socket Path'', ce_default_socket env),
        (''PID Path'', pv_pid_path pv), (''Plugins Dir'', pv_plugins_dir pv)]"

definition merge_entries :: "entries \<Rightarrow> entries \<Rightarrow> entries \<Rightarrow> entries" where
  "merge_entries header launch status = header @ launch @ status"

text \<open>Every message here is a warning.\<close>

definition print_status_report :: "string list \<Rightarrow> entries \<Rightarrow> written list" where
  "print_status_report messages es =
     (let width = foldl (\<lambda>m (k, _). if m < length k then length k else m) 0 es in
      map Err messages @ map (\<lambda>(k, v). Out (k @ '':'' @ replicate (width - length k) (CHR '' '') @ '' '' @ v)) es)"

definition cmd_status :: "cli_env \<Rightarrow> flags \<Rightarrow> proc_env \<Rightarrow> daemon \<Rightarrow> cli_error option \<times> written list" where
  "cmd_status env fg pv d =
     (case pv_pid_path pv of
        Inl e \<Rightarrow> (Some (Cli_Error e), [])
      | Inr pid_path \<Rightarrow>
          (case is_running (is_process_alive (pv_probe pv)) pid_path (pv_run_dir pv) of
             (_, _, Some e) \<Rightarrow> (Some (Cli_Error (''could not check daemon status: '' @ e)), [])
           | (running, pid, None) \<Rightarrow>
               let failure = (if running then None else Some Daemon_Not_Running) in
               if fg_json fg then (failure, [Json (Doc_Value (status_value (build_status_json env fg pv running pid d)))])
               else
                 let (messages, header, launch, status) =
                   (if \<not> running then ([], [(''Daemon'', ''not running'')], [], [])
                    else case get_running_daemon_status env fg pv d of (ms, h, l, st) \<Rightarrow>
                      if h = [] then ([], [(''Daemon'', ''running (pid '' @ itoa pid @ '')'')], [], []) else (ms, h, l, st));
                   paths = (if fg_verbose fg then verbose_path_entries env pv else [])
                 in (failure, print_status_report messages (merge_entries header launch (status @ paths)))))"

text \<open>
  \<open>parseStatus\<close> puts nothing into the headers, so the text form always falls back to the
  process identifier: what the daemon answers is not shown, nor any warning.
\<close>

lemma status_text_drops_answer:
  assumes "pv_pid_path pv = Inr p" "is_running (is_process_alive (pv_probe pv)) p (pv_run_dir pv) = (True, pid, None)" "\<not> fg_json fg" "\<not> fg_verbose fg"
  shows "cmd_status env fg pv d = (None, [Out (''Daemon: running (pid '' @ itoa pid @ '')'')])"
proof -
  have "fst (snd (get_running_daemon_status env fg pv d)) = []"
    by (simp add: get_running_daemon_status_def parse_status_def Let_def split: sum.splits)
  with assms show ?thesis
    by (cases "get_running_daemon_status env fg pv d")
       (simp add: cmd_status_def print_status_report_def merge_entries_def)
qed

definition cmd_version :: "string \<Rightarrow> written list" where
  "cmd_version version = [Out (''recur '' @ version)]"

section \<open>The start of recurd\<close>

text \<open>The command-line flags of \<open>recurd\<close>, empty where not given, and what \<open>InitStore\<close> needs.\<close>

record recurd_flags =
  uf_config :: string
  uf_socket :: string
  uf_level :: string

text \<open>\<open>flag.Parse\<close> on arguments of the form \<open>--name value\<close>; a later one wins.\<close>

fun recurd_flags_of :: "recurd_flags \<Rightarrow> string list \<Rightarrow> recurd_flags" where
  "recurd_flags_of uf (n # v # rest) =
     recurd_flags_of (if n = ''--config'' then uf\<lparr>uf_config := v\<rparr> else if n = ''--socket'' then uf\<lparr>uf_socket := v\<rparr>
       else if n = ''--log-level'' then uf\<lparr>uf_level := v\<rparr> else uf) rest"
| "recurd_flags_of uf _ = uf"

definition no_flags :: recurd_flags where "no_flags = \<lparr>uf_config = [], uf_socket = [], uf_level = []\<rparr>"

record boot_env =
  bo_socket_var :: string
  bo_parse :: "string \<Rightarrow> strct result"
  bo_var :: "string \<Rightarrow> string option"
  bo_default_path :: "string result"
  bo_read :: "string \<Rightarrow> string option result"

definition str_ptr_or_nil :: "string \<Rightarrow> string option" where
  "str_ptr_or_nil s = (if s = [] then None else Some s)"

definition deref_opt :: "string option \<Rightarrow> string" where
  "deref_opt p = (case p of None \<Rightarrow> [] | Some s \<Rightarrow> s)"

definition cli_overrides :: "string option \<Rightarrow> string option \<Rightarrow> strct" where
  "cli_overrides level socket =
     AList.update ''SocketAddress'' (FPtr ''string'' (map_option VStr socket))
       (AList.update ''LogLevel'' (FPtr ''string'' (map_option VStr level)) config_zero)"

definition boot_store :: "boot_env \<Rightarrow> string option \<Rightarrow> strct option \<Rightarrow> (store \<times> string) result" where
  "boot_store bo path cli = init_store (bo_parse bo) (bo_var bo) (bo_default_path bo) (bo_read bo) path cli"

text \<open>The daemon that \<open>main\<close> makes before it runs it, and its socket address.\<close>

definition boot_daemon :: "store \<Rightarrow> string \<Rightarrow> string \<Rightarrow> launch_args \<Rightarrow> daemon" where
  "boot_daemon s config_path state_path la =
     (new_daemon s)\<lparr>dm_config_path := config_path, dm_state_path := state_path, dm_launch := Some la\<rparr>"

definition recurd_main :: "boot_env \<Rightarrow> proc_env \<Rightarrow> recurd_flags \<Rightarrow> (daemon \<times> string) result" where
  "recurd_main bo pv uf =
     (let socket = (case str_ptr_or_nil (uf_socket uf) of
            Some x \<Rightarrow> Some x | None \<Rightarrow> str_ptr_or_nil (bo_socket_var bo));
          level = str_ptr_or_nil (uf_level uf)
      in case boot_store bo (str_ptr_or_nil (uf_config uf)) (Some (cli_overrides level socket)) of
        Inl e \<Rightarrow> Inl (''could not load config: '' @ e)
      | Inr (s, path) \<Rightarrow>
          (case pv_pid_path pv of
             Inl e \<Rightarrow> Inl (''could not determine PID path: '' @ e)
           | Inr _ \<Rightarrow>
               (case pv_state_path pv of
                  Inl e \<Rightarrow> Inl (''could not determine state path: '' @ e)
                | Inr state_path \<Rightarrow>
                    let (eff, s1) = st_get s; addr = deref_str (cfg_ptr eff ''SocketAddress'')
                    in Inr (boot_daemon s1 path state_path
                         \<lparr>la_config_path = path, la_socket_address = addr, la_log_level = deref_opt level, la_foreground = False\<rparr>, addr))))"

section \<open>Starting, stopping and restarting\<close>

text \<open>
  \<open>pr_recurd\<close> finds the program, \<open>pr_spawn\<close> starts it with arguments and gives its process,
  \<open>pr_kill\<close> sends the signal; \<open>pr_alive_at t\<close> tells whether \<open>IsRunning\<close> finds the daemon \<open>t\<close> nanoseconds after
  the deadline was set, and \<open>pr_delay n\<close> is by how much the \<open>n\<close>th round of the wait exceeds its sleep.
\<close>

record process_env =
  pr_recurd :: "string result"
  pr_spawn :: "string \<Rightarrow> string list \<Rightarrow> int result"
  pr_kill :: "int \<Rightarrow> string option"
  pr_alive_at :: "int \<Rightarrow> bool"
  pr_delay :: "nat \<Rightarrow> nat"

text \<open>\<open>findWatchd\<close>: beside the executable, if that is known, else on the path.\<close>

definition find_recurd :: "string result \<Rightarrow> (string \<Rightarrow> bool) \<Rightarrow> string result \<Rightarrow> string result" where
  "find_recurd exe exists_path look =
     (let beside = (case exe of Inl _ \<Rightarrow> None
            | Inr x \<Rightarrow> (let c = path_join (path_dir x) ''recurd'' in if exists_path c then Some c else None))
      in case beside of
        Some c \<Rightarrow> Inr c
      | None \<Rightarrow> (case look of
          Inr p \<Rightarrow> Inr p
        | Inl _ \<Rightarrow> Inl (''could not find recurd binary (looked in '' @ path_dir (or_zero exe) @ '' and PATH)'')))"

definition background_args :: "string \<Rightarrow> string \<Rightarrow> string \<Rightarrow> string list" where
  "background_args config socket level =
     (if config \<noteq> [] then [''--config'', config] else []) @ (if socket \<noteq> [] then [''--socket'', socket] else []) @
     (if level \<noteq> [] then [''--log-level'', level] else [])"

definition run_background :: "process_env \<Rightarrow> flags \<Rightarrow> string \<Rightarrow> string \<Rightarrow> string \<Rightarrow> cli_error option \<times> written list" where
  "run_background pr fg config socket level =
     (case pr_recurd pr of
        Inl e \<Rightarrow> (Some (Cli_Error e), [])
      | Inr recurd \<Rightarrow>
          (case pr_spawn pr recurd (background_args config socket level) of
             Inl e \<Rightarrow> (Some (Cli_Error (''could not start daemon: '' @ e)), [])
           | Inr pid \<Rightarrow> (None, unless_quiet fg [Out (''Daemon started (pid '' @ itoa pid @ '')'')])))"

text \<open>The foreground daemon: neither the socket flag nor the log level reaches it.\<close>

definition run_foreground :: "boot_env \<Rightarrow> proc_env \<Rightarrow> string \<Rightarrow> (daemon \<times> string) result" where
  "run_foreground bo pv config =
     (case boot_store bo (str_ptr_or_nil config) None of
        Inl e \<Rightarrow> Inl (''could not load config: '' @ e)
      | Inr (s, path) \<Rightarrow>
          (case pv_state_path pv of
             Inl e \<Rightarrow> Inl (''could not determine state path: '' @ e)
           | Inr state_path \<Rightarrow>
               let (eff, s1) = st_get s
               in Inr (boot_daemon s1 path state_path
                    \<lparr>la_config_path = path, la_socket_address = [], la_log_level = [], la_foreground = True\<rparr>,
                    deref_str (cfg_ptr eff ''SocketAddress''))))"

text \<open>What starting does: the error or output, the run directory, and the daemon to run in the foreground.\<close>

definition cmd_start :: "boot_env \<Rightarrow> proc_env \<Rightarrow> process_env \<Rightarrow> os_env \<Rightarrow> flags \<Rightarrow> bool \<Rightarrow> string \<Rightarrow> string \<Rightarrow>
    cli_error option \<times> written list \<times> dir \<times> (daemon \<times> string) option" where
  "cmd_start bo pv pr os fg foreground config level =
     (let run = pv_run_dir pv in
      case pv_pid_path pv of
        Inl e \<Rightarrow> (Some (Cli_Error (''could not determine PID path: '' @ e)), [], run, None)
      | Inr pid_path \<Rightarrow>
          (case is_running (is_process_alive (pv_probe pv)) pid_path run of
             (_, _, Some e) \<Rightarrow> (Some (Cli_Error (''could not check daemon status: '' @ e)), [], run, None)
           | (True, pid, None) \<Rightarrow> (Some (Cli_Error (''daemon already running (pid '' @ itoa pid @ '')'')), [], run, None)
           | (False, pid, None) \<Rightarrow>
               let run1 = (if pid \<noteq> 0 then snd (remove_pid os pid_path run) else run) in
               if foreground then
                 (case run_foreground bo pv config of
                    Inl e \<Rightarrow> (Some (Cli_Error e), [], run1, None)
                  | Inr d \<Rightarrow> (None, [], run1, Some d))
               else (case run_background pr fg config (fg_socket fg) level of (err, out) \<Rightarrow> (err, out, run1, None))))"

text \<open>
  How long \<open>stop\<close> and \<open>restart\<close> wait, in nanoseconds.
\<close>

definition stop_timeout :: "(store \<times> string) result \<Rightarrow> int" where
  "stop_timeout config =
     (case config of
        Inl _ \<Rightarrow> 30000000000
      | Inr (s, _) \<Rightarrow>
          (case cfg_ptr (fst (st_get s)) ''ShutdownTimeout'' of
             None \<Rightarrow> 30000000000
           | v \<Rightarrow> (case parse_duration (deref_str v) of None \<Rightarrow> 30000000000 | Some t \<Rightarrow> t)))"

text \<open>
  The loop looks, then sleeps 100 ms, while the deadline is ahead. A round takes the sleep and what
  the look and a late wake-up add to it, so the clock moves on and the loop ends.
\<close>

function wait_loop :: "(int \<Rightarrow> bool) \<Rightarrow> (nat \<Rightarrow> nat) \<Rightarrow> int \<Rightarrow> nat \<Rightarrow> int \<Rightarrow> bool" where
  "wait_loop alive_at delay deadline n now =
     (if now < deadline then
        if alive_at now then wait_loop alive_at delay deadline (Suc n) (now + 100000000 + int (delay n)) else True
      else False)"
  by pat_completeness auto

termination
  by (relation "measure (\<lambda>(_, _, deadline, _, now). nat (deadline - now))") auto

declare wait_loop.simps [simp del]

definition running_pid :: "proc_env \<Rightarrow> cli_error + int" where
  "running_pid pv =
     (case pv_pid_path pv of
        Inl e \<Rightarrow> Inl (Cli_Error e)
      | Inr pid_path \<Rightarrow>
          (case is_running (is_process_alive (pv_probe pv)) pid_path (pv_run_dir pv) of
             (_, _, Some e) \<Rightarrow> Inl (Cli_Error (''could not check daemon status: '' @ e))
           | (False, _, None) \<Rightarrow> Inl (Cli_Error ''daemon is not running'')
           | (True, pid, None) \<Rightarrow> Inr pid))"

definition signal_and_wait :: "cli_env \<Rightarrow> process_env \<Rightarrow> int \<Rightarrow> string option" where
  "signal_and_wait env pr pid =
     (case pr_kill pr pid of
        Some e \<Rightarrow> Some (''could not send shutdown signal: '' @ e)
      | None \<Rightarrow>
          let timeout = stop_timeout (ce_config env) in
          if wait_loop (pr_alive_at pr) (pr_delay pr) timeout 0 0 then None
          else Some (''daemon did not stop within '' @ fmt_dur (ce_fmt env) timeout))"

definition cmd_stop :: "cli_env \<Rightarrow> flags \<Rightarrow> proc_env \<Rightarrow> process_env \<Rightarrow> cli_error option \<times> written list" where
  "cmd_stop env fg pv pr =
     (case running_pid pv of
        Inl e \<Rightarrow> (Some e, [])
      | Inr pid \<Rightarrow>
          (case signal_and_wait env pr pid of
             Some e \<Rightarrow> (Some (Cli_Error e), [])
           | None \<Rightarrow> (None, unless_quiet fg [Out ''Daemon stopped''])))"

text \<open>The process that is signalled is one process: never the process group of the caller, nor all of them.\<close>

lemma running_pid_single:
  assumes "running_pid pv = Inr pid"
  shows "pid \<noteq> 0 \<and> pid \<noteq> - 1 \<and> pv_probe pv pid = None"
proof -
  have "is_running alive p dir = (True, pid, None) \<Longrightarrow> alive pid" for alive p dir
    by (simp add: is_running_def split: option.splits sum.splits if_splits)
  from assms this [of "is_process_alive (pv_probe pv)"] have "is_process_alive (pv_probe pv) pid"
    by (auto simp: running_pid_def split: sum.splits prod.splits option.splits bool.splits)
  then show ?thesis by (simp add: is_process_alive_def)
qed

text \<open>\<open>state\<close> is the content of the state file, read before the daemon stops.\<close>

definition cmd_restart :: "cli_env \<Rightarrow> flags \<Rightarrow> proc_env \<Rightarrow> process_env \<Rightarrow> string option result \<Rightarrow> cli_error option \<times> written list" where
  "cmd_restart env fg pv pr state =
     (case running_pid pv of
        Inl e \<Rightarrow> (Some e, [])
      | Inr pid \<Rightarrow>
          (case pv_state_path pv of
             Inl e \<Rightarrow> (Some (Cli_Error (''could not determine state path: '' @ e)), [])
           | Inr _ \<Rightarrow>
               (case load_launch_args (wd_unmarshal (ce_world env)) state of
                  Inl e \<Rightarrow> (Some (Cli_Error (''could not read launch args: '' @ e)), [])
                | Inr None \<Rightarrow> (Some (Cli_Error (''no previous launch args found '' @ em_dash @ '' use recur start'')), [])
                | Inr (Some la) \<Rightarrow>
                    if la_foreground la
                    then (Some (Cli_Error (''cannot restart a foreground daemon '' @ em_dash @ '' use recur start --foreground'')), [])
                    else case signal_and_wait env pr pid of
                      Some e \<Rightarrow> (Some (Cli_Error e), [])
                    | None \<Rightarrow>
                        (case run_background pr fg (la_config_path la) (la_socket_address la) (la_log_level la) of
                           (err, out) \<Rightarrow> (err, unless_quiet fg [Out ''Daemon stopped''] @ out)))))"

section \<open>Configuration\<close>

definition plain_value :: "fval \<Rightarrow> gval" where
  "plain_value v =
     (case v of
        FScalar _ x \<Rightarrow> x
      | FPtr _ x \<Rightarrow> (case x of None \<Rightarrow> VNil | Some y \<Rightarrow> y)
      | FMap _ m \<Rightarrow> (case m of None \<Rightarrow> VNil | Some m \<Rightarrow> VMap m)
      | FSlice _ xs \<Rightarrow> (case xs of None \<Rightarrow> VNil | Some xs \<Rightarrow> VList xs)
      | FStruct _ _ \<Rightarrow> VNil)"

definition format_value :: "fmt_env \<Rightarrow> gval \<Rightarrow> string" where
  "format_value fe v = (if v = VNil then ''(not set)'' else fmt_v fe v)"

definition populate_from_daemon :: "cli_env \<Rightarrow> flags \<Rightarrow> daemon \<Rightarrow> store \<Rightarrow> store" where
  "populate_from_daemon env fg d s =
     (if \<not> client_here env fg then s
      else case ask env (\<lambda>d. Inr (rpc_get_status d)) d of
        Inl _ \<Rightarrow> s
      | Inr st \<Rightarrow> (case ds_launch st of None \<Rightarrow> s | Some la \<Rightarrow> populate_cli_args (la_log_level la) (la_socket_address la) s))"

definition print_all_config :: "cli_env \<Rightarrow> flags \<Rightarrow> store \<Rightarrow> written list" where
  "print_all_config env fg s =
     (case all_keys s of (all, s1) \<Rightarrow>
        if fg_json fg then [Json (Doc_Value (VMap (put_all [] all)))]
        else
          let width = foldl (\<lambda>m (k, _). if m < length k then length k else m) 0 all in
          map (\<lambda>(k, v). Out (k @ replicate (width - length k) (CHR '' '') @ '' = '' @ format_value (ce_fmt env) v @
            (if fg_verbose fg then store_source_annotation k (Some s1) else []))) all)"

definition cmd_config_get :: "cli_env \<Rightarrow> flags \<Rightarrow> string option \<Rightarrow> daemon \<Rightarrow> cli_error option \<times> written list" where
  "cmd_config_get env fg args d =
     (case ce_config env of
        Inl e \<Rightarrow> (Some (Cli_Error e), [])
      | Inr (s0, _) \<Rightarrow>
          let s = populate_from_daemon env fg d s0 in
          (case args of
             None \<Rightarrow> (None, print_all_config env fg s)
           | Some k \<Rightarrow>
               (case get_by_key s k of
                  (Inl e, _) \<Rightarrow> (Some (Cli_Error e), [])
                | (Inr v, s1) \<Rightarrow>
                    (None,
                     if fg_json fg then [Json (Doc_Value (plain_value v))]
                     else [Out (k @ '' = '' @ format_value (ce_fmt env) (plain_value v) @
                       (if fg_verbose fg then store_source_annotation k (Some s1) else []))]))))"

text \<open>
  Through the daemon if it can be reached; otherwise into the file, whose directory is \<open>disk\<close>.
\<close>

definition save_config :: "cli_env \<Rightarrow> store \<Rightarrow> string \<Rightarrow> dir \<Rightarrow> string option \<times> dir" where
  "save_config env s path disk =
     (let w = ce_world env in
      case wd_config_yaml w (case st_get_layer s ''file'' of None \<Rightarrow> config_zero | Some l \<Rightarrow> l) of
        Inl e \<Rightarrow> (Some (''could not marshal config: '' @ e), disk)
      | Inr data \<Rightarrow> af_write (wd_os w) path (wd_stamp w) data disk)"

definition cmd_config_set :: "cli_env \<Rightarrow> flags \<Rightarrow> string \<Rightarrow> string \<Rightarrow> daemon \<Rightarrow> dir \<Rightarrow> outcome \<times> dir" where
  "cmd_config_set env fg k v d disk =
     (let said = unless_quiet fg [Out (k @ '' = '' @ v)] in
      if client_here env fg then
        (case call env (rpc_set_config (ce_world env) k v) d of
           (Inl e, d1) \<Rightarrow> ((Some (call_failed env ''config set failed'' e), [], d1), disk)
         | (Inr _, d1) \<Rightarrow> ((None, said, d1), disk))
      else case ce_config env of
        Inl e \<Rightarrow> ((Some (Cli_Error e), [], d), disk)
      | Inr (s, path) \<Rightarrow>
          (case set_by_key s ''file'' k v of
             (Some e, _) \<Rightarrow> ((Some (Cli_Error e), [], d), disk)
           | (None, s1) \<Rightarrow>
               (case save_config env s1 path disk of
                  (Some e, disk1) \<Rightarrow> ((Some (Cli_Error e), [], d), disk1)
                | (None, disk1) \<Rightarrow> ((None, said, d), disk1))))"

definition cmd_config_delete :: "cli_env \<Rightarrow> flags \<Rightarrow> string \<Rightarrow> daemon \<Rightarrow> dir \<Rightarrow> outcome \<times> dir" where
  "cmd_config_delete env fg k d disk =
     (if client_here env fg then
        (case call env (rpc_delete_config (ce_world env) k) d of
           (Inl e, d1) \<Rightarrow> ((Some (call_failed env ''config delete failed'' e), [], d1), disk)
         | (Inr _, d1) \<Rightarrow> ((None, unless_quiet fg [Out (config_delete_message (ce_fmt env) k None)], d1), disk))
      else case ce_config env of
        Inl e \<Rightarrow> ((Some (Cli_Error e), [], d), disk)
      | Inr (s, path) \<Rightarrow>
          (case delete_by_key s ''file'' k of
             (Some e, _) \<Rightarrow> ((Some (Cli_Error e), [], d), disk)
           | (None, s1) \<Rightarrow>
               (case save_config env s1 path disk of
                  (Some e, disk1) \<Rightarrow> ((Some (Cli_Error e), [], d), disk1)
                | (None, disk1) \<Rightarrow>
                    let val = (case get_by_key s1 k of (Inl _, _) \<Rightarrow> None
                        | (Inr x, _) \<Rightarrow> if plain_value x = VNil then None else Some (plain_value x))
                    in ((None, unless_quiet fg [Out (config_delete_message (ce_fmt env) k val)], d), disk1))))"

end
