(* ===== verification/Service_Props.thy ===== *)
theory Service_Props
  imports Service
begin

text \<open>
  Properties of the service. Its handlers keep the registry, the engine and the event router in
  agreement: only triggers that the registry lists as active are in the engine, and only those
  have a channel in the router. On this rest the effects of suspending, resuming and uninstalling.
\<close>

section \<open>Who is on\<close>

definition eng_on :: "daemon \<Rightarrow> string \<Rightarrow> bool" where
  "eng_on d tid \<longleftrightarrow> (case dm_engine d of None \<Rightarrow> False | Some e \<Rightarrow> map_of (en_active e) tid \<noteq> None)"

definition chan_on :: "daemon \<Rightarrow> string \<Rightarrow> bool" where
  "chan_on d tid \<longleftrightarrow> (case dm_router d of None \<Rightarrow> False | Some r \<Rightarrow> map_of (ro_channels r) tid \<noteq> None)"

definition reg_on :: "daemon \<Rightarrow> string \<Rightarrow> bool" where
  "reg_on d tid \<longleftrightarrow> trigger_active (get_trigger (dm_registry d) tid)"

definition linked :: "daemon \<Rightarrow> bool" where
  "linked d \<longleftrightarrow> (\<forall>tid. chan_on d tid \<longrightarrow> eng_on d tid)"

definition in_sync :: "daemon \<Rightarrow> bool" where
  "in_sync d \<longleftrightarrow> linked d \<and> (\<forall>tid. eng_on d tid \<longrightarrow> reg_on d tid)"

definition service_ok :: "daemon \<Rightarrow> bool" where
  "service_ok d \<longleftrightarrow> reg_inv (dm_registry d) \<and> in_sync d"

lemma on_cong:
  "dm_engine d = dm_engine d' \<Longrightarrow> eng_on d = eng_on d'" "dm_router d = dm_router d' \<Longrightarrow> chan_on d = chan_on d'"
  "dm_registry d = dm_registry d' \<Longrightarrow> reg_on d = reg_on d'"
  by (simp_all add: eng_on_def chan_on_def reg_on_def fun_eq_iff)

lemma on_fields [simp]:
  "eng_on (d\<lparr>dm_registry := r\<rparr>) = eng_on d" "chan_on (d\<lparr>dm_registry := r\<rparr>) = chan_on d"
  "eng_on (d\<lparr>dm_store := s\<rparr>) = eng_on d" "chan_on (d\<lparr>dm_store := s\<rparr>) = chan_on d" "reg_on (d\<lparr>dm_store := s\<rparr>) = reg_on d"
  "eng_on (d\<lparr>dm_plugins := ps\<rparr>) = eng_on d" "chan_on (d\<lparr>dm_plugins := ps\<rparr>) = chan_on d" "reg_on (d\<lparr>dm_plugins := ps\<rparr>) = reg_on d"
  "eng_on (d\<lparr>dm_config := c\<rparr>) = eng_on d" "chan_on (d\<lparr>dm_config := c\<rparr>) = chan_on d" "reg_on (d\<lparr>dm_config := c\<rparr>) = reg_on d"
  "eng_on (d\<lparr>dm_config_disk := k\<rparr>) = eng_on d" "chan_on (d\<lparr>dm_config_disk := k\<rparr>) = chan_on d" "reg_on (d\<lparr>dm_config_disk := k\<rparr>) = reg_on d"
  by (simp_all add: eng_on_def chan_on_def reg_on_def fun_eq_iff)

lemma on_save [simp]:
  "eng_on (snd (save_state w d)) = eng_on d" "chan_on (snd (save_state w d)) = chan_on d" "reg_on (snd (save_state w d)) = reg_on d"
  by (rule on_cong; simp)+

lemma on_persist [simp]:
  "eng_on (persist_state w d) = eng_on d" "chan_on (persist_state w d) = chan_on d" "reg_on (persist_state w d) = reg_on d"
  "dm_registry (persist_state w d) = dm_registry d"
  by (simp_all add: persist_state_def)

lemma finish_active [simp]: "en_active (finish_worker x e) = en_active e"
  by (simp add: finish_worker_def Let_def worker_done_def set_worker_def upd_slot_def split: wmode.splits list.splits)

lemma settle_active [simp]: "en_active (settle e) = en_active e"
  by (simp add: settle_def split: option.splits)

lemma deactivate_active: "map_of (en_active (deactivate i e)) tid = (if tid = i then None else map_of (en_active e) tid)"
  by (simp add: deactivate_def upd_slot_def split: option.splits)

text \<open>Deactivating.\<close>

lemma engine_deactivate_on:
  "eng_on (engine_deactivate i d) tid \<longleftrightarrow> tid \<noteq> i \<and> eng_on d tid"
  "linked d \<Longrightarrow> chan_on (engine_deactivate i d) tid \<longleftrightarrow> tid \<noteq> i \<and> chan_on d tid"
  "reg_on (engine_deactivate i d) = reg_on d"
proof -
  show "eng_on (engine_deactivate i d) tid \<longleftrightarrow> tid \<noteq> i \<and> eng_on d tid"
    by (auto simp: engine_deactivate_def eng_on_def deactivate_active split: option.splits)
  show "linked d \<Longrightarrow> chan_on (engine_deactivate i d) tid \<longleftrightarrow> tid \<noteq> i \<and> chan_on d tid"
    unfolding linked_def
  proof (cases "dm_engine d")
    case (Some e)
    assume "\<forall>tid. chan_on d tid \<longrightarrow> eng_on d tid"
    then have "chan_on d i \<longrightarrow> eng_on d i" by blast
    with Some show ?thesis
      by (cases "dm_router d") (auto simp: engine_deactivate_def eng_on_def chan_on_def router_deregister_def)
  qed (auto simp: engine_deactivate_def eng_on_def)
  show "reg_on (engine_deactivate i d) = reg_on d"
    by (rule on_cong) simp
qed

lemma engine_deactivate_linked: "linked d \<Longrightarrow> linked (engine_deactivate i d)"
  using engine_deactivate_on [where i = i and d = d] by (auto simp: linked_def)

abbreviation deactivate_all :: "string list \<Rightarrow> daemon \<Rightarrow> daemon" where
  "deactivate_all is d \<equiv> foldl (\<lambda>d tid. engine_deactivate tid d) d is"

lemma deactivate_all_on:
  assumes "linked d"
  shows "eng_on (deactivate_all is d) tid \<longleftrightarrow> tid \<notin> set is \<and> eng_on d tid"
    "chan_on (deactivate_all is d) tid \<longleftrightarrow> tid \<notin> set is \<and> chan_on d tid"
    "reg_on (deactivate_all is d) = reg_on d" "linked (deactivate_all is d)"
    "dm_registry (deactivate_all is d) = dm_registry d"
  using assms
  by (induction "is" arbitrary: d) (auto simp: engine_deactivate_on engine_deactivate_linked)

text \<open>Activating.\<close>

lemma activate_active:
  "map_of (en_active (snd (activate fs start t e))) tid =
     (if tid = tr_id t \<and> map_of (en_active e) tid = None \<and> \<not> en_stopped e \<and> (\<exists>d. pick_driver fs t = Inr d \<and> start d = None)
      then Some (length (en_slots e)) else map_of (en_active e) tid)"
  by (auto simp: activate_def split: sum.splits option.splits)

lemma engine_activate_registry [simp]: "dm_registry (snd (engine_activate w t d)) = dm_registry d"
  by (simp add: engine_activate_def Let_def split_beta split: option.splits)

lemma engine_activate_on:
  shows "eng_on (snd (engine_activate w t d)) tid \<Longrightarrow> tid = tr_id t \<or> eng_on d tid"
    and "eng_on d tid \<Longrightarrow> eng_on (snd (engine_activate w t d)) tid"
    and "linked d \<Longrightarrow> linked (snd (engine_activate w t d))"
    and "reg_on (snd (engine_activate w t d)) = reg_on d"
proof -
  show "eng_on (snd (engine_activate w t d)) tid \<Longrightarrow> tid = tr_id t \<or> eng_on d tid"
    "eng_on d tid \<Longrightarrow> eng_on (snd (engine_activate w t d)) tid"
    by (auto simp: engine_activate_def eng_on_def Let_def split_beta activate_active split: option.splits if_splits)
  show "reg_on (snd (engine_activate w t d)) = reg_on d" by (rule on_cong) simp
  assume l: "linked d"
  show "linked (snd (engine_activate w t d))"
    unfolding linked_def
  proof (intro allI impI)
    fix k assume c: "chan_on (snd (engine_activate w t d)) k"
    show "eng_on (snd (engine_activate w t d)) k"
    proof (cases "dm_engine d")
      case None
      with c l show ?thesis by (auto simp: engine_activate_def linked_def)
    next
      case (Some e)
      with c have r: "\<exists>r. dm_router d = Some r"
        by (auto simp: engine_activate_def chan_on_def Let_def split_beta split: option.splits)
      then obtain r where r: "dm_router d = Some r" by blast
      from l have keep: "map_of (ro_channels r) k \<noteq> None \<Longrightarrow> map_of (en_active e) k \<noteq> None"
        using r Some by (auto simp: linked_def chan_on_def eng_on_def)
      with c Some r show ?thesis
        by (auto simp: engine_activate_def chan_on_def eng_on_def Let_def split_beta activate_active
            driver_channel_def router_register_def router_deregister_def split: if_splits sum.splits option.splits)
    qed
  qed
qed

lemma activate_sync:
  assumes "in_sync d" "reg_on d (tr_id t)"
  shows "in_sync (snd (engine_activate w t d))"
  using assms engine_activate_on [where w = w and t = t and d = d] by (auto simp: in_sync_def)

lemma service_okI: "reg_inv (dm_registry d) \<Longrightarrow> linked d \<Longrightarrow> (\<And>tid. eng_on d tid \<Longrightarrow> reg_on d tid) \<Longrightarrow> service_ok d"
  by (simp add: service_ok_def in_sync_def)

lemma service_okD:
  "service_ok d \<Longrightarrow> reg_inv (dm_registry d)" "service_ok d \<Longrightarrow> linked d" "service_ok d \<Longrightarrow> eng_on d tid \<Longrightarrow> reg_on d tid"
  "service_ok d \<Longrightarrow> in_sync d"
  by (simp_all add: service_ok_def in_sync_def)

lemma service_ok_cong:
  "dm_registry d = dm_registry d' \<Longrightarrow> dm_engine d = dm_engine d' \<Longrightarrow> dm_router d = dm_router d' \<Longrightarrow> service_ok d = service_ok d'"
  using on_cong [of d d'] by (simp add: service_ok_def in_sync_def linked_def)

lemma service_ok_persist [simp]: "service_ok (persist_state w d) = service_ok d"
  by (rule service_ok_cong) (simp_all add: persist_state_def)

lemma in_sync_persist [simp]: "in_sync (persist_state w d) = in_sync d"
  by (simp add: in_sync_def linked_def)

section \<open>Every handler keeps the agreement\<close>

lemma status_reg_on:
  assumes "reg_inv (dm_registry d)" "change_trigger s (dm_registry d) ident = (Inr (i, name, same), r)"
  shows "reg_on (d\<lparr>dm_registry := r\<rparr>) tid \<longleftrightarrow> (if tid = i then s = st_active else reg_on d tid)"
    "\<exists>t. get_trigger (dm_registry d) i = Some t \<and> get_trigger r i = Some (t\<lparr>tr_status := s\<rparr>) \<and> tr_id t = i \<and> same = (tr_status t = s)"
proof -
  note c = change_trigger_effect [OF assms(1), where s = s and ident = ident, unfolded assms(2), simplified]
  from c obtain t where t: "get_trigger (dm_registry d) i = Some t" "tr_id t = i" "same = (tr_status t = s)"
    and all: "get_trigger r k = (if k = i then Some (t\<lparr>tr_status := s\<rparr>) else get_trigger (dm_registry d) k)" for k
    by (metis option.inject)
  show "reg_on (d\<lparr>dm_registry := r\<rparr>) tid \<longleftrightarrow> (if tid = i then s = st_active else reg_on d tid)"
    by (simp add: reg_on_def all trigger_active_def)
  show "\<exists>t. get_trigger (dm_registry d) i = Some t \<and> get_trigger r i = Some (t\<lparr>tr_status := s\<rparr>) \<and> tr_id t = i \<and> same = (tr_status t = s)"
    using t all by simp
qed

lemma change_trigger_error: "change_trigger s r ident = (Inl e, r') \<Longrightarrow> r' = r"
  by (auto simp: change_trigger_def split: option.splits)

lemma change_action_triggers: "re_triggers (snd (change_action s r ident)) = re_triggers r"
  by (simp add: change_action_def set_action_status_def split: option.splits)

lemma suspend_trigger_ok: "service_ok d \<Longrightarrow> service_ok (snd (rpc_suspend_trigger w ident d))"
proof -
  assume ok: "service_ok d"
  obtain res r where c: "suspend_trigger (dm_registry d) ident = (res, r)" by fastforce
  show ?thesis
  proof (cases res)
    case (Inl e)
    with c ok show ?thesis by (auto simp: rpc_suspend_trigger_def suspend_trigger_def dest: change_trigger_error)
  next
    case (Inr p)
    obtain i name same where p: "p = (i, name, same)" by (cases p)
    let ?d = "d\<lparr>dm_registry := r\<rparr>"
    have st: "change_trigger st_suspended (dm_registry d) ident = (Inr (i, name, same), r)"
      using c Inr p by (simp add: suspend_trigger_def)
    note s = status_reg_on(1) [OF service_okD(1) [OF ok] st]
    have inv: "reg_inv r" using change_trigger_inv [OF service_okD(1) [OF ok], of st_suspended ident] st by simp
    have l: "linked ?d" using service_okD(2) [OF ok] by (simp add: linked_def)
    have "service_ok (engine_deactivate i ?d)"
      using inv service_okD(3) [OF ok]
      by (intro service_okI engine_deactivate_linked [OF l]) (auto simp: engine_deactivate_on s)
    with c Inr p ok show ?thesis by (simp add: rpc_suspend_trigger_def)
  qed
qed

lemma resume_trigger_ok: "service_ok d \<Longrightarrow> service_ok (snd (rpc_resume_trigger w ident d))"
proof -
  assume ok: "service_ok d"
  obtain res r where c: "resume_trigger (dm_registry d) ident = (res, r)" by fastforce
  show ?thesis
  proof (cases res)
    case (Inl e)
    with c ok show ?thesis by (auto simp: rpc_resume_trigger_def resume_trigger_def dest: change_trigger_error)
  next
    case (Inr p)
    obtain i name same where p: "p = (i, name, same)" by (cases p)
    let ?d = "d\<lparr>dm_registry := r\<rparr>"
    have st: "change_trigger st_active (dm_registry d) ident = (Inr (i, name, same), r)"
      using c Inr p by (simp add: resume_trigger_def)
    note s = status_reg_on [OF service_okD(1) [OF ok] st]
    have inv: "reg_inv r" using change_trigger_inv [OF service_okD(1) [OF ok], of st_active ident] st by simp
    have d: "in_sync ?d" using service_okD(2,3) [OF ok] by (auto simp: in_sync_def linked_def s(1))
    from s(2) obtain t where t: "get_trigger r i = Some (t\<lparr>tr_status := st_active\<rparr>)" "tr_id t = i" by blast
    have "in_sync (snd (engine_activate w (t\<lparr>tr_status := st_active\<rparr>) ?d))"
      by (rule activate_sync [OF d]) (simp add: s(1) t(2))
    with c Inr p ok inv d t show ?thesis by (simp add: rpc_resume_trigger_def service_ok_def Let_def)
  qed
qed

lemma change_action_ok:
  assumes "service_ok d" "\<And>r ident. change r ident = change_action s r ident"
  shows "service_ok (snd (rpc_change_action change w ident d))"
proof -
  obtain res r where c: "change_action s (dm_registry d) ident = (res, r)" by fastforce
  have t: "re_triggers r = re_triggers (dm_registry d)" using change_action_triggers [of s "dm_registry d" ident] c by simp
  have inv: "reg_inv r" using change_action_inv [OF service_okD(1) [OF assms(1)], of s ident] c by simp
  have "reg_on (d\<lparr>dm_registry := r\<rparr>) = reg_on d" by (simp add: reg_on_def get_trigger_def t fun_eq_iff)
  then have "service_ok (d\<lparr>dm_registry := r\<rparr>)" using assms(1) inv by (simp add: service_ok_def in_sync_def linked_def)
  with c assms show ?thesis by (auto simp: rpc_change_action_def split: sum.splits)
qed

lemma uninstall_ok: "service_ok d \<Longrightarrow> service_ok (snd (rpc_uninstall_plugin w ident d))"
proof -
  assume ok: "service_ok d"
  show ?thesis
  proof (cases "ident = [] \<or> find_by_identifier (dm_plugins d) ident = None")
    case True
    with ok show ?thesis by (auto simp: rpc_uninstall_plugin_def)
  next
    case False
    then obtain p where p: "find_by_identifier (dm_plugins d) ident = Some p" by blast
    let ?ns = "mf_namespace (ip_manifest p)"
    obtain ts as r where s: "suspend_by_plugin_id (dm_registry d) ?ns = ((ts, as), r)" by (metis prod.collapse)
    let ?d = "d\<lparr>dm_plugins := filter (\<lambda>q. ip_id q \<noteq> ip_id p) (dm_plugins d), dm_registry := r\<rparr>"
    have inv: "reg_inv r" using suspend_by_plugin_inv [OF service_okD(1) [OF ok], of ?ns] s by simp
    have l: "linked ?d" using service_okD(2) [OF ok] by (simp add: linked_def)
    have on: "reg_on ?d tid" if a: "reg_on d tid" "tid \<notin> set ts" for tid
    proof -
      from a(1) obtain t where t: "map_of (re_triggers (dm_registry d)) tid = Some t" "tr_status t = st_active"
        by (auto simp: reg_on_def trigger_active_def get_trigger_def split: option.splits)
      have "tr_id t = tid" using rl.trig_id [OF service_okD(1) [OF ok]] t(1) by (simp add: get_trigger_def)
      moreover have "t \<in> set (amap_vals (re_triggers (dm_registry d)))" using t(1) by (force simp: amap_vals_def dest: map_of_SomeD)
      moreover have "ts = map tr_id (filter (\<lambda>t. tr_plugin_id t = ?ns \<and> tr_status t \<noteq> st_suspended) (amap_vals (re_triggers (dm_registry d))))"
        using s by (auto simp: suspend_by_plugin_id_def Let_def)
      ultimately have "tr_plugin_id t \<noteq> ?ns" using a(2) t(2) by auto
      with s t show ?thesis by (auto simp: suspend_by_plugin_id_def Let_def reg_on_def get_trigger_def trigger_active_def)
    qed
    note da = deactivate_all_on [OF l, of ts]
    have "service_ok (deactivate_all ts ?d)"
      using inv on service_okD(3) [OF ok] da(3-5) by (intro service_okI) (auto simp: da(1))
    with False p s show ?thesis by (cases "ts = []") (simp_all add: rpc_uninstall_plugin_def Let_def)
  qed
qed

lemma dereg_keeps_trigger:
  assumes inv: "reg_inv r" and rc: "map_of (re_recurfiles r) (rc_id rc) = Some rc"
    and t: "get_trigger r tid = Some t" "tid \<notin> set (trigger_ids_of r rc)"
  shows "get_trigger (fst (unlocked_deregister r rc)) tid = Some t"
proof -
  obtain r' tn an where r': "unlocked_deregister r rc = (r', tn, an)" by (cases "unlocked_deregister r rc")
  from t(1) have t': "map_of (re_triggers r) tid = Some t" by (simp add: get_trigger_def)
  from links_trigger(2) [OF reg_invD(2) [OF inv] t'] obtain g where
    g: "map_of (re_groups r) (tr_group_id t) = Some g" "tid \<in> set (gp_trigger_ids g)" by blast
  with t(2) have "tr_group_id t \<notin> set (rc_groups rc)" by (force simp: trigger_ids_of_def)
  with dereg_fields(3) [OF reg_invD(2,3) [OF inv] rc r', of tid] t' r' show ?thesis by (simp add: get_trigger_def)
qed

lemma register_old_ids:
  "rr_old_trigger_ids (snd (register_recurfile env inp r f)) =
     (case old_recurfile env r (file_path env f) of None \<Rightarrow> [] | Some rc \<Rightarrow> trigger_ids_of r rc)"
  "rr_reloaded (snd (register_recurfile env inp r f)) \<longleftrightarrow> old_recurfile env r (file_path env f) \<noteq> None"
  by (simp_all add: register_recurfile_def register_resolved_def Let_def split_beta old_recurfile_def file_path_def split: option.splits)

lemma register_keeps_trigger:
  assumes inv: "reg_inv r" and fresh: "ids_fresh env inp r f" and t: "get_trigger r tid = Some t"
    "tid \<notin> set (rr_old_trigger_ids (snd (register_recurfile env inp r f)))"
  shows "get_trigger (fst (register_recurfile env inp r f)) tid = Some t"
proof -
  let ?b = "base_registry env r (file_path env f)"
  have "get_trigger ?b tid = Some t"
  proof (cases "old_recurfile env r (file_path env f)")
    case None
    with t show ?thesis by (simp add: base_registry_def)
  next
    case (Some rc)
    with t(2) have "tid \<notin> set (trigger_ids_of r rc)" by (simp add: register_old_ids)
    from dereg_keeps_trigger [OF inv old_recurfile_mem(1) [OF Some reg_invD(1,4) [OF inv]] t(1) this] Some
    show ?thesis by (simp add: base_registry_def)
  qed
  moreover have "new_ids ?b (rc_id (the_recurfile env inp f)) (file_puts (the_plan env inp f))"
    using fresh by (simp add: ids_fresh_def the_recurfile_def)
  ultimately show ?thesis
    using put_file_lookup(3) [OF reg_invD(3) [OF base_registry_inv [OF inv]], of env "file_path env f"]
    unfolding register_put by (simp add: get_trigger_def)
qed

lemma activate_each_sync:
  assumes "in_sync (fst st)" "\<And>t. t \<in> set ts \<Longrightarrow> tr_status t = st_active \<Longrightarrow> reg_on (fst st) (tr_id t)"
  shows "in_sync (fst (foldl (activate_one w rid) st ts)) \<and>
    dm_registry (fst (foldl (activate_one w rid) st ts)) = dm_registry (fst st)"
  using assms
proof (induction ts arbitrary: st)
  case (Cons t ts)
  obtain d ws where st: "st = (d, ws)" by (cases st)
  have step: "fst (activate_one w rid (d, ws) t) = (if tr_recurfile_id t = rid \<and> tr_status t = st_active then snd (engine_activate w t d) else d)"
    by (auto simp: activate_one_def split: prod.splits option.splits)
  have "in_sync (fst (activate_one w rid st t))" "dm_registry (fst (activate_one w rid st t)) = dm_registry d"
    using Cons.prems activate_sync [of d t w] by (auto simp: st step)
  moreover from this(2) have "reg_on (fst (activate_one w rid st t)) = reg_on d" by (rule on_cong(3))
  ultimately show ?case using Cons.IH [of "activate_one w rid st t"] Cons.prems by (simp add: st)
qed simp

lemma listed_active:
  "reg_inv (dm_registry d) \<Longrightarrow> t \<in> set (list_triggers (dm_registry d)) \<Longrightarrow> tr_status t = st_active \<Longrightarrow> reg_on d (tr_id t)"
proof -
  assume inv: "reg_inv (dm_registry d)" and t: "t \<in> set (list_triggers (dm_registry d))" "tr_status t = st_active"
  from t(1) obtain k where "(k, t) \<in> set (re_triggers (dm_registry d))" by (auto simp: list_triggers_def amap_vals_def)
  then have "get_trigger (dm_registry d) k = Some t" using amap_in_iff [OF reg_invD(6) [OF inv]] by (simp add: get_trigger_def)
  with rl.trig_id [OF inv this] t(2) show ?thesis by (simp add: reg_on_def trigger_active_def)
qed

lemma register_file_ok:
  assumes ok: "service_ok d" and fresh: "\<And>f. load_file w path = Inr f \<Longrightarrow> ids_fresh (wd_reg w) (dm_input d) (dm_registry d) f"
  shows "service_ok (snd (rpc_register_recurfile w path d))"
proof (cases "path = []")
  case False
  show ?thesis
  proof (cases "load_file w path")
    case (Inr f)
    obtain r res where reg: "register_recurfile (wd_reg w) (dm_input d) (dm_registry d) f = (r, res)" by fastforce
    let ?d1 = "d\<lparr>dm_registry := r\<rparr>" and ?old = "rr_old_trigger_ids res"
    define d2 where "d2 = (if rr_reloaded res then deactivate_all ?old ?d1 else ?d1)"
    have no_old: "\<not> rr_reloaded res \<Longrightarrow> ?old = []"
      using register_old_ids [of "wd_reg w" "dm_input d" "dm_registry d" f] reg by simp
    then have d2: "d2 = deactivate_all ?old ?d1" by (auto simp: d2_def)
    have inv: "reg_inv r" using register_inv [OF service_okD(1) [OF ok] fresh [OF Inr]] reg by simp
    have l: "linked ?d1" using service_okD(2) [OF ok] by (simp add: linked_def)
    note da = deactivate_all_on [OF l, of ?old, folded d2]
    have keep: "reg_on ?d1 tid" if "reg_on d tid" "tid \<notin> set ?old" for tid
      using that register_keeps_trigger [OF service_okD(1) [OF ok] fresh [OF Inr], of tid] reg
      by (auto simp: reg_on_def trigger_active_def split: option.splits)
    have sync: "in_sync d2" using da keep service_okD(3) [OF ok] by (auto simp: in_sync_def)
    have "\<And>t. t \<in> set (list_triggers (dm_registry d2)) \<Longrightarrow> tr_status t = st_active \<Longrightarrow> reg_on d2 (tr_id t)"
      by (rule listed_active) (simp_all add: da inv)
    with activate_each_sync [of "(d2, rr_warnings res)" "list_triggers (dm_registry d2)" w "rr_recurfile_id res"] sync inv da(5)
    have "service_ok (fst (foldl (activate_one w (rr_recurfile_id res)) (d2, rr_warnings res) (list_triggers (dm_registry d2))))"
      by (simp add: service_ok_def)
    with False Inr reg show ?thesis
      by (cases "rr_reloaded res") (simp_all add: rpc_register_recurfile_def dm_register_def Let_def split_beta d2_def)
  qed (use ok False in \<open>simp add: rpc_register_recurfile_def\<close>)
qed (use ok in \<open>simp add: rpc_register_recurfile_def\<close>)

lemma deregister_file_ok:
  assumes ok: "service_ok d"
  shows "service_ok (snd (rpc_deregister_recurfile w ident d))"
proof -
  let ?r = "dm_registry d"
  let ?ids = "trigger_ids_for_recurfile ?r ident"
  note da = deactivate_all_on [OF service_okD(2) [OF ok], of ?ids]
  have sync: "service_ok (deactivate_all ?ids d)"
    using ok da by (intro service_okI) (auto dest: service_okD)
  show ?thesis
  proof (cases "find_recurfile ?r ident")
    case None
    with ok sync show ?thesis by (simp add: rpc_deregister_recurfile_def Let_def deregister_recurfile_def da(5))
  next
    case (Some rc)
    note rc = find_recurfile_Some [OF service_okD(1) [OF ok] Some]
    obtain r' tn an where r': "unlocked_deregister ?r rc = (r', tn, an)" by (cases "unlocked_deregister ?r rc")
    let ?d = "(deactivate_all ?ids d)\<lparr>dm_registry := r'\<rparr>"
    have "reg_on ?d tid" if "eng_on ?d tid" for tid
    proof -
      from that have "tid \<notin> set ?ids" "reg_on d tid" using service_okD(3) [OF ok] by (simp_all add: da(1))
      with Some r' dereg_keeps_trigger [OF service_okD(1) [OF ok] rc, of tid] show ?thesis
        by (auto simp: reg_on_def trigger_active_def trigger_ids_for_recurfile_def split: option.splits)
    qed
    moreover have "reg_inv r'" using dereg_inv [OF service_okD(1) [OF ok] rc] r' by simp
    ultimately have "service_ok ?d" using da(4) by (intro service_okI) (simp_all add: linked_def)
    with ok Some r' show ?thesis by (simp add: rpc_deregister_recurfile_def Let_def deregister_recurfile_def da(5))
  qed
qed

section \<open>Requests\<close>

text \<open>What reaches the daemon: requests to the service, events that run a trigger, drivers that exit.\<close>

datatype rpc_op =
    Set_Conf string string
  | Delete_Conf string
  | Register_File string
  | Deregister_File string
  | Suspend_T string
  | Resume_T string
  | Suspend_A string
  | Resume_A string
  | Suspend_Any string string
  | Resume_Any string string
  | Test_Any string string "(string, string) amap"
  | Install_Plugin string
  | Uninstall_Plugin string
  | Report string "(string, string) amap"
  | Run_Event "action \<Rightarrow> bool" string event
  | Driver_Exit string

fun rpc_step :: "daemon \<Rightarrow> world \<times> rpc_op \<Rightarrow> daemon" where
  "rpc_step d (w, Set_Conf k v) = snd (rpc_set_config w k v d)"
| "rpc_step d (w, Delete_Conf k) = snd (rpc_delete_config w k d)"
| "rpc_step d (w, Register_File path) = snd (rpc_register_recurfile w path d)"
| "rpc_step d (w, Deregister_File ident) = snd (rpc_deregister_recurfile w ident d)"
| "rpc_step d (w, Suspend_T ident) = snd (rpc_suspend_trigger w ident d)"
| "rpc_step d (w, Resume_T ident) = snd (rpc_resume_trigger w ident d)"
| "rpc_step d (w, Suspend_A ident) = snd (rpc_suspend_action w ident d)"
| "rpc_step d (w, Resume_A ident) = snd (rpc_resume_action w ident d)"
| "rpc_step d (w, Suspend_Any ident ty) = snd (rpc_suspend_entity w ident ty d)"
| "rpc_step d (w, Resume_Any ident ty) = snd (rpc_resume_entity w ident ty d)"
| "rpc_step d (w, Test_Any ident ty vars) = snd (rpc_test_entity w ident ty vars d)"
| "rpc_step d (w, Install_Plugin path) = snd (rpc_install_plugin w path d)"
| "rpc_step d (w, Uninstall_Plugin ident) = snd (rpc_uninstall_plugin w ident d)"
| "rpc_step d (w, Report tid vars) = snd (rpc_report_event tid vars d)"
| "rpc_step d (w, Run_Event ab tid ev) = fire w ab tid ev d"
| "rpc_step d (w, Driver_Exit tid) = on_trigger_error w tid d"

text \<open>A registration whose identifiers collide with registered ones is left out.\<close>

fun fresh_request :: "daemon \<Rightarrow> world \<times> rpc_op \<Rightarrow> bool" where
  "fresh_request d (w, Register_File path) =
     (case load_file w path of Inl _ \<Rightarrow> True | Inr f \<Rightarrow> ids_fresh (wd_reg w) (dm_input d) (dm_registry d) f)"
| "fresh_request d _ = True"

abbreviation fresh_requests :: "daemon \<Rightarrow> (world \<times> rpc_op) list \<Rightarrow> bool" where
  "fresh_requests \<equiv> permitted rpc_step fresh_request"

lemma config_keeps:
  "dm_registry (snd (apply_config w d)) = dm_registry d" "dm_engine (snd (apply_config w d)) = dm_engine d"
  "dm_router (snd (apply_config w d)) = dm_router d"
proof -
  have save: "config_save w c d1 = (e, d2) \<Longrightarrow>
      dm_registry d2 = dm_registry d1 \<and> dm_engine d2 = dm_engine d1 \<and> dm_router d2 = dm_router d1" for c d1 e d2
    by (auto simp: config_save_def split: prod.splits sum.splits)
  obtain eff s where "st_get (dm_store d) = (eff, s)" by fastforce
  then have "dm_registry (snd (apply_config w d)) = dm_registry d \<and> dm_engine (snd (apply_config w d)) = dm_engine d \<and>
      dm_router (snd (apply_config w d)) = dm_router d"
    by (auto simp: apply_config_def Let_def dest!: save split: prod.splits option.splits)
  then show "dm_registry (snd (apply_config w d)) = dm_registry d" "dm_engine (snd (apply_config w d)) = dm_engine d"
    "dm_router (snd (apply_config w d)) = dm_router d"
    by simp_all
qed

lemma set_config_ok: "service_ok d \<Longrightarrow> service_ok (snd (rpc_set_config w k v d))"
  using service_ok_cong [of "snd (rpc_set_config w k v d)" d]
  by (simp add: rpc_set_config_def config_keeps split: prod.splits option.splits)

lemma delete_config_ok: "service_ok d \<Longrightarrow> service_ok (snd (rpc_delete_config w k d))"
  using service_ok_cong [of "snd (rpc_delete_config w k d)" d]
  by (simp add: rpc_delete_config_def config_keeps split: prod.splits option.splits)

lemma on_entity_cases:
  "snd (on_entity verb f g ident ty d) = d \<or> (\<exists>i. snd (on_entity verb f g ident ty d) = snd (f i d)) \<or>
   (\<exists>i. snd (on_entity verb f g ident ty d) = snd (g i d))"
  by (auto simp: on_entity_def split: sum.splits)

lemma on_entity_ok:
  assumes "service_ok d" "\<And>i. service_ok (snd (f i d))" "\<And>i. service_ok (snd (g i d))"
  shows "service_ok (snd (on_entity verb f g ident ty d))"
  using on_entity_cases [of verb f g ident ty d] assms by metis

lemma actions_ok:
  "service_ok d \<Longrightarrow> service_ok (snd (rpc_suspend_action w ident d))"
  "service_ok d \<Longrightarrow> service_ok (snd (rpc_resume_action w ident d))"
  unfolding rpc_suspend_action_def rpc_resume_action_def
  by (rule change_action_ok [where s = st_suspended], assumption, simp add: suspend_action_def)
    (rule change_action_ok [where s = st_active], assumption, simp add: resume_action_def)

lemma resolve_secrets_ok: "service_ok (snd (resolve_secrets_into w c rid d)) = service_ok d"
  by (rule service_ok_cong) simp_all

lemma test_ok:
  assumes "service_ok d"
  shows "service_ok (snd (rpc_test_trigger w i vars d))" "service_ok (snd (rpc_test_action w i vars d))"
proof -
  have r: "service_ok d1" if "resolve_secrets_into w c rid d = (c1, d1)" for c rid c1 d1
    using resolve_secrets_ok [of w c rid d] that assms by simp
  show "service_ok (snd (rpc_test_trigger w i vars d))"
    using assms by (auto simp: rpc_test_trigger_def Let_def split: option.splits prod.splits dest: r)
  show "service_ok (snd (rpc_test_action w i vars d))"
    using assms by (auto simp: rpc_test_action_def Let_def split: option.splits prod.splits dest: r)
qed

lemma install_ok: "service_ok d \<Longrightarrow> service_ok (snd (rpc_install_plugin w path d))"
  using service_ok_cong [of "snd (rpc_install_plugin w path d)" d]
  by (simp add: rpc_install_plugin_def Let_def split: sum.splits)

lemma deliver_channels: "ro_channels (snd (router_deliver tid ev r)) = ro_channels r"
  by (simp add: router_deliver_def split: option.splits)

lemma report_ok: "service_ok d \<Longrightarrow> service_ok (snd (rpc_report_event tid vars d))"
proof -
  assume ok: "service_ok d"
  have r: "service_ok (d\<lparr>dm_router := Some r'\<rparr>)" if "dm_router d = Some r" "router_deliver t ev r = (err, r')" for r r' t ev err
  proof -
    from that(2) have "ro_channels r' = ro_channels r" using deliver_channels [of t ev r] by simp
    with that(1) have "chan_on (d\<lparr>dm_router := Some r'\<rparr>) = chan_on d" by (simp add: chan_on_def fun_eq_iff)
    moreover have "eng_on (d\<lparr>dm_router := Some r'\<rparr>) = eng_on d" "reg_on (d\<lparr>dm_router := Some r'\<rparr>) = reg_on d"
      by (rule on_cong; simp)+
    ultimately show ?thesis using ok by (simp add: service_ok_def in_sync_def linked_def)
  qed
  from ok r show ?thesis by (simp add: rpc_report_event_def split: option.splits prod.splits)
qed

lemma on_action_on:
  "eng_on (on_action w ab d a vars) = eng_on d" "chan_on (on_action w ab d a vars) = chan_on d" "reg_on (on_action w ab d a vars) = reg_on d"
proof -
  have "dm_engine (on_action w ab d a vars) = dm_engine d \<and> dm_router (on_action w ab d a vars) = dm_router d"
  proof -
    let ?c = "\<lparr>cx_test = False, cx_set = vars, cx_secrets = None\<rparr>"
    obtain c d1 where s: "resolve_secrets_into w ?c (ac_recurfile_id a) d = (c, d1)" by fastforce
    then have k: "dm_engine d1 = dm_engine d" "dm_router d1 = dm_router d"
      using resolve_secrets_keeps(2,3) [of w ?c "ac_recurfile_id a" d] by simp_all
    obtain res ws where "execute_action w (set_action (ac_id a) (\<lambda>a. a\<lparr>ac_last_executed := int (wd_now w)\<rparr>) d1) a c = (res, ws)"
      by fastforce
    then show ?thesis unfolding on_action_def s Let_def prod.case by (cases "ab a") (simp_all add: k)
  qed
  then show "eng_on (on_action w ab d a vars) = eng_on d" "chan_on (on_action w ab d a vars) = chan_on d"
    by (simp_all add: eng_on_def chan_on_def fun_eq_iff)
  show "reg_on (on_action w ab d a vars) = reg_on d"
    by (simp add: reg_on_def on_action_registry fun_eq_iff)
qed

lemma on_actions_ok: "service_ok d \<Longrightarrow> service_ok (foldl (\<lambda>d a. on_action w ab d a vars) d as)"
proof (induction "as" arbitrary: d)
  case (Cons a as)
  from Cons.prems have "service_ok (on_action w ab d a vars)"
    by (simp add: service_ok_def in_sync_def linked_def on_action_on on_action_inv)
  with Cons.IH show ?case by simp
qed simp

lemma set_trigger_on:
  assumes "\<And>t. tr_status (f t) = tr_status t"
  shows "eng_on (set_trigger i f d) = eng_on d" "chan_on (set_trigger i f d) = chan_on d" "reg_on (set_trigger i f d) = reg_on d"
proof -
  show "eng_on (set_trigger i f d) = eng_on d" "chan_on (set_trigger i f d) = chan_on d" by (rule on_cong; simp)+
  have "trigger_active (get_trigger (dm_registry (set_trigger i f d)) k) = trigger_active (get_trigger (dm_registry d) k)" for k
    using assms by (cases "map_of (re_triggers (dm_registry d)) k")
      (simp_all add: get_trigger_def set_trigger_registry trigger_active_def)
  then show "reg_on (set_trigger i f d) = reg_on d" by (simp add: reg_on_def fun_eq_iff)
qed

lemma set_trigger_ok:
  assumes "service_ok d" "keeps_trigger f" "\<And>t. tr_status (f t) = tr_status t"
  shows "service_ok (set_trigger i f d)"
  using assms set_trigger_on [of f i d] set_trigger_inv [of d f i]
  by (simp add: service_ok_def in_sync_def linked_def)

lemma fire_ok: "service_ok d \<Longrightarrow> service_ok (fire w ab tid ev d)"
proof -
  assume ok: "service_ok d"
  have "service_ok (set_trigger tid (\<lambda>t. t\<lparr>tr_last_fired := n\<rparr>) d)" for n
    by (rule set_trigger_ok [OF ok]) (simp_all add: keeps_trigger_def)
  from on_actions_ok [OF this] ok show ?thesis
    unfolding fire_def dl.handle_event_eq on_fired_def persist_state_def [symmetric] by simp
qed

lemma driver_exit_ok: "service_ok d \<Longrightarrow> service_ok (on_trigger_error w tid d)"
proof -
  assume ok: "service_ok d"
  show ?thesis
  proof (cases "get_trigger (dm_registry d) tid")
    case None
    with ok show ?thesis by (simp add: on_trigger_error_def)
  next
    case (Some t)
    let ?d1 = "set_trigger tid (\<lambda>t'. t'\<lparr>tr_error_count := tr_error_count t + 1\<rparr>) d"
    let ?d2 = "set_trigger tid (\<lambda>t. t\<lparr>tr_status := st_error\<rparr>) ?d1"
    have ok1: "service_ok ?d1" by (rule set_trigger_ok [OF ok]) (simp_all add: keeps_trigger_def)
    have inv: "reg_inv (dm_registry ?d2)" by (rule set_trigger_inv [OF service_okD(1) [OF ok1]]) (simp add: keeps_trigger_def)
    have on: "eng_on ?d2 = eng_on ?d1" "chan_on ?d2 = chan_on ?d1" by (rule on_cong; simp)+
    have l: "linked ?d2" using service_okD(2) [OF ok1] by (simp add: linked_def on)
    have "reg_on ?d2 k" if "reg_on ?d1 k" "k \<noteq> tid" for k
      using that by (simp add: reg_on_def get_trigger_def set_trigger_registry option.map_ident)
    then have "service_ok (engine_deactivate tid ?d2)"
      using service_okD(3) [OF ok1] inv
      by (intro service_okI engine_deactivate_linked [OF l]) (auto simp: engine_deactivate_on on)
    with Some ok1 show ?thesis unfolding on_trigger_error_def Let_def persist_state_def [symmetric] by simp
  qed
qed

lemma step_ok:
  assumes "service_ok d" "fresh_request d p" shows "service_ok (rpc_step d p)"
proof -
  obtain w q where p: "p = (w, q)" by (cases p)
  have e: "service_ok (snd (rpc_suspend_entity w ident ty d))" "service_ok (snd (rpc_resume_entity w ident ty d))"
    "service_ok (snd (rpc_test_entity w ident ty vars d))" for ident ty vars
    unfolding rpc_suspend_entity_def rpc_resume_entity_def rpc_test_entity_def
    by (rule on_entity_ok [OF assms(1)]; simp add: assms(1) suspend_trigger_ok resume_trigger_ok actions_ok test_ok)+
  have r: "service_ok (snd (rpc_register_recurfile w path d))" if "q = Register_File path" for path
    using assms(2) that by (intro register_file_ok [OF assms(1)]) (simp add: p)
  from assms(1) r show ?thesis
    unfolding p by (cases q) (simp_all add: e set_config_ok delete_config_ok deregister_file_ok suspend_trigger_ok
      resume_trigger_ok actions_ok install_ok uninstall_ok report_ok fire_ok driver_exit_ok)
qed

interpretation sm: machine rpc_step fresh_request service_ok
  by unfold_locales (rule step_ok)

lemma activate_all_sync:
  assumes "service_ok d" "\<And>t. t \<in> set ts \<Longrightarrow> tr_status t = st_active \<Longrightarrow> reg_on d (tr_id t)"
  shows "service_ok (foldl (\<lambda>d t. if tr_status t = st_active then snd (engine_activate w t d) else d) d ts)"
  using assms
proof (induction ts arbitrary: d)
  case (Cons t ts)
  let ?d = "if tr_status t = st_active then snd (engine_activate w t d) else d"
  have "service_ok ?d" using Cons.prems activate_sync [of d t w] by (simp add: service_ok_def)
  moreover have "reg_on ?d = reg_on d" using engine_activate_on(4) [of w t d] by simp
  ultimately show ?case using Cons.IH [of ?d] Cons.prems(2) by simp
qed simp

lemma started_ok:
  assumes "reg_inv (dm_registry d)" "dm_engine d = Some new_engine" "dm_router d = Some new_router"
  shows "service_ok (activate_registered w d)"
proof -
  have "service_ok d"
    using assms by (intro service_okI) (simp_all add: linked_def eng_on_def chan_on_def new_engine_def new_router_def)
  then show ?thesis
    unfolding activate_registered_def by (rule activate_all_sync) (rule listed_active [OF assms(1)])
qed

text \<open>
  C2: the daemon stays coherent whatever it is asked. From its start on, after any sequence of
  requests, events and driver exits whose registrations bring new identifiers, the registry is
  consistent, the engine holds only triggers that the registry lists as active, and the router
  only has channels of triggers in the engine.
\<close>

theorem service_invariant:
  assumes "reg_inv (dm_registry d0)" "dm_engine d0 = Some new_engine" "dm_router d0 = Some new_router"
    and "fresh_requests (activate_registered w d0) ops"
  shows "let d = foldl rpc_step (activate_registered w d0) ops in reg_inv (dm_registry d) \<and>
    (case dm_engine d of None \<Rightarrow> True | Some e \<Rightarrow>
       \<not> (\<exists>tid. map_of (en_active e) tid \<noteq> None \<and> \<not> trigger_active (get_trigger (dm_registry d) tid)) \<and>
       (case dm_router d of None \<Rightarrow> True | Some r \<Rightarrow>
          \<not> (\<exists>tid. map_of (ro_channels r) tid \<noteq> None \<and> map_of (en_active e) tid = None)))"
proof -
  let ?d = "foldl rpc_step (activate_registered w d0) ops"
  have "service_ok ?d" by (rule sm.run_inv [OF started_ok [OF assms(1-3)] assms(4)])
  then show ?thesis
    by (auto simp: Let_def service_ok_def in_sync_def linked_def eng_on_def chan_on_def reg_on_def split: option.splits)
qed

section \<open>A suspended trigger is silent\<close>

fun wakes :: "rpc_op \<Rightarrow> bool" where
  "wakes (Register_File _) = True"
| "wakes (Resume_T _) = True"
| "wakes (Resume_Any _ _) = True"
| "wakes _ = False"

lemma suspend_stays_off:
  assumes "service_ok d" "reg_on (snd (rpc_suspend_trigger w ident d)) i" shows "reg_on d i"
proof -
  obtain res r where c: "change_trigger st_suspended (dm_registry d) ident = (res, r)" by fastforce
  show ?thesis
  proof (cases res)
    case (Inl e)
    with c assms(2) show ?thesis
      by (auto simp: rpc_suspend_trigger_def suspend_trigger_def dest: change_trigger_error split: if_splits)
  next
    case (Inr p)
    obtain j name same where p: "p = (j, name, same)" by (cases p)
    with c Inr assms(2) status_reg_on(1) [OF service_okD(1) [OF assms(1)], of st_suspended ident j name same r i] show ?thesis
      by (auto simp: rpc_suspend_trigger_def suspend_trigger_def engine_deactivate_on split: if_splits)
  qed
qed

lemma change_action_reg_on:
  assumes "\<And>r ident. change r ident = change_action s r ident"
  shows "reg_on (snd (rpc_change_action change w ident d)) = reg_on d"
proof -
  obtain res r where c: "change_action s (dm_registry d) ident = (res, r)" by fastforce
  have "re_triggers r = re_triggers (dm_registry d)" using change_action_triggers [of s "dm_registry d" ident] c by simp
  then have "reg_on (d\<lparr>dm_registry := r\<rparr>) = reg_on d" by (simp add: reg_on_def get_trigger_def fun_eq_iff)
  with c assms show ?thesis by (auto simp: rpc_change_action_def split: sum.splits)
qed

lemma actions_reg_on:
  "reg_on (snd (rpc_suspend_action w ident d)) = reg_on d" "reg_on (snd (rpc_resume_action w ident d)) = reg_on d"
  unfolding rpc_suspend_action_def rpc_resume_action_def
  by (rule change_action_reg_on [where s = st_suspended], simp add: suspend_action_def)
    (rule change_action_reg_on [where s = st_active], simp add: resume_action_def)

lemma test_reg_on:
  "reg_on (snd (rpc_test_trigger w i vars d)) = reg_on d" "reg_on (snd (rpc_test_action w i vars d)) = reg_on d"
proof -
  have r: "reg_on d1 = reg_on d" if "resolve_secrets_into w c rid d = (c1, d1)" for c rid c1 d1
    using resolve_secrets_keeps(1) [of w c rid d] that by (intro on_cong(3)) simp
  show "reg_on (snd (rpc_test_trigger w i vars d)) = reg_on d" "reg_on (snd (rpc_test_action w i vars d)) = reg_on d"
    by (auto simp: rpc_test_trigger_def rpc_test_action_def Let_def split: option.splits prod.splits dest: r)
qed

lemma uninstall_stays_off:
  "reg_on (snd (rpc_uninstall_plugin w ident d)) i \<Longrightarrow> service_ok d \<Longrightarrow> reg_on d i"
proof -
  assume on: "reg_on (snd (rpc_uninstall_plugin w ident d)) i" and ok: "service_ok d"
  show ?thesis
  proof (cases "ident = [] \<or> find_by_identifier (dm_plugins d) ident = None")
    case True
    with on show ?thesis by (cases "ident = []") (simp_all add: rpc_uninstall_plugin_def)
  next
    case False
    then obtain p where p: "find_by_identifier (dm_plugins d) ident = Some p" by blast
    let ?ns = "mf_namespace (ip_manifest p)"
    obtain ts as r where s: "suspend_by_plugin_id (dm_registry d) ?ns = ((ts, as), r)" by (metis prod.collapse)
    let ?d = "d\<lparr>dm_plugins := filter (\<lambda>q. ip_id q \<noteq> ip_id p) (dm_plugins d), dm_registry := r\<rparr>"
    have l: "linked ?d" using service_okD(2) [OF ok] by (simp add: linked_def)
    from on False p s have "reg_on ?d i"
      by (auto simp: rpc_uninstall_plugin_def Let_def deactivate_all_on(3) [OF l] split: if_splits)
    with s show ?thesis
      by (auto simp: reg_on_def trigger_active_def get_trigger_def suspend_by_plugin_id_def Let_def split: option.splits if_splits)
  qed
qed

lemma deregister_stays_off:
  assumes "service_ok d" "reg_on (snd (rpc_deregister_recurfile w ident d)) i" shows "reg_on d i"
proof -
  let ?r = "dm_registry d"
  note da = deactivate_all_on [OF service_okD(2) [OF assms(1)], of "trigger_ids_for_recurfile ?r ident"]
  show ?thesis
  proof (cases "find_recurfile ?r ident")
    case None
    with assms(2) show ?thesis
      by (auto simp: rpc_deregister_recurfile_def Let_def deregister_recurfile_def da(3,5) split: if_splits)
  next
    case (Some rc)
    note rc = find_recurfile_Some [OF service_okD(1) [OF assms(1)] Some]
    obtain r' tn an where r': "unlocked_deregister ?r rc = (r', tn, an)" by (cases "unlocked_deregister ?r rc")
    note f = dereg_fields(3) [OF reg_invD(2,3) [OF service_okD(1) [OF assms(1)]] rc r', of i]
    with assms(2) Some r' show ?thesis
      by (auto simp: rpc_deregister_recurfile_def Let_def deregister_recurfile_def da(5) reg_on_def get_trigger_def trigger_active_def
          split: if_splits option.splits)
  qed
qed

lemma step_stays_off:
  assumes ok: "service_ok d" and p: "\<not> wakes q" and on: "reg_on (rpc_step d (w, q)) i"
  shows "reg_on d i"
proof -
  have conf: "reg_on (snd (rpc_set_config w k v d)) = reg_on d" "reg_on (snd (rpc_delete_config w k d)) = reg_on d"
    "reg_on (snd (rpc_install_plugin w k d)) = reg_on d" "reg_on (snd (rpc_report_event k vs d)) = reg_on d" for k v vs
    by (rule on_cong; auto simp: rpc_set_config_def rpc_delete_config_def rpc_install_plugin_def rpc_report_event_def config_keeps Let_def
        split: prod.splits option.splits sum.splits)+
  have ent: "reg_on d i" if "reg_on (snd (on_entity verb f g ident ty d)) i"
    "\<And>j. reg_on (snd (f j d)) i \<Longrightarrow> reg_on d i" "\<And>j. reg_on (snd (g j d)) i \<Longrightarrow> reg_on d i" for verb ident ty and f g :: "string \<Rightarrow> daemon \<Rightarrow> 'x rpc \<times> daemon"
    using on_entity_cases [of verb f g ident ty d] that by metis
  have fire: "reg_on (fire w ab tid ev d) i \<Longrightarrow> reg_on d i" for ab tid ev
  proof -
    have acts: "reg_on (foldl (\<lambda>d a. on_action w ab d a vars) d0 as) = reg_on d0" for vars d0 as
      by (induction "as" arbitrary: d0) (simp_all add: on_action_on)
    show "reg_on (fire w ab tid ev d) i \<Longrightarrow> reg_on d i"
      unfolding fire_def dl.handle_event_eq on_fired_def
      by (simp add: acts set_trigger_on split: if_splits)
  qed
  have exit: "reg_on (on_trigger_error w tid d) i \<Longrightarrow> reg_on d i" for tid
    by (auto simp: on_trigger_error_def Let_def reg_on_def get_trigger_def set_trigger_registry trigger_active_def
        split: option.splits if_splits)
  show ?thesis
  proof (cases q)
    case (Suspend_Any ident ty)
    with on suspend_stays_off [OF ok] show ?thesis
      by (auto simp: rpc_suspend_entity_def actions_reg_on intro: ent)
  next
    case (Test_Any ident ty vars)
    with on show ?thesis by (auto simp: rpc_test_entity_def test_reg_on intro: ent)
  next
    case (Run_Event ab tid ev)
    with on fire show ?thesis by simp
  next
    case (Driver_Exit tid)
    with on exit show ?thesis by simp
  qed (use on p suspend_stays_off [OF ok] uninstall_stays_off [OF _ ok] deregister_stays_off [OF ok] conf actions_reg_on in
      \<open>auto\<close>)
qed

lemma quiet_fresh: "\<not> wakes (snd p) \<Longrightarrow> fresh_request d p"
  by (cases p; cases "snd p") auto

text \<open>The service among requests that wake nothing.\<close>

interpretation quiet: machine rpc_step "\<lambda>_ p. \<not> wakes (snd p)" service_ok
  by unfold_locales (rule step_ok, assumption, rule quiet_fresh)

lemma step_keeps_off: "service_ok d \<Longrightarrow> \<not> wakes (snd p) \<Longrightarrow> \<not> reg_on d i \<Longrightarrow> \<not> reg_on (rpc_step d p) i"
  using step_stays_off [of d "snd p" "fst p" i] by auto

lemma off_rejects:
  assumes "service_ok d" "\<not> reg_on d i"
  shows "fst (rpc_report_event i vars d) \<noteq> None" "fire w ab i ev d = d"
proof -
  have c: "\<not> chan_on d i" using assms by (auto simp: service_ok_def in_sync_def linked_def)
  have "fst (router_deliver i e r) \<noteq> None" if "dm_router d = Some r" for e r
    using c that by (simp add: chan_on_def router_deliver_def)
  then show "fst (rpc_report_event i vars d) \<noteq> None"
    by (auto simp: rpc_report_event_def split_beta split: option.splits)
  show "fire w ab i ev d = d" using assms(2) by (simp add: fire_def dl.handle_event_eq reg_on_def)
qed

text \<open>
  C28: suspending a trigger silences it. After \<open>SuspendTrigger\<close> succeeds, and then after any requests
  and events among which nothing is resumed or registered, an event that the trigger's plugin
  reports is rejected, and an event of it that is still under way runs nothing.
\<close>

theorem suspended_trigger_silent:
  assumes "service_ok d" "rpc_suspend_trigger w ident d = (Inr (i, name, same), d1)"
    and "list_all (\<lambda>p. \<not> wakes (snd p)) ops" "d2 = foldl rpc_step d1 ops"
  shows "fst (rpc_report_event i vars d2) \<noteq> None \<and> fire w2 ab i ev d2 = d2 \<and>
    (case dm_engine d2 of None \<Rightarrow> True | Some e \<Rightarrow> map_of (en_active e) i = None)"
proof -
  have ok1: "service_ok d1" using suspend_trigger_ok [OF assms(1), of w ident] assms(2) by simp
  obtain r where c: "change_trigger st_suspended (dm_registry d) ident = (Inr (i, name, same), r)"
    using assms(2) by (auto simp: rpc_suspend_trigger_def suspend_trigger_def rpc_fail_def split: if_splits prod.splits sum.splits)
  with assms(2) have d1: "d1 = persist_state w (engine_deactivate i (d\<lparr>dm_registry := r\<rparr>))"
    by (auto simp: rpc_suspend_trigger_def suspend_trigger_def rpc_fail_def split: if_splits)
  have "\<not> reg_on d1 i"
    using status_reg_on(1) [OF service_okD(1) [OF assms(1)] c, of i] by (simp add: d1 engine_deactivate_on)
  note off1 = this
  have off: "\<not> reg_on d2 i" unfolding assms(4)
    by (rule quiet.run_stable [where P = "\<lambda>d. \<not> reg_on d i", OF step_keeps_off ok1 off1]) (simp_all add: assms(3))
  have ok2: "service_ok d2" unfolding assms(4) by (rule quiet.run_inv [OF ok1]) (simp add: assms(3))
  from off service_okD(3) [OF ok2, of i] have "\<not> eng_on d2 i" by blast
  then have "case dm_engine d2 of None \<Rightarrow> True | Some e \<Rightarrow> map_of (en_active e) i = None"
    by (auto simp: eng_on_def split: option.splits)
  with off_rejects [OF ok2 off] show ?thesis by blast
qed

section \<open>Resuming\<close>

text \<open>
  C29: resuming a suspended trigger makes it receive again. If a plugin serves its type and the
  plugin's process starts, \<open>ResumeTrigger\<close> puts it into the engine, and the next event that its
  plugin reports with known context keys is accepted.
\<close>

theorem resumed_trigger_receives:
  assumes "service_ok d" "get_trigger (dm_registry d) i = Some t" "tr_status t \<noteq> st_active" "i \<noteq> []"
    and "dm_engine d = Some e" "\<not> en_stopped e" "dm_router d = Some r"
    and "pick_driver (dm_factories w d) (t\<lparr>tr_status := st_active\<rparr>) = Inr dr" "wd_start w dr = None"
    and "unknown_context_key (dm_plugins d) (t\<lparr>tr_status := st_active\<rparr>) vars = None"
  shows "\<exists>d1. rpc_resume_trigger w i d = (Inr (i, tr_type t, False), d1) \<and>
    (\<exists>e1. dm_engine d1 = Some e1 \<and> map_of (en_active e1) i \<noteq> None) \<and> fst (rpc_report_event i vars d1) = None"
proof -
  let ?t = "t\<lparr>tr_status := st_active\<rparr>" and ?r = "dm_registry d"
  note inv = service_okD(1) [OF assms(1)]
  have id: "tr_id t = i" by (rule rl.trig_id [OF inv assms(2)])
  note f = find_trigger_by_id [OF inv assms(2)]
  obtain res reg where c: "change_trigger st_active ?r i = (res, reg)" by fastforce
  have res: "res = Inr (i, tr_type t, False)" and t1: "get_trigger reg i = Some ?t"
    using change_trigger_effect [OF inv, where s = st_active and ident = i and k = i] c f id assms(3)
    by (auto split: sum.splits)
  let ?d = "d\<lparr>dm_registry := reg\<rparr>"
  have "\<not> eng_on d i" using service_okD(3) [OF assms(1), of i] assms(2,3) by (auto simp: reg_on_def trigger_active_def)
  then have off: "map_of (en_active e) i = None" by (simp add: eng_on_def assms(5))
  have fs: "dm_factories w ?d = dm_factories w d" by (simp add: dm_factories_def)
  let ?e1 = "snd (activate (dm_factories w d) (wd_start w) ?t e)"
  let ?r1 = "snd (driver_channel i r)"
  have act: "engine_activate w ?t ?d = (None, ?d\<lparr>dm_engine := Some ?e1, dm_router := Some ?r1\<rparr>)"
    using assms(5-9) off id
    by (simp add: engine_activate_def Let_def fs activate_def)
  let ?d1 = "persist_state w (?d\<lparr>dm_engine := Some ?e1, dm_router := Some ?r1\<rparr>)"
  have step: "rpc_resume_trigger w i d = (Inr (i, tr_type t, False), ?d1)"
    using assms(4) by (simp add: rpc_resume_trigger_def resume_trigger_def c res t1 act Let_def)
  have pl: "dm_plugins ?d1 = dm_plugins d" by (simp add: persist_state_def)
  have ro: "dm_router ?d1 = Some ?r1" and rg: "dm_registry ?d1 = reg" and en: "dm_engine ?d1 = Some ?e1"
    by (simp_all add: persist_state_def)
  have "fst (router_deliver i ev ?r1) = None" for ev
    by (simp add: driver_channel_def router_register_def router_deliver_def channel_cap_def)
  then have "fst (rpc_report_event i vars ?d1) = None"
    using assms(4,10) by (simp add: rpc_report_event_def rg t1 pl ro split_beta)
  moreover have "map_of (en_active ?e1) i \<noteq> None"
    using off assms(6,8,9) id by (simp add: activate_active)
  ultimately show ?thesis using step en by blast
qed

section \<open>Uninstalling a plugin\<close>


section \<open>Resolving and inspecting\<close>

text \<open>
  resolving an identifier. The one entity it names is registered under its kind; no match is
  \<open>NotFound\<close>, and several are \<open>InvalidArgument\<close> with one candidate for each match, in order, all
  of them registered.
\<close>

theorem resolve_one_outcome:
  assumes "reg_inv r"
  shows "case resolve_one r ident allowed of
      Inr x \<Rightarrow> resolve_entity r ident allowed = [x] \<and> registered r x
    | Inl e \<Rightarrow> (case st_code e of
        Not_Found \<Rightarrow> resolve_entity r ident allowed = [] \<and> st_candidates e = []
      | Invalid_Argument \<Rightarrow> 2 \<le> length (st_candidates e) \<and>
          map (\<lambda>c. (cn_type c, cn_id c, cn_name c)) (st_candidates e) =
            map (\<lambda>x. (er_type x, er_id x, er_name x)) (resolve_entity r ident allowed) \<and>
          list_all (registered r) (resolve_entity r ident allowed)
      | _ \<Rightarrow> False)"
proof -
  have reg: "list_all (registered r) (resolve_entity r ident allowed)"
    using resolve_registered [OF assms] by (simp add: list_all_iff)
  have enr: "cn_type (enrich_candidate r x) = er_type x" "cn_id (enrich_candidate r x) = er_id x" "cn_name (enrich_candidate r x) = er_name x" for x
    by (simp_all add: enrich_candidate_def Let_def split_beta)
  consider "resolve_entity r ident allowed = []" | x where "resolve_entity r ident allowed = [x]"
    | x y zs where "resolve_entity r ident allowed = x # y # zs"
    by (metis list.exhaust)
  then show ?thesis
    by cases (use reg in \<open>simp_all add: resolve_one_def rpc_fail_def enr comp_def\<close>)
qed

lemma find_trigger_Some:
  assumes "reg_inv r" "find_trigger r ident = Some t"
  shows "\<exists>x. find_entity_by_type r ident ''trigger'' = Some x \<and> er_id x = tr_id t \<and> map_of (re_triggers r) (tr_id t) = Some t"
proof -
  from assms(2) obtain x :: entity_ref where x: "find_entity_by_type r ident ''trigger'' = Some x" "map_of (re_triggers r) (er_id x) = Some t"
    unfolding find_trigger_def find_in_def by (cases "find_entity_by_type r ident ''trigger''") auto
  with links_trigger(1) [OF reg_invD(2) [OF assms(1)] x(2)] show ?thesis by auto
qed

lemma option_values_public:
  "list_all2 (same_opt hidden) m m' \<Longrightarrow> option_values fe hidden (Some m) = option_values fe hidden (Some m')"
  by (induction m m' rule: list_all2_induct) (auto simp: option_values_def opt_pairs_def same_opt_def)


text \<open>
  The names are compared exactly, although a trigger's type finds its plugin whatever its case: written
  in another case, the type shows the sensitive options.
\<close>

lemma sensitive_case_variant:
  "sensitive_option_names [mail_driver_plugin] ''core.mail'' ''Inbox'' = [''token'']"
  "sensitive_option_names [mail_driver_plugin] ''core.mail'' ''inbox'' = []"
  "resolve_plugin_for_trigger [mail_driver_plugin] ''inbox'' = ''core.mail''"
  by (simp_all add: sensitive_option_names_def sensitive_names_def find_by_identifier_def mail_driver_plugin_def mail_manifest_def
      resolve_plugin_for_trigger_def find_trigger_definition_def equal_fold_def to_lower_def lower_char_def char_eval)

text \<open>\<open>TestTrigger\<close> runs every action of the trigger's group, those of its sibling triggers too.\<close>

lemma test_trigger_whole_group:
  assumes "ident \<noteq> []" "find_trigger (dm_registry d) ident = Some t" "find_group (dm_registry d) (tr_group_id t) = Some g"
    "rpc_test_trigger w ident vars d = (Inr (res, ws), d1)"
  shows "length res = length (List.map_filter (find_action (dm_registry d)) (gp_action_ids g))"
  using assms by (auto simp: rpc_test_trigger_def Let_def split: prod.splits)
    (metis resolve_secrets_keeps(1) snd_conv length_map)

section \<open>Witnesses\<close>

definition live_daemon :: daemon where
  "live_daemon = sample_daemon\<lparr>dm_registry := sample_reg, dm_engine := Some new_engine, dm_router := Some new_router,
     dm_run := ([], 0, [], [mail_driver_plugin\<lparr>ip_manifest := mail_manifest\<lparr>mf_triggers := [\<lparr>td_name = ''t'', td_description = [],
       td_options = [], td_context = [], td_defaults = []\<rparr>]\<rparr>\<rparr>])\<rparr>"

lemma live_ok: "service_ok live_daemon"
  by (rule service_okI)
    (simp_all add: live_daemon_def sample_reg_inv linked_def eng_on_def chan_on_def new_engine_def new_router_def)

abbreviation sid :: string where "sid \<equiv> ''322a174e96db''"

lemma live_trigger:
  obtains t where "get_trigger (dm_registry live_daemon) sid = Some t" "tr_id t = sid" "tr_type t = ''t''" "tr_status t = st_active"
  using sample_entities by (auto simp: live_daemon_def)

text \<open>The trigger is suspended: the daemon after the request, which the witnesses below continue.\<close>

lemma live_suspend:
  "\<exists>d1. rpc_suspend_trigger (sample_world 0) sid live_daemon = (Inr (sid, ''t'', False), d1) \<and> service_ok d1 \<and>
     (\<exists>t. get_trigger (dm_registry d1) sid = Some t \<and> tr_status t = st_suspended \<and> tr_type t = ''t'' \<and> tr_plugin_id t = []) \<and>
     dm_engine d1 = Some new_engine \<and> dm_router d1 = Some new_router \<and> dm_run d1 = dm_run live_daemon \<and> dm_config d1 = dm_config live_daemon"
proof -
  obtain t where t: "get_trigger sample_reg sid = Some t" "tr_id t = sid" "tr_type t = ''t''" "tr_status t = st_active"
    by (rule live_trigger) (simp add: live_daemon_def)
  note f = find_trigger_by_id [OF sample_reg_inv t(1)]
  have pid: "tr_plugin_id t = []"
  proof -
    let ?b = "base_registry sample_env new_registry (file_path sample_env sample_rf)"
    have ix: "reg_index_ok ?b" by (rule reg_invD(3) [OF base_registry_inv [OF new_registry_inv]])
    have b: "map_of (re_triggers ?b) sid = None"
      by (simp add: base_registry_def old_recurfile_def new_registry_def amap_vals_def)
    have "new_ids ?b (rc_id (the_recurfile sample_env sample_inp sample_rf)) (file_puts (the_plan sample_env sample_inp sample_rf))"
      using sample_fresh by (simp add: ids_fresh_def the_recurfile_def)
    from put_file_lookup(3) [OF ix this, folded register_put sample_reg_def, of sid t] t(1) b
    have "PutT t \<in> set (file_puts (the_plan sample_env sample_inp sample_rf))" by (simp add: get_trigger_def)
    then show ?thesis
      unfolding the_plan_def sample_wid' sample_path
      by (simp add: sample_rf_def resolve_def resolve_group_def resolve_trigger_def Let_def expand_alias_def
         file_plan_def plan_group_def plan_trigger_def plan_actions_def make_trigger_def make_action_def file_puts_def
         group_puts_def trigger_puts_def occ_def sample_ids merge_aliases_def put_all_def sample_inp_def
         resolve_plugin_for_trigger_def)
  qed
  obtain res r where c: "change_trigger st_suspended sample_reg sid = (res, r)" by fastforce
  have r: "res = Inr (sid, ''t'', False)" "get_trigger r sid = Some (t\<lparr>tr_status := st_suspended\<rparr>)"
    using change_trigger_effect [OF sample_reg_inv, where s = st_suspended and ident = sid and k = sid] c f t
    by (auto split: sum.splits)
  have d: "dm_registry live_daemon = sample_reg" "dm_state_path live_daemon = []" "dm_engine live_daemon = Some new_engine"
    "dm_router live_daemon = Some new_router"
    by (simp_all add: live_daemon_def sample_daemon_def new_daemon_def split_beta)
  let ?d1 = "live_daemon\<lparr>dm_registry := r\<rparr>"
  have "rpc_suspend_trigger (sample_world 0) sid live_daemon = (Inr (sid, ''t'', False), ?d1)"
    by (simp add: rpc_suspend_trigger_def suspend_trigger_def c r(1) d engine_deactivate_def persist_state_def save_state_def) (simp add: new_engine_def)
  moreover from this have "service_ok ?d1" using suspend_trigger_ok [OF live_ok, of "sample_world 0" sid] by simp
  ultimately show ?thesis using r(2) t pid d by simp
qed

theorem service_invariant_witness:
  "reg_inv (dm_registry (foldl rpc_step (activate_registered (sample_world 0) (sample_daemon\<lparr>dm_engine := Some new_engine, dm_router := Some new_router\<rparr>))
     [(sample_world 0, Register_File ''/r.yaml''), (sample_world 0, Suspend_T sid)]))"
proof -
  let ?d = "sample_daemon\<lparr>dm_engine := Some new_engine, dm_router := Some new_router\<rparr>"
  have r: "dm_registry ?d = new_registry" "dm_plugins ?d = []" by (simp_all add: dm_registry_sample)
  have act: "activate_registered w ?d = ?d" for w
    by (simp add: activate_registered_def list_triggers_def dm_registry_sample) (simp add: new_registry_def amap_vals_def)
  have "ids_fresh sample_env (dm_input ?d) new_registry sample_rf"
    by (rule fresh_any) (simp add: dm_input_def r)
  then have "fresh_requests (activate_registered (sample_world 0) ?d) [(sample_world 0, Register_File ''/r.yaml''), (sample_world 0, Suspend_T sid)]"
    unfolding act by (simp add: sample_load r) (simp add: sample_world_def)
  from service_invariant [OF _ _ _ this] show ?thesis by (simp add: r new_registry_inv Let_def)
qed

theorem suspended_trigger_silent_witness:
  "fst (rpc_report_event sid [] (foldl rpc_step (snd (rpc_suspend_trigger (sample_world 0) sid live_daemon))
     [(sample_world 0, Report sid []), (sample_world 0, Uninstall_Plugin ''mail'')])) \<noteq> None"
proof -
  obtain d1 where d1: "rpc_suspend_trigger (sample_world 0) sid live_daemon = (Inr (sid, ''t'', False), d1)"
    using live_suspend by blast
  from suspended_trigger_silent [OF live_ok d1 _ refl, of "[(sample_world 0, Report sid []), (sample_world 0, Uninstall_Plugin ''mail'')]"
      "[]" "sample_world 0" "\<lambda>_. False" "sample_event []"]
  show ?thesis by (simp add: d1 del: foldl_Cons)
qed

theorem resumed_trigger_receives_witness:
  "fst (rpc_report_event sid [(''Path'', ''/x'')] (snd (rpc_resume_trigger (sample_world 0) sid
     (snd (rpc_suspend_trigger (sample_world 0) sid live_daemon))))) = None"
proof -
  obtain d1 t where d1: "rpc_suspend_trigger (sample_world 0) sid live_daemon = (Inr (sid, ''t'', False), d1)" "service_ok d1"
    and t: "get_trigger (dm_registry d1) sid = Some t" "tr_status t = st_suspended" "tr_type t = ''t''" "tr_plugin_id t = []"
    and e: "dm_engine d1 = Some new_engine" "dm_router d1 = Some new_router" "dm_run d1 = dm_run live_daemon" "dm_config d1 = dm_config live_daemon"
    using live_suspend by blast
  have "\<exists>dr. pick_driver (dm_factories (sample_world 0) d1) (t\<lparr>tr_status := st_active\<rparr>) = Inr dr"
    by (simp add: dm_factories_def e(3)) (simp add: live_daemon_def plugin_factories_def external_factory_def mail_driver_plugin_def mail_manifest_def
        find_trigger_definition_def t equal_fold_def sample_world_def mail_env_def)
  then obtain dr where dr: "pick_driver (dm_factories (sample_world 0) d1) (t\<lparr>tr_status := st_active\<rparr>) = Inr dr" ..
  have s: "wd_start (sample_world 0) dr = None" by (simp add: sample_world_def)
  have u: "unknown_context_key (dm_plugins d1) (t\<lparr>tr_status := st_active\<rparr>) [(''Path'', ''/x'')] = None"
    by (simp add: unknown_context_key_def allowed_context_def t)
  from resumed_trigger_receives [OF d1(2) t(1) _ _ e(1) _ e(2) dr s u] t show ?thesis
    by (auto simp: d1(1) new_engine_def)
qed


theorem resolve_one_outcome_witness:
  "\<exists>x. resolve_one sample_reg sid [] = Inr x \<and> registered sample_reg x"
proof -
  obtain t where t: "get_trigger sample_reg sid = Some t" using sample_entities by blast
  then have "sid \<in> ref_ids sample_reg ''trigger''" using sample_reg_inv reg_invD(3) by (auto simp: reg_index_ok_def get_trigger_def)
  then obtain x where x: "x \<in> set (ix_refs (re_index sample_reg))" "er_id x = sid" by (auto simp: ref_ids_def)
  have "ix_lookup (re_index sample_reg) sid = [x]" using eix.look_id [OF reg_invD(8) [OF sample_reg_inv] x(1)] x(2) by simp
  then have "resolve_one sample_reg sid [] = Inr x" by (simp add: resolve_one_def resolve_entity_def)
  with resolve_one_outcome [OF sample_reg_inv, of sid "[]"] show ?thesis by simp
qed

definition inbox_daemon :: daemon where
  "inbox_daemon = set_trigger sid (\<lambda>t. t\<lparr>tr_plugin_id := ''core.mail'', tr_type := ''Inbox'', tr_options := Some [(''token'', VStr ''one'')]\<rparr>)
     (live_daemon\<lparr>dm_plugins := [mail_driver_plugin]\<rparr>)"


end
