(* ===== verification/Cli_Props.thy ===== *)
theory Cli_Props
  imports Cli_Apps Cli_Daemon Service_Props
begin

text \<open>
  The properties of the commands: verifying with and without the daemon, adding a group, installing
  an app, uninstalling a plugin, the exit codes of \<open>suspend\<close>, the arguments of a restarted daemon and
  the wait of \<open>stop\<close>.
\<close>

section \<open>Verifying\<close>

lemma int32_cong: "a mod 2 ^ 32 = b mod 2 ^ 32 \<Longrightarrow> int32 a = int32 b"
  unfolding int32_def by (metis mod_add_left_eq)

lemma int32_mod: "int32 a mod 2 ^ 32 = a mod 2 ^ 32"
  unfolding int32_def by (simp add: mod_diff_left_eq)

lemma int32_add: "int32 (int32 a + b) = int32 (a + b)" "int32 (a + int32 b) = int32 (a + b)"
  by (rule int32_cong, metis int32_mod mod_add_eq)+

definition group_warnings :: "raw_group \<Rightarrow> string list" where
  "group_warnings g = List.map_filter (\<lambda>t.
     if rt_actions t = [] \<and> rg_actions g = []
     then Some (''group '' @ go_quote (rg_name g) @ '', trigger '' @ go_quote (rt_type t) @ '': no actions defined'')
     else None) (rg_triggers g)"

lemma verify_triggers:
  "foldl (verify_trigger g) (ws, int32 n) ts =
     (ws @ List.map_filter (\<lambda>t. if rt_actions t = [] \<and> rg_actions g = []
        then Some (''group '' @ go_quote (rg_name g) @ '', trigger '' @ go_quote (rt_type t) @ '': no actions defined'')
        else None) ts,
      int32 (foldl (\<lambda>n t. if rt_actions t \<noteq> [] then n + int (length (rt_actions t)) else n + int (length (rg_actions g))) n ts))"
  by (induction ts arbitrary: ws n) (simp_all add: verify_trigger_def int32_add List.map_filter_def)

lemma verify_groups:
  "foldl (\<lambda>(tn, st) g. (int32 (tn + int32 (int (length (rg_triggers g)))), foldl (verify_trigger g) st (rg_triggers g)))
      (int32 a, ws, int32 b) gs =
   (case foldl count_group (a, b) gs of (x, y) \<Rightarrow> (int32 x, ws @ concat (map group_warnings gs), int32 y))"
proof (induction gs arbitrary: a b ws)
  case (Cons g gs)
  show ?case
    using Cons.IH by (simp add: verify_triggers int32_add count_group_def group_warnings_def [symmetric])
qed simp


section \<open>Adding a group\<close>

definition add_safe :: "cli_env \<Rightarrow> string \<Rightarrow> string \<Rightarrow> daemon \<Rightarrow> dir \<Rightarrow> outcome \<times> dir \<Rightarrow> bool" where
  "add_safe env target name d disk r \<longleftrightarrow> (case r of ((err, out, d'), disk') \<Rightarrow>
     (map_of disk' (path_base target) = map_of disk (path_base target) \<and> d' = d \<or>
      err = None \<and>
      (case map_of disk' (path_base target) of
         None \<Rightarrow> False
       | Some text \<Rightarrow> (case parse_text env text of Inl _ \<Rightarrow> False | Inr _ \<Rightarrow> True))) \<and>
     (name = path_base target \<or> name = temp_name target (wd_stamp (ce_world env)) \<or> map_of disk' name = map_of disk name))"

lemma add_safe_same: "add_safe env target name d disk ((err, out, d), disk)"
  by (simp add: add_safe_def)

lemma add_safe_write: "add_safe env target name d disk (write_fragment env fg ae target fragment d disk)"
proof (cases "parse_text env fragment")
  case (Inr f)
  show ?thesis
  proof (cases "merge_fragment env ae target fragment disk")
    case merged: (Inr new)
    show ?thesis
    proof (cases "parse_text env new")
      case ok: (Inr g)
      obtain e disk1 where w: "af_write (wd_os (ce_world env)) target (wd_stamp (ce_world env)) new disk = (e, disk1)"
        by fastforce
      obtain out d1 where r: "auto_register env fg target new d = (out, d1)" by fastforce
      show ?thesis
        using Inr merged ok w r aw.write_whole [OF w] aw.write_other [OF w, of name]
        by (cases e) (auto simp: write_fragment_def add_safe_def)
    qed (simp add: write_fragment_def add_safe_same Inr merged)
  qed (simp add: write_fragment_def add_safe_same Inr)
qed (simp add: write_fragment_def add_safe_same)

text \<open>
  C32: \<open>recur add\<close> never breaks a recurfile. Whatever the plugins, the editor and the system calls do,
  it either leaves the target file and the daemon as they were, or succeeds, and then the file holds a
  text that parses; no other file of the directory changes, except the temporary file of a failed write.
\<close>

theorem add_keeps_recurfile_valid:
  "let target = or_zero (resolve_add_target ae (ga_user ga));
       ((err, out, d'), disk') = cmd_add env fg ae ga args d disk in
   (map_of disk' (path_base target) = map_of disk (path_base target) \<and> d' = d \<or>
    err = None \<and>
    (case map_of disk' (path_base target) of
       None \<Rightarrow> False
     | Some text \<Rightarrow> (case parse_text env text of Inl _ \<Rightarrow> False | Inr _ \<Rightarrow> True))) \<and>
   (name = path_base target \<or> name = temp_name target (wd_stamp (ce_world env)) \<or> map_of disk' name = map_of disk name)"
proof -
  have "add_safe env (or_zero (resolve_add_target ae (ga_user ga))) name d disk (cmd_add env fg ae ga args d disk)"
    by (simp add: cmd_add_def or_zero_def Let_def add_safe_same add_safe_write split: sum.split option.split)
  then show ?thesis by (simp add: add_safe_def Let_def split: prod.splits)
qed

section \<open>Restarting\<close>

lemma background_flags:
  "recurd_flags_of no_flags (background_args c s l) = \<lparr>uf_config = c, uf_socket = s, uf_level = l\<rparr>"
  by (simp add: background_args_def no_flags_def)

lemma load_raw_shape:
  assumes "\<And>data c. parse data = Inr c \<Longrightarrow> config_typed c" "load_raw parse env file = Inr c"
  shows "same_shape c config_zero"
proof -
  have "config_typed c"
    using assms config_zero_typed by (auto simp: load_raw_def intro: config_typed_plugins split: sum.splits option.splits)
  then show ?thesis by (auto simp: config_typed_def dest: of_type_shape)
qed

lemma default_shape: "same_shape default_config config_zero"
  by (simp add: same_shape_def default_config_def config_zero_def)

text \<open>The effective configuration of a started daemon: defaults, file and overrides, one over the other.\<close>

lemma boot_effective:
  "fst (st_get (must_set (must_set (must_set (new_store config_zero [''default'', ''file'', ''cli args'']) ''default'' default_config)
     ''file'' raw) ''cli args'' cli)) = overlay_struct (overlay_struct default_config raw) cli"
  by (simp add: st_get_def st_overlay_def st_combine_def overlay_def sample_simps List.map_filter_def)

lemma deref_str_set: "deref_str x \<noteq> [] \<Longrightarrow> x = Some (VStr (deref_str x))"
  by (cases x rule: deref_str.cases) auto

text \<open>Overriding the socket address by the one that is in effect changes nothing.\<close>

lemma same_socket:
  assumes b: "same_shape b config_zero"
    and a: "deref_str (cfg_ptr (overlay_struct b (cli_overrides level None)) ''SocketAddress'') = addr" "addr \<noteq> []"
  shows "overlay_struct b (cli_overrides level (Some addr)) = overlay_struct b (cli_overrides level None)"
proof -
  from b obtain f1 f2 f3 f4 f5 f6 f7 f8 f9 f10 f11 f12 where
    l: "b = [(''DefaultShell'', f1), (''ErrorThreshold'', f2), (''TriggerErrorThreshold'', f3), (''ActionErrorThreshold'', f4),
      (''ConcurrencyMode'', f5), (''MaxQueueSize'', f6), (''Debounce'', f7), (''ShutdownTimeout'', f8), (''LogLevel'', f9),
      (''SocketAddress'', f10), (''AllowedHosts'', f11), (''Plugins'', f12)]" and t: "field_type f10 = ''*string''"
    by (auto simp: same_shape_def config_zero_def map_eq_Cons_conv)
  have f: "f10 = FPtr ''string'' (Some (VStr addr))"
    using a t unfolding l
    by (auto simp: cli_overrides_def config_zero_def cfg_ptr_def split: fval.splits option.splits dest: deref_str_set)
  show ?thesis
    unfolding l f by (simp add: cli_overrides_def config_zero_def)
qed

lemma override_socket:
  assumes "same_shape b config_zero"
  shows "cfg_ptr (overlay_struct b (cli_overrides level (Some x))) ''SocketAddress'' = Some (VStr x)"
proof -
  from assms obtain f1 f2 f3 f4 f5 f6 f7 f8 f9 f10 f11 f12 where
    "b = [(''DefaultShell'', f1), (''ErrorThreshold'', f2), (''TriggerErrorThreshold'', f3), (''ActionErrorThreshold'', f4),
      (''ConcurrencyMode'', f5), (''MaxQueueSize'', f6), (''Debounce'', f7), (''ShutdownTimeout'', f8), (''LogLevel'', f9),
      (''SocketAddress'', f10), (''AllowedHosts'', f11), (''Plugins'', f12)]"
    by (auto simp: same_shape_def config_zero_def map_eq_Cons_conv)
  then show ?thesis by (simp add: cli_overrides_def config_zero_def cfg_ptr_def exported_def)
qed

lemma st_get_twice: "fst (st_get (snd (st_get s))) = fst (st_get s)"
  by (simp add: st_get_def split: option.splits)

text \<open>What \<open>InitStore\<close> gives with overrides.\<close>

definition layered :: "strct \<Rightarrow> strct \<Rightarrow> store" where
  "layered raw cli = must_set (must_set (must_set (new_store config_zero [''default'', ''file'', ''cli args'']) ''default'' default_config)
     ''file'' raw) ''cli args'' cli"

definition resolved_path :: "boot_env \<Rightarrow> string option \<Rightarrow> string result" where
  "resolved_path bo path = (case path of Some q \<Rightarrow> Inr q | None \<Rightarrow> bo_default_path bo)"

lemma boot_store_result:
  "boot_store bo path (Some cli) = Inr (s, p) \<longleftrightarrow>
   (\<exists>raw. resolved_path bo path = Inr p \<and> load_raw (bo_parse bo) (bo_var bo) (bo_read bo p) = Inr raw \<and> s = layered raw cli)"
  by (auto simp: boot_store_def init_store_def new_config_store_def resolved_path_def layered_def Let_def split: sum.splits)

lemma resolved_again:
  "resolved_path bo (str_ptr_or_nil c) = Inr p \<Longrightarrow> resolved_path bo (str_ptr_or_nil p) = Inr p"
  by (auto simp: resolved_path_def str_ptr_or_nil_def split: if_splits)

text \<open>The socket that \<open>recurd\<close> overrides the configuration with: the flag's, or else the environment's.\<close>

definition socket_override :: "boot_env \<Rightarrow> string \<Rightarrow> string option" where
  "socket_override bo flag = (case str_ptr_or_nil flag of Some x \<Rightarrow> Some x | None \<Rightarrow> str_ptr_or_nil (bo_socket_var bo))"

definition effective :: "boot_env \<Rightarrow> recurd_flags \<Rightarrow> strct \<Rightarrow> strct" where
  "effective bo uf raw = overlay_struct (overlay_struct default_config raw)
     (cli_overrides (str_ptr_or_nil (uf_level uf)) (socket_override bo (uf_socket uf)))"

text \<open>What starts \<open>recurd\<close>, and the daemon that results.\<close>

lemma recurd_main_result:
  "recurd_main bo pv uf = Inr (d, addr) \<longleftrightarrow>
   (\<exists>p raw q t. resolved_path bo (str_ptr_or_nil (uf_config uf)) = Inr p \<and>
      load_raw (bo_parse bo) (bo_var bo) (bo_read bo p) = Inr raw \<and> pv_pid_path pv = Inr q \<and> pv_state_path pv = Inr t \<and>
      addr = deref_str (cfg_ptr (effective bo uf raw) ''SocketAddress'') \<and>
      d = boot_daemon (snd (st_get (layered raw (cli_overrides (str_ptr_or_nil (uf_level uf)) (socket_override bo (uf_socket uf)))))) p t
        \<lparr>la_config_path = p, la_socket_address = addr, la_log_level = uf_level uf, la_foreground = False\<rparr>)"
proof -
  have l: "deref_opt (str_ptr_or_nil x) = x" for x by (simp add: str_ptr_or_nil_def deref_opt_def)
  have e: "fst (st_get (layered raw cli)) = overlay_struct (overlay_struct default_config raw) cli" for raw cli
    unfolding layered_def by (rule boot_effective)
  have n: False if "boot_store bo path (Some cli) = Inl a" "resolved_path bo path = Inr p"
      "load_raw (bo_parse bo) (bo_var bo) (bo_read bo p) = Inr raw" for path cli a p raw
    using boot_store_result [of bo path cli "layered raw cli" p] that by auto
  show ?thesis
    unfolding recurd_main_def Let_def socket_override_def [symmetric] effective_def
    by (cases "boot_store bo (str_ptr_or_nil (uf_config uf)) (Some (cli_overrides (str_ptr_or_nil (uf_level uf)) (socket_override bo (uf_socket uf))))")
      (auto simp: boot_store_result l e split_beta dest: n split: sum.splits)
qed

text \<open>Overriding the socket by the address in effect gives the same configuration, wherever the address comes from.\<close>

lemma same_effective:
  assumes "same_shape raw config_zero" "addr = deref_str (cfg_ptr (effective bo uf raw) ''SocketAddress'')"
  shows "effective bo (uf\<lparr>uf_socket := addr\<rparr>) raw = effective bo uf raw"
proof -
  have shape: "same_shape (overlay_struct default_config raw) config_zero"
    using same_shape_trans [OF overlay_struct_shape [OF same_shape_trans [OF default_shape same_shape_sym [OF assms(1)]]] default_shape] .
  show ?thesis
  proof (cases "socket_override bo (uf_socket uf)")
    case (Some x)
    then have x: "x \<noteq> []" by (auto simp: socket_override_def str_ptr_or_nil_def split: option.splits if_splits)
    have "addr = x" using assms(2) override_socket [OF shape] by (simp add: effective_def Some)
    with x Some show ?thesis by (simp add: effective_def socket_override_def str_ptr_or_nil_def)
  next
    case None
    then have v: "str_ptr_or_nil (bo_socket_var bo) = None" by (simp add: socket_override_def split: option.splits)
    show ?thesis
      using v None same_socket [OF shape, of "str_ptr_or_nil (uf_level uf)" addr] assms(2)
      by (cases "addr = []") (simp_all add: effective_def socket_override_def str_ptr_or_nil_def)
  qed
qed

lemma boot_daemon_fields [simp]:
  "dm_launch (boot_daemon s p t la) = Some la" "dm_config_path (boot_daemon s p t la) = p" "dm_state_path (boot_daemon s p t la) = t"
  by (simp_all add: boot_daemon_def)

lemma boot_config: "dm_config (boot_daemon (snd (st_get (layered raw cli))) p t la) = overlay_struct (overlay_struct default_config raw) cli"
  using boot_effective [of raw cli] by (simp add: boot_daemon_def new_daemon_def split_beta st_get_twice layered_def)

text \<open>
  C34: \<open>recur restart\<close> brings the same daemon back. The arguments it passes to \<open>recurd\<close>, taken from the
  launch arguments that a daemon has persisted, start a daemon with the same launch arguments, socket address,
  configuration file and effective configuration, if the file has not changed; also when the socket came
  from the environment or from the file.
\<close>

theorem restart_same_daemon:
  assumes "\<And>data c. bo_parse bo data = Inr c \<Longrightarrow> config_typed c"
    and "recurd_main bo pv uf = Inr (d, addr)" "dm_launch d = Some la"
  shows "\<exists>d'. recurd_main bo pv (recurd_flags_of no_flags
        (background_args (la_config_path la) (la_socket_address la) (la_log_level la))) = Inr (d', addr) \<and>
    dm_launch d' = Some la \<and> dm_config d' = dm_config d \<and> dm_config_path d' = dm_config_path d \<and>
    dm_state_path d' = dm_state_path d"
proof -
  from assms(2) obtain p raw q t where m: "resolved_path bo (str_ptr_or_nil (uf_config uf)) = Inr p"
      "load_raw (bo_parse bo) (bo_var bo) (bo_read bo p) = Inr raw" "pv_pid_path pv = Inr q" "pv_state_path pv = Inr t"
      "addr = deref_str (cfg_ptr (effective bo uf raw) ''SocketAddress'')"
    and d: "d = boot_daemon (snd (st_get (layered raw (cli_overrides (str_ptr_or_nil (uf_level uf)) (socket_override bo (uf_socket uf)))))) p t
        \<lparr>la_config_path = p, la_socket_address = addr, la_log_level = uf_level uf, la_foreground = False\<rparr>"
    unfolding recurd_main_result by blast
  from d assms(3) have la: "la = \<lparr>la_config_path = p, la_socket_address = addr, la_log_level = uf_level uf, la_foreground = False\<rparr>"
    by simp
  have e: "effective bo \<lparr>uf_config = p, uf_socket = addr, uf_level = uf_level uf\<rparr> raw = effective bo uf raw"
    using same_effective [OF load_raw_shape [OF assms(1) m(2)] m(5)] by (simp add: effective_def)
  have "dm_config d = effective bo uf raw" by (simp add: d boot_config effective_def)
  then show ?thesis
    using m(2-5) resolved_again [OF m(1)] e
    by (simp add: background_flags la recurd_main_result boot_config) (simp add: d effective_def)
qed

section \<open>Suspending\<close>

lemma change_action_status:
  assumes "reg_inv r" "get_action r i = Some a"
  shows "\<exists>ty was r'. change_action s r i = (Inr (i, ty, was), r') \<and> get_action r' i = Some (a\<lparr>ac_status := s\<rparr>)"
proof -
  have "i \<in> ref_ids r ''action''" using assms reg_invD(3) by (auto simp: reg_index_ok_def get_action_def)
  from resolve_by_id [OF assms(1) this] obtain x where x: "find_entity_by_type r i ''action'' = Some x" "er_id x = i" by blast
  have "ac_id a = i" using links_action(1) [OF reg_invD(2) [OF assms(1)]] assms(2) by (simp add: get_action_def)
  with x assms(2) show ?thesis
    by (simp add: change_action_def get_action_def set_action_status_def)
qed

lemma resolve_one_cases:
  "resolve_one r ident allowed = (case resolve_entity r ident allowed of
     [] \<Rightarrow> rpc_fail Not_Found (''entity not found: '' @ ident)
   | x # xs \<Rightarrow> if xs = [] then Inr x else Inl \<lparr>st_code = Invalid_Argument,
       st_message = ''ambiguous identifier '' @ go_quote ident @ '' matches '' @ itoa (int (length (x # xs))) @ '' entities'',
       st_candidates = map (enrich_candidate r) (x # xs)\<rparr>)"
  by (simp add: resolve_one_def split: list.split)

lemma suspend_trigger_by_id:
  assumes "service_ok d" "get_trigger (dm_registry d) i = Some t" "i \<noteq> []"
  shows "\<exists>ty was d'. rpc_suspend_trigger w i d = (Inr (i, ty, was), d') \<and>
    map_option tr_status (get_trigger (dm_registry d') i) = Some st_suspended \<and> \<not> eng_on d' i"
proof -
  note inv = service_okD(1) [OF assms(1)]
  note f = find_trigger_by_id [OF inv assms(2)]
  obtain res r where c: "change_trigger st_suspended (dm_registry d) i = (res, r)" by fastforce
  obtain ty was where r: "res = Inr (i, ty, was)" "get_trigger r i = Some (t\<lparr>tr_status := st_suspended\<rparr>)"
    using change_trigger_effect [OF inv, where s = st_suspended and ident = i and k = i] c f rl.trig_id [OF inv assms(2)]
    by (auto split: sum.splits)
  have "rpc_suspend_trigger w i d = (Inr (i, ty, was), persist_state w (engine_deactivate i (d\<lparr>dm_registry := r\<rparr>)))"
    using assms(3) by (simp add: rpc_suspend_trigger_def suspend_trigger_def c r(1))
  then show ?thesis using r(2) by (simp add: engine_deactivate_on)
qed

lemma suspend_action_by_id:
  assumes "service_ok d" "get_action (dm_registry d) i = Some a" "i \<noteq> []"
  shows "\<exists>ty was d'. rpc_suspend_action w i d = (Inr (i, ty, was), d') \<and>
    map_option ac_status (get_action (dm_registry d') i) = Some st_suspended"
proof -
  obtain ty was r where c: "change_action st_suspended (dm_registry d) i = (Inr (i, ty, was), r)"
    and r: "get_action r i = Some (a\<lparr>ac_status := st_suspended\<rparr>)"
    using change_action_status [OF service_okD(1) [OF assms(1)] assms(2), where s = st_suspended] by blast
  have "rpc_suspend_action w i d = (Inr (i, ty, was), persist_state w (d\<lparr>dm_registry := r\<rparr>))"
    using assms(3) by (simp add: rpc_suspend_action_def rpc_change_action_def suspend_action_def c)
  then show ?thesis using r by simp
qed

text \<open>\<open>recur suspend\<close> with a daemon that answers, by the number of entities the identifier stands for.\<close>

lemma suspend_any:
  assumes "require_daemon env fg = None" "ce_call env = None" "ident \<noteq> []"
  shows "cmd_suspend env fg ident d = (case apfst (map_sum Call_Status id)
       (case resolve_one (dm_registry d) ident [''trigger'', ''action''] of
          Inl e \<Rightarrow> (Inl e, d)
        | Inr x \<Rightarrow>
            if er_type x = ''trigger'' then apfst (map_sum id (Pair ''trigger'')) (rpc_suspend_trigger (ce_world env) (er_id x) d)
            else if er_type x = ''action'' then apfst (map_sum id (Pair ''action'')) (rpc_suspend_action (ce_world env) (er_id x) d)
            else (rpc_fail Invalid_Argument (''cannot '' @ ''suspend'' @ '' entity type: '' @ er_type x), d)) of
       (Inl e, d1) \<Rightarrow> (case ambiguous_or_failed env ident False ''failed to suspend'' e of (err, out) \<Rightarrow> (err, out, d1))
     | (Inr (ty, _), d1) \<Rightarrow> (None, unless_quiet fg [Out (capitalize_first ty @ '' '' @ ident @ '' suspended.'')], d1))"
  using assms by (simp add: cmd_suspend_def with_daemon_def call_def rpc_suspend_entity_def on_entity_def)

lemma suspend_unmatched:
  assumes "require_daemon env fg = None" "ce_call env = None" "ident \<noteq> []" "resolve_entity (dm_registry d) ident [''trigger'', ''action''] = []"
  shows "\<exists>err out. cmd_suspend env fg ident d = (err, out, d) \<and> exit_code err = 1"
  by (simp add: suspend_any [OF assms(1-3)] assms(4) resolve_one_cases rpc_fail_def ambiguous_or_failed_def handle_ambiguous_error_def
      ambiguous_detail_def call_failed_def exit_code_def)

lemma suspend_ambiguous:
  assumes "require_daemon env fg = None" "ce_call env = None" "ident \<noteq> []" "resolve_entity (dm_registry d) ident [''trigger'', ''action''] = x # y # zs"
  shows "\<exists>err out. cmd_suspend env fg ident d = (err, out, d) \<and> exit_code err = 2"
  by (simp add: suspend_any [OF assms(1-3)] assms(4) resolve_one_cases ambiguous_or_failed_def handle_ambiguous_error_def
      ambiguous_detail_def exit_code_def)

lemma suspend_single:
  assumes "require_daemon env fg = None" "ce_call env = None" "ident \<noteq> []" "resolve_entity (dm_registry d) ident [''trigger'', ''action''] = [x]"
    and ok: "service_ok d" and e: "get_trigger (dm_registry d) [] = None" "get_action (dm_registry d) [] = None"
  shows "\<exists>out d'. cmd_suspend env fg ident d = (None, out, d') \<and>
    (if er_type x = ''trigger'' then map_option tr_status (get_trigger (dm_registry d') (er_id x)) = Some st_suspended \<and> \<not> eng_on d' (er_id x)
     else map_option ac_status (get_action (dm_registry d') (er_id x)) = Some st_suspended)"
proof -
  have reg: "registered (dm_registry d) x" using resolve_registered [OF service_okD(1) [OF ok], of x ident "[''trigger'', ''action'']"] assms(4) by simp
  have "set (resolve_entity (dm_registry d) ident [''trigger'', ''action'']) \<subseteq> {r. er_type r = ''trigger'' \<or> er_type r = ''action''}"
    by (auto simp: resolve_entity_def Let_def)
  with assms(4) have ty: "er_type x = ''trigger'' \<or> er_type x = ''action''" by simp
  note run = suspend_any [OF assms(1-3)] assms(4) resolve_one_cases
  show ?thesis
  proof (cases "er_type x = ''trigger''")
    case True
    with reg obtain t where t: "get_trigger (dm_registry d) (er_id x) = Some t" by (auto simp: registered_def)
    with e(1) have "er_id x \<noteq> []" by auto
    from suspend_trigger_by_id [OF ok t this, of "ce_world env"] True show ?thesis by (auto simp: run)
  next
    case False
    with ty have a: "er_type x = ''action''" by simp
    with reg obtain t where t: "get_action (dm_registry d) (er_id x) = Some t" by (auto simp: registered_def)
    with e(2) have "er_id x \<noteq> []" by auto
    from suspend_action_by_id [OF ok t this, of "ce_world env"] a show ?thesis by (auto simp: run)
  qed
qed

text \<open>
  C33: The exit code of \<open>recur suspend\<close> tells what happened. With a daemon that answers: 1, and nothing
  changed, when no trigger or action has the identifier; 0 when exactly one has, and then it is
  suspended, a trigger also out of the engine; 2, and nothing changed, when several have.
\<close>

theorem suspend_exit_code:
  assumes "service_ok d" "require_daemon env fg = None" "ce_call env = None" "ident \<noteq> []"
    and "get_trigger (dm_registry d) [] = None" "get_action (dm_registry d) [] = None"
  shows "case cmd_suspend env fg ident d of (err, out, d') \<Rightarrow>
    (case resolve_entity (dm_registry d) ident [''trigger'', ''action''] of
       [] \<Rightarrow> exit_code err = 1 \<and> d' = d
     | [x] \<Rightarrow> exit_code err = 0 \<and>
         (if er_type x = ''trigger''
          then map_option tr_status (get_trigger (dm_registry d') (er_id x)) = Some st_suspended \<and>
            (case dm_engine d' of None \<Rightarrow> True | Some e \<Rightarrow> map_of (en_active e) (er_id x) = None)
          else map_option ac_status (get_action (dm_registry d') (er_id x)) = Some st_suspended)
     | _ \<Rightarrow> exit_code err = 2 \<and> d' = d)"
proof -
  note c = assms(2-4)
  consider (none) "resolve_entity (dm_registry d) ident [''trigger'', ''action''] = []"
    | (one) x where "resolve_entity (dm_registry d) ident [''trigger'', ''action''] = [x]"
    | (many) x y zs where "resolve_entity (dm_registry d) ident [''trigger'', ''action''] = x # y # zs"
    by (metis list.exhaust)
  then show ?thesis
  proof cases
    case none
    from suspend_unmatched [OF c this] none show ?thesis by auto
  next
    case many
    from suspend_ambiguous [OF c this] many show ?thesis by auto
  next
    case (one x)
    from suspend_single [OF c this assms(1,5,6)] one show ?thesis
      by (auto simp: exit_code_def eng_on_def split: option.splits)
  qed
qed

text \<open>With an entity type an ambiguous identifier is an ordinary error: exit code 1, no candidates.\<close>

lemma typed_suspend_never_exits_2:
  "exit_code (fst (cmd_suspend_trigger env fg ident d)) < 2" "exit_code (fst (cmd_suspend_action env fg ident d)) < 2"
  by (auto simp: cmd_suspend_trigger_def cmd_suspend_action_def with_daemon_def call_failed_def exit_code_def
      split: option.splits sum.splits prod.splits)

section \<open>Installing an app\<close>

lemma unpack_other:
  assumes "\<not> inside (path_clean dest) p"
  shows "map_of (fs_files (snd (unpack io bundle zr dest fs))) p = map_of (fs_files fs) p"
  using mkdir_all_files [of io "path_clean dest" fs] unpack_entries_other [OF assms]
  by (auto simp: unpack_def simp del: mkdir_all_files split: sum.split option.split prod.split)

lemma stage_other:
  "\<not> inside (path_clean staging) p \<Longrightarrow> map_of (fs_files (snd (stage_bundle pe bundle staging fs))) p = map_of (fs_files fs) p"
  using unpack_other [of staging p "pe_io pe" "bundle" "pe_zip pe bundle" "fs\<lparr>fs_dirs := staging # fs_dirs fs\<rparr>"]
  by (auto simp: stage_bundle_def split: option.splits prod.splits)

lemma remove_tree_other: "\<not> inside d p \<Longrightarrow> map_of (fs_files (snd (remove_tree pe d fs))) p = map_of (fs_files fs) p"
  by (simp add: remove_tree_def remove_all_lookup split: option.split)

lemma inside_moved: "inside src q \<Longrightarrow> inside dst (move_path src dst q)"
  by (auto simp: inside_def move_path_def has_prefix_iff)

lemma move_dir_other:
  assumes "\<not> inside src p" "\<not> inside dst p"
  shows "map_of (fs_files (move_dir src dst fs)) p = map_of (fs_files fs) p"
proof -
  have "map_of (map (apfst (move_path src dst)) m) p = map_of m p" for m :: "(string, string) amap"
    using assms inside_moved [where src = src and dst = dst] by (induction m) (auto simp: move_path_def)
  then show ?thesis by (simp add: move_dir_def)
qed

lemma place_app_other:
  assumes "\<not> inside staging p"
  shows "map_of (fs_files (snd (snd (place_app pe force name staging dest fs)))) p = map_of (fs_files fs) p \<or>
    inside dest p \<and> (force \<or> confirm_overwrite pe \<or> \<not> path_exists fs dest)"
proof (cases "inside dest p")
  case True
  then show ?thesis by (auto simp: place_app_def Let_def)
next
  case False
  then show ?thesis
    using remove_tree_other [OF False, of pe fs] move_dir_other [OF assms False]
    by (auto simp: place_app_def Let_def split: option.splits prod.splits)
qed

lemma install_staged_other:
  assumes "\<not> inside staging p"
  shows "map_of (fs_files (snd (install_staged env fg pe force name base staging rf d fs))) p = map_of (fs_files fs) p \<or>
    \<not> bad_app_name name \<and> inside (path_join base name) p \<and>
    (force \<or> confirm_overwrite pe \<or> \<not> path_exists fs (path_join base name))"
  using place_app_other [OF assms, of pe force name "path_join base name" fs]
  by (auto simp: install_staged_def validate_app_name_def split: prod.splits sum.splits option.splits if_splits)

text \<open>
  C35: Installing an app touches no other app. A bundle that does not unpack or has no recurfile of its own
  changes nothing but the staging directory: no installed app, not the daemon. Any other changes at most
  files of the one directory of the app folder that carries its name, which is a plain name; and if that
  exists, only with \<open>--force\<close> or the user's consent.
\<close>

theorem app_install_touches_one_app:
  assumes "fst (resolve_bundle_source env pe source fs) = Inr b" "pe_app_dir pe = Inr base" "pe_temp pe = Inr staging"
    and "path_clean staging = staging" "\<not> inside staging p"
  shows "case cmd_app_install env fg pe name_flag force source d fs of ((err, out, d'), fs') \<Rightarrow>
    (case stage_bundle pe b staging fs of
       (Inl e, fs1) \<Rightarrow> map_of (fs_files fs') p = map_of (fs_files fs) p \<and> d' = d \<and> exit_code err = 1
     | (Inr rf, fs1) \<Rightarrow>
         let name = app_name pe name_flag rf source; dest = path_join base name in
         map_of (fs_files fs') p = map_of (fs_files fs) p \<or>
         \<not> bad_app_name name \<and> inside dest p \<and> (force \<or> confirm_overwrite pe \<or> \<not> path_exists fs1 dest))"
proof -
  obtain out where src: "resolve_bundle_source env pe source fs = (Inr b, out)"
    using assms(1) by (cases "resolve_bundle_source env pe source fs") auto
  obtain r fs1 where st: "stage_bundle pe b staging fs = (r, fs1)" by fastforce
  have same: "map_of (fs_files fs1) p = map_of (fs_files fs) p"
    using stage_other [of staging p pe b fs] assms(4,5) st by simp
  note rm = remove_tree_other [OF assms(5), of pe]
  show ?thesis
  proof (cases r)
    case (Inl e)
    then show ?thesis
      using rm [of fs1] same by (simp add: cmd_app_install_def src assms(2,3) st exit_code_def)
  next
    case (Inr rf)
    let ?n = "app_name pe name_flag rf source"
    obtain err out1 d1 fs2 where i: "install_staged env fg pe force ?n base staging rf d fs1 = ((err, out1, d1), fs2)"
      by (metis prod.exhaust)
    have "map_of (fs_files (snd (remove_tree pe staging fs2))) p = map_of (fs_files fs) p \<or>
        \<not> bad_app_name ?n \<and> inside (path_join base ?n) p \<and>
        (force \<or> confirm_overwrite pe \<or> \<not> path_exists fs1 (path_join base ?n))"
      using install_staged_other [OF assms(5), of env fg pe force ?n base rf d fs1] i rm [of fs2] same by simp
    with Inr show ?thesis by (simp add: cmd_app_install_def src assms(2,3) st i Let_def)
  qed
qed

section \<open>Waiting for the daemon to stop\<close>

lemma wait_loop_seen: "wait_loop alive delay deadline n now \<Longrightarrow> \<exists>t. now \<le> t \<and> t < deadline \<and> \<not> alive t"
proof (induction alive delay deadline n now rule: wait_loop.induct)
  case (1 alive delay deadline n now)
  show ?case
  proof (cases "alive now")
    case True
    with 1 obtain t where "now + 100000000 + int (delay n) \<le> t" "t < deadline" "\<not> alive t"
      by (subst (asm) wait_loop.simps) (auto split: if_splits)
    then show ?thesis by (intro exI [of _ t]) simp
  next
    case False
    with 1(2) show ?thesis by (subst (asm) wait_loop.simps) (auto split: if_splits)
  qed
qed

lemma wait_loop_gone:
  assumes gone: "\<And>t. g \<le> t \<Longrightarrow> \<not> alive t" and late: "\<And>k. delay k \<le> b"
  shows "now < deadline \<Longrightarrow> g + 100000000 + int b < deadline \<Longrightarrow> wait_loop alive delay deadline n now"
proof (induction "nat (deadline - now)" arbitrary: n now rule: less_induct)
  case less
  let ?next = "now + 100000000 + int (delay n)"
  have "wait_loop alive delay deadline (Suc n) ?next" if "alive now"
  proof (rule less.hyps [OF _ _ less.prems(2)])
    have "now < g" by (rule ccontr) (use that gone in force)
    with late [of n] less.prems(2) show "?next < deadline" by linarith
    then show "nat (deadline - ?next) < nat (deadline - now)" by simp
  qed
  with less.prems(1) show ?case by (subst wait_loop.simps) simp
qed

text \<open>
  C37: \<open>recur stop\<close> returns, and tells the truth. Once the signal is sent, it reports the daemon as stopped only
  if it has seen it gone before the deadline; and it does so whenever the daemon is gone for good a round
  (100 ms and at most \<open>b\<close>, the longest delay) before the deadline.
\<close>

theorem stop_returns:
  assumes "running_pid pv = Inr pid" "pr_kill pr pid = None"
  shows "let timeout = stop_timeout (ce_config env); res = cmd_stop env fg pv pr in
    (fst res = None \<longrightarrow> (\<exists>t. 0 \<le> t \<and> t < timeout \<and> \<not> pr_alive_at pr t)) \<and>
    (0 < timeout \<and> (\<forall>t. g \<le> t \<longrightarrow> \<not> pr_alive_at pr t) \<and> (\<forall>k. pr_delay pr k \<le> b) \<and> g + 100000000 + int b < timeout \<longrightarrow>
      res = (None, unless_quiet fg [Out ''Daemon stopped'']))"
  using assms wait_loop_seen [of "pr_alive_at pr" "pr_delay pr" "stop_timeout (ce_config env)" 0 0]
    wait_loop_gone [of g "pr_alive_at pr" "pr_delay pr" b 0 "stop_timeout (ce_config env)" 0]
  by (auto simp: cmd_stop_def signal_and_wait_def Let_def)



section \<open>What the commands get wrong\<close>

text \<open>A plugin on disk that the running daemon does not have cannot be removed while it runs.\<close>

lemma uninstall_needs_daemon:
  assumes "require_daemon env fg = None" "find_by_identifier (dm_plugins d) ident = None"
  shows "snd (cmd_plugin_uninstall env fg pe ident d fs) = fs \<and> exit_code (fst (fst (cmd_plugin_uninstall env fg pe ident d fs))) = 1"
  using assms by (simp add: cmd_plugin_uninstall_def call_def rpc_uninstall_plugin_def rpc_fail_def call_failed_def exit_code_def
      split: option.split)

text \<open>A daemon started in the foreground gets neither the socket nor the log level of its flags.\<close>

lemma foreground_ignores_flags:
  "cmd_start bo pv pr os (fg\<lparr>fg_socket := a\<rparr>) True config level = cmd_start bo pv pr os (fg\<lparr>fg_socket := b\<rparr>) True config level'"
  by (simp add: cmd_start_def Let_def split: sum.split prod.split bool.split option.split)

text \<open>Without a readable configuration, installing from a URL panics.\<close>

lemma install_url_panics:
  assumes "is_url source" "host_from_url (ht_lit (pe_http pe)) source = Inr host" "ce_config env = Inl e"
  shows "cmd_app_install env fg pe name force source d fs = ((Some Cli_Panic, [], d), fs)"
  using assms by (simp add: cmd_app_install_def resolve_bundle_source_def check_host_def prefix_error_def)

text \<open>
  C36: What an ordinary URL (see \<open>ordinary_url\<close>) is downloaded from is settled by its host alone: when \<open>allowed_hosts\<close> does
  not name that host, installing an app or a plugin from the URL fails before anything is downloaded or written and before
  the daemon is told, whatever user information, port, path and query surround the host.
\<close>

theorem unlisted_host_refused:
  assumes "ordinary_url host url" "list_all plain_char host" "host \<noteq> []"
    and "ce_config env = Inr (s, p)" "\<not> is_host_allowed (fst (st_get s)) host"
  shows "\<exists>e. cmd_app_install env fg pe name force url d fs = ((Some (Cli_Error (''install failed: '' @ e)), [], d), fs) \<and>
      cmd_plugin_install env fg pe False url d fs = ((Some (Cli_Error (''install failed: '' @ e)), [], d), fs)"
proof -
  from assms(4,5) host_from_ordinary_url [OF assms(1-3), of "ht_lit (pe_http pe)"]
  obtain e where "check_host env pe url = Inl (Cli_Error e)" by (simp add: check_host_def)
  with ordinary_is_url [OF assms(1)] show ?thesis
    by (simp add: cmd_app_install_def cmd_plugin_install_def resolve_bundle_source_def resolve_plugin_source_def prefix_error_def)
qed

text \<open>A name that starts with a dot is accepted, but the app is neither listed nor found by the daemon's scan.\<close>

lemma hidden_app_accepted:
  "validate_app_name ''.x'' = None" "de_name e = ''.x'' \<Longrightarrow> scan_app w base d e = d"
  by (simp_all add: validate_app_name_def bad_app_name_def scan_app_def)

section \<open>Witnesses\<close>


text \<open>A machine where the daemon answers, and a file system with one installed app.\<close>

definition sample_cli :: cli_env where
  "sample_cli = \<lparr>ce_world = sample_world 0, ce_fmt = \<lparr>fmt_float = (\<lambda>_ _. []), fmt_dur = (\<lambda>_. [])\<rparr>,
     ce_show = \<lparr>sh_local = (\<lambda>_. []), sh_plugins = [], sh_exists = (\<lambda>_. False)\<rparr>,
     ce_socket_var = ''/s'', ce_config = Inl [], ce_default_socket = Inl [], ce_dial = (\<lambda>_. None), ce_probe = (\<lambda>_. True),
     ce_call = None, ce_call_text = (\<lambda>_. []), ce_exists = (\<lambda>_. True), ce_here = Inr [], ce_abs = Inr\<rparr>"

definition plain_flags :: flags where
  "plain_flags = \<lparr>fg_json = False, fg_quiet = False, fg_verbose = False, fg_socket = []\<rparr>"

lemma sample_connects: "require_daemon sample_cli plain_flags = None"
  by (simp add: require_daemon_def resolve_socket_path_def connect_def or_zero_def sample_cli_def plain_flags_def)

text \<open>The identifiers of the sample registry are those of its file.\<close>

lemma sample_no_empty_id: "get_trigger sample_reg [] = None" "get_action sample_reg [] = None"
proof -
  let ?b = "base_registry sample_env new_registry (file_path sample_env sample_rf)"
  have ix: "reg_index_ok ?b" by (rule reg_invD(3) [OF base_registry_inv [OF new_registry_inv]])
  have b: "map_of (re_triggers ?b) [] = None" "map_of (re_actions ?b) [] = None"
    by (simp_all add: base_registry_def old_recurfile_def new_registry_def amap_vals_def)
  have "new_ids ?b (rc_id (the_recurfile sample_env sample_inp sample_rf)) (file_puts (the_plan sample_env sample_inp sample_rf))"
    using sample_fresh by (simp add: ids_fresh_def the_recurfile_def)
  note L = put_file_lookup(3,4) [OF ix this, folded register_put sample_reg_def]
  show "get_trigger sample_reg [] = None" "get_action sample_reg [] = None"
  proof -
    obtain t a g where p: "file_puts (the_plan sample_env sample_inp sample_rf) = [PutT t, PutA a, PutG g]"
      and i: "tr_id t = sid" "ac_id a = ''807e66392855''" using sample_puts by blast
    have "map_of (re_triggers sample_reg) [] \<noteq> Some x" for x using L(1) [of "[]" x] b(1) p i by auto
    moreover have "map_of (re_actions sample_reg) [] \<noteq> Some x" for x using L(2) [of "[]" x] b(2) p i by auto
    ultimately show "get_trigger sample_reg [] = None" "get_action sample_reg [] = None"
      by (simp_all add: get_trigger_def get_action_def option.exhaust_sel) (use not_Some_eq in blast)+
  qed
qed

theorem suspend_exit_code_witness:
  "\<exists>d'. exit_code (fst (cmd_suspend sample_cli plain_flags sid live_daemon)) = 0 \<and>
     snd (snd (cmd_suspend sample_cli plain_flags sid live_daemon)) = d' \<and>
     map_option tr_status (get_trigger (dm_registry d') sid) = Some st_suspended"
proof -
  have r: "dm_registry live_daemon = sample_reg" by (simp add: live_daemon_def)
  obtain t where t: "get_trigger sample_reg sid = Some t" using live_trigger r by metis
  have "sid \<in> ref_ids sample_reg ''trigger''"
    using t reg_invD(3) [OF sample_reg_inv] by (auto simp: reg_index_ok_def get_trigger_def)
  then obtain x where x: "x \<in> set (ix_refs (re_index sample_reg))" "er_type x = ''trigger''" "er_id x = sid"
    by (auto simp: ref_ids_def)
  have "ix_lookup (re_index sample_reg) sid = [x]" using eix.look_id [OF reg_invD(8) [OF sample_reg_inv] x(1)] x(3) by simp
  with x have one: "resolve_entity sample_reg sid [''trigger'', ''action''] = [x]" by (simp add: resolve_entity_def)
  show ?thesis
    using suspend_exit_code [OF live_ok sample_connects, of sid] one x(2,3) sample_no_empty_id
    by (simp add: r sample_cli_def split: prod.splits)
qed

definition boot_sample :: boot_env where
  "boot_sample = \<lparr>bo_socket_var = ''/s'', bo_parse = Inl, bo_var = (\<lambda>_. None), bo_default_path = Inr ''/c'', bo_read = (\<lambda>_. Inr None)\<rparr>"

definition proc_sample :: proc_env where
  "proc_sample = \<lparr>pv_pid_path = Inr ''/p'', pv_run_dir = [], pv_probe = (\<lambda>_. None), pv_config_path = Inr ''/c'', pv_state_path = Inr ''/st'',
     pv_plugins_dir = Inr ''/pl'', pv_version = [], pv_daemon_pid = 1, pv_uptime = [], pv_daemon_version = []\<rparr>"

theorem restart_same_daemon_witness:
  "\<exists>d'. recurd_main boot_sample proc_sample \<lparr>uf_config = ''/c'', uf_socket = ''/s'', uf_level = ''debug''\<rparr> = Inr (d', ''/s'')"
proof -
  let ?uf = "\<lparr>uf_config = [], uf_socket = [], uf_level = ''debug''\<rparr>"
  have addr: "deref_str (cfg_ptr (overlay_struct (overlay_struct default_config config_zero) (cli_overrides (Some ''debug'') (Some ''/s''))) ''SocketAddress'') = ''/s''"
    using override_socket [OF same_shape_trans [OF overlay_struct_shape [OF default_shape] default_shape]] by simp
  have "\<exists>d la. recurd_main boot_sample proc_sample ?uf = Inr (d, ''/s'') \<and> dm_launch d = Some la \<and>
      la_config_path la = ''/c'' \<and> la_socket_address la = ''/s'' \<and> la_log_level la = ''debug''"
    by (simp add: recurd_main_def boot_store_def init_store_def new_config_store_def load_raw_def boot_sample_def proc_sample_def
        str_ptr_or_nil_def deref_opt_def boot_daemon_def new_daemon_def split_beta boot_effective addr Let_def)
  then obtain d la where d: "recurd_main boot_sample proc_sample ?uf = Inr (d, ''/s'')" "dm_launch d = Some la"
    "la_config_path la = ''/c''" "la_socket_address la = ''/s''" "la_log_level la = ''debug''" by blast
  have "\<exists>d'. recurd_main boot_sample proc_sample (recurd_flags_of no_flags
        (background_args (la_config_path la) (la_socket_address la) (la_log_level la))) = Inr (d', ''/s'') \<and> dm_launch d' = Some la \<and>
      dm_config d' = dm_config d \<and> dm_config_path d' = dm_config_path d \<and> dm_state_path d' = dm_state_path d"
    by (rule restart_same_daemon [OF _ d(1,2)]) (simp add: boot_sample_def)
  with d(3-5) show ?thesis by (auto simp: background_flags)
qed

text \<open>A daemon that is gone after five seconds, within the default time of thirty.\<close>

definition slow_stop :: process_env where
  "slow_stop = \<lparr>pr_recurd = Inl [], pr_spawn = (\<lambda>_ _. Inl []), pr_kill = (\<lambda>_. None), pr_alive_at = (\<lambda>t. t < 5000000000), pr_delay = (\<lambda>_. 7)\<rparr>"

theorem stop_returns_witness:
  "cmd_stop sample_cli plain_flags (proc_sample\<lparr>pv_run_dir := [(''p'', ''7'')]\<rparr>) slow_stop = (None, [Out ''Daemon stopped''])"
proof -
  have "running_pid (proc_sample\<lparr>pv_run_dir := [(''p'', ''7'')]\<rparr>) = Inr 7"
    by (simp add: running_pid_def proc_sample_def is_running_def is_process_alive_def read_pid_def atoi_def trim_space_def path_base_def is_space_def is_digit_def digits_value_def Let_def)
  from stop_returns [OF this, of slow_stop sample_cli plain_flags 5000000000 7] show ?thesis
    by (simp add: slow_stop_def sample_cli_def stop_timeout_def unless_quiet_def plain_flags_def Let_def)
qed

definition apps_fs :: fsys where
  "apps_fs = \<lparr>fs_files = [(''/b.recur'', ''z''), (''/apps/other/run.sh'', ''x'')], fs_dirs = [''/apps'', ''/apps/other''], fs_links = []\<rparr>"

definition no_http :: http_env where
  "no_http = \<lparr>ht_lit = Inl, ht_get = Inl, ht_temp = Inl, ht_save = (\<lambda>_. None)\<rparr>"

definition app_sample :: app_env where
  "app_sample = \<lparr>pe_io = io_fine, pe_app_dir = Inr ''/apps'', pe_temp = Inr ''/apps/.s'', pe_zip = (\<lambda>_. Inr [rf_entry, evil_entry]),
     pe_tar = (\<lambda>_. Inl []), pe_http = no_http, pe_answer = [], pe_stuck = (\<lambda>_. None),
     pe_rename = None, pe_discover = (\<lambda>_. []), pe_load = (\<lambda>_ _. Inl []), pe_symlink = None, pe_plugins_dir = Inl [], pe_cwd = ''/''\<rparr>"

theorem app_install_touches_one_app_witness:
  "map_of (fs_files (snd (cmd_app_install sample_cli plain_flags app_sample [] True ''/b.recur'' live_daemon apps_fs))) ''/apps/other/run.sh'' = Some ''x''"
proof -
  have src: "fst (resolve_bundle_source sample_cli app_sample ''/b.recur'' apps_fs) = Inr ''/b.recur''"
    by (simp add: resolve_bundle_source_def is_url_def sample_cli_def path_exists_def apps_fs_def)
  have st: "\<exists>e fs1. stage_bundle app_sample ''/b.recur'' ''/apps/.s'' apps_fs = (Inl e, fs1)"
  proof -
    have "\<exists>e fs1. unpack io_fine ''/b.recur'' (Inr [rf_entry, evil_entry]) ''/apps/.s'' fs = (Some e, fs1)" for fs
      by (simp add: archive_eval Let_def split: prod.splits option.splits)
    then obtain e fs1 where "unpack io_fine ''/b.recur'' (Inr [rf_entry, evil_entry]) ''/apps/.s'' (apps_fs\<lparr>fs_dirs := ''/apps/.s'' # fs_dirs apps_fs\<rparr>) = (Some e, fs1)"
      by blast
    then show ?thesis by (simp add: stage_bundle_def app_sample_def)
  qed
  have "path_clean ''/apps/.s'' = ''/apps/.s''" "\<not> inside ''/apps/.s'' ''/apps/other/run.sh''"
    by (simp_all add: path_clean_def is_abs_def inside_def)
  from app_install_touches_one_app [where base = "''/apps''" and fg = plain_flags and name_flag = "[]" and force = True and d = live_daemon, OF src _ _ this] st
  show ?thesis
    by (auto simp: app_sample_def apps_fs_def split: prod.splits)
qed

text \<open>A host that is allowed, as the user name of a URL to another one.\<close>

definition github_only :: store where
  "github_only = layered (AList.update ''AllowedHosts'' (FPtr ''string'' (Some (VStr ''github.com''))) config_zero) config_zero"

theorem unlisted_host_refused_witness:
  "\<exists>e. cmd_app_install (sample_cli\<lparr>ce_config := Inr (github_only, ''/c'')\<rparr>) plain_flags app_sample [] True
      ''https://github.com@evil.example:80/a.recur?q'' live_daemon apps_fs =
      ((Some (Cli_Error (''install failed: '' @ e)), [], live_daemon), apps_fs)"
proof -
  have u: "ordinary_url ''evil.example'' ''https://github.com@evil.example:80/a.recur?q''"
    unfolding ordinary_url_def
    by (rule exI [of _ "''https://''"], rule exI [of _ "''github.com@''"], rule exI [of _ "'':80''"], rule exI [of _ "''/a.recur''"],
        rule exI [of _ "''?q''"])
      (simp add: user_part_def port_part_def path_part_def query_part_def plain_char_def ascii_letter_def is_digit_def)
  have h: "list_all plain_char ''evil.example''" by (simp add: plain_char_def ascii_letter_def)
  have c: "ce_config (sample_cli\<lparr>ce_config := Inr (github_only, ''/c'')\<rparr>) = Inr (github_only, ''/c'')" "''evil.example'' \<noteq> []" by simp_all
  have na: "\<not> is_host_allowed (fst (st_get github_only)) ''evil.example''"
    unfolding github_only_def layered_def boot_effective
    by (simp add: config_zero_def default_config_def is_host_allowed_def cfg_ptr_def exported_def trim_space_def is_space_def to_lower_def lower_char_def)
  from unlisted_host_refused [OF u h c(2,1) na, where fg = plain_flags and pe = app_sample and name = "[]" and force = True and d = live_daemon and fs = apps_fs]
  show ?thesis by blast
qed

end
