(* ===== verification/Daemon_Run.thy ===== *)
theory Daemon_Run
  imports Service_Props Platform
begin

text \<open>
  \<open>Daemon.Run\<close>: from the discovery of plugins over the state file, the PID file and the server to the
  requests and the way out. What starts is undone by the deferred calls, last first: the engine
  and the server stop, requests that are still running finish, the state is saved, the PID file removed.
\<close>

section \<open>The environment of a run\<close>

text \<open>
  \<open>rn_net\<close> is what making the server can fail with; \<open>rn_tmp\<close> is the name of the temporary PID file. The world is
  that of starting and stopping; every request brings its own.
\<close>

record run_env =
  rn_world :: world
  rn_discovered :: "installed_plugin list"
  rn_default_socket :: "string result"
  rn_app_dir :: "string result"
  rn_pid_path :: string
  rn_pid :: int
  rn_tmp :: string
  rn_net :: net_env

datatype slog_level = Level_Debug | Level_Info | Level_Warn | Level_Error

text \<open>The levels in the order of \<open>slog\<close>'s numbers; the handler, and so the redactor around it, takes a record from its level on.\<close>

fun slog_number :: "slog_level \<Rightarrow> int" where
  "slog_number Level_Debug = -4"
| "slog_number Level_Info = 0"
| "slog_number Level_Warn = 4"
| "slog_number Level_Error = 8"

lemma slog_number_inj: "slog_number a = slog_number b \<Longrightarrow> a = b"
  by (cases a; cases b) simp_all

instantiation slog_level :: linorder
begin

definition less_eq_slog_level :: "slog_level \<Rightarrow> slog_level \<Rightarrow> bool" where
  "less_eq_slog_level a b \<longleftrightarrow> slog_number a \<le> slog_number b"

definition less_slog_level :: "slog_level \<Rightarrow> slog_level \<Rightarrow> bool" where
  "less_slog_level a b \<longleftrightarrow> slog_number a < slog_number b"

instance
  by standard (auto simp: less_eq_slog_level_def less_slog_level_def intro: slog_number_inj)

end

definition log_enabled :: "slog_level \<Rightarrow> slog_level \<Rightarrow> bool" where
  "log_enabled threshold level \<longleftrightarrow> threshold \<le> level"

definition slog_level_of :: "string \<Rightarrow> slog_level" where
  "slog_level_of level =
     (if to_lower level = ''debug'' then Level_Debug
      else if to_lower level = ''warn'' then Level_Warn
      else if to_lower level = ''error'' then Level_Error
      else Level_Info)"

definition configure_logging :: "daemon \<Rightarrow> slog_level \<times> daemon" where
  "configure_logging d =
     (slog_level_of (deref_str (cfg_ptr (dm_config d) ''LogLevel'')), d\<lparr>dm_redactor := Some []\<rparr>)"

text \<open>
  Whatever the configuration says, errors are logged; debug output is written only when asked for by name, and
  a stricter level never logs more.
\<close>

lemma errors_logged: "log_enabled (slog_level_of s) Level_Error"
  by (simp add: log_enabled_def slog_level_of_def less_eq_slog_level_def)

lemma debug_logged: "log_enabled (slog_level_of s) Level_Debug \<longleftrightarrow> to_lower s = ''debug''"
  by (simp add: log_enabled_def slog_level_of_def less_eq_slog_level_def)

lemma stricter_logs_less: "slog_level_of s \<le> slog_level_of t \<Longrightarrow> log_enabled (slog_level_of t) l \<Longrightarrow> log_enabled (slog_level_of s) l"
  by (simp add: log_enabled_def)

definition shutdown_timeout :: "strct \<Rightarrow> int" where
  "shutdown_timeout c =
     (let s = deref_str (cfg_ptr c ''ShutdownTimeout'') in
      if s = [] then default_shutdown_timeout
      else case parse_duration s of None \<Rightarrow> default_shutdown_timeout | Some t \<Rightarrow> t)"

section \<open>Starting\<close>

text \<open>Plugins, the dispatcher, the saved state and the app folder; what fails here is only logged.\<close>

definition discover_plugins :: "run_env \<Rightarrow> daemon \<Rightarrow> daemon" where
  "discover_plugins re d =
     (let ps = (if dm_plugins d = [] then rn_discovered re else dm_plugins d)
      in d\<lparr>dm_plugins := ps, dm_exec := Some (dm_config d, ps)\<rparr>)"

definition prepare :: "run_env \<Rightarrow> daemon \<Rightarrow> daemon" where
  "prepare re d =
     (let w = rn_world re; d1 = discover_plugins re d;
          d2 = (if dm_state_path d1 = [] then d1
                else snd (load_state w (d1\<lparr>dm_disk := snd (af_recover (wd_os w) (dm_state_path d1) (dm_disk d1))\<rparr>)))
      in scan_app_folder w (rn_app_dir re) d2)"

definition persist_launch :: "world \<Rightarrow> daemon \<Rightarrow> daemon" where
  "persist_launch w d = (if dm_state_path d \<noteq> [] \<and> dm_launch d \<noteq> None then snd (save_state w d) else d)"

definition start_engine :: "world \<Rightarrow> string \<Rightarrow> daemon \<Rightarrow> daemon" where
  "start_engine w socket d =
     activate_registered w (d\<lparr>dm_router := Some new_router, dm_engine := Some new_engine,
       dm_run := (socket, shutdown_timeout (dm_config d), deref_str (cfg_ptr (dm_config d) ''LogLevel''), dm_plugins d)\<rparr>)"

text \<open>The deferred calls: \<open>clean_up\<close> of the state and the PID file, \<open>stop_engine\<close> before it.\<close>

definition clean_up :: "run_env \<Rightarrow> daemon \<Rightarrow> dir \<Rightarrow> daemon \<times> dir" where
  "clean_up re d dir =
     (if dm_state_path d = [] then d else snd (save_state (rn_world re) d),
      snd (remove_pid (wd_os (rn_world re)) (rn_pid_path re) dir))"

definition stop_engine :: "daemon \<Rightarrow> daemon" where
  "stop_engine d =
     (case dm_engine d of
        None \<Rightarrow> d
      | Some e \<Rightarrow> d\<lparr>dm_engine := Some (stop_all e),
          dm_router := map_option (\<lambda>r. foldl (\<lambda>r tid. router_deregister tid r) r (amap_keys (en_active e))) (dm_router d)\<rparr>)"

text \<open>
  Starting gives the error with which \<open>Run\<close> returns, or nothing once it serves; \<open>dir\<close> is the directory
  of the PID file and \<open>ns\<close> what stands at the addresses. When the server cannot be made, the PID file is removed, twice.
\<close>

definition socket_address :: "run_env \<Rightarrow> string \<Rightarrow> string result" where
  "socket_address re socket = (if socket = [] then rn_default_socket re else Inr socket)"

definition run_start :: "run_env \<Rightarrow> string \<Rightarrow> daemon \<Rightarrow> dir \<Rightarrow> nodes \<Rightarrow> string option \<times> daemon \<times> dir \<times> nodes" where
  "run_start re socket d dir ns =
     (let w = rn_world re; d0 = snd (configure_logging d) in
      case socket_address re socket of
        Inl e \<Rightarrow> (Some e, d0, dir, ns)
      | Inr sock \<Rightarrow>
          let d1 = prepare re d0 in
          (case write_pid (wd_os w) (rn_pid_path re) (rn_tmp re) (rn_pid re) dir of
             (Some e, dir1) \<Rightarrow> (Some e, d1, dir1, ns)
           | (None, dir1) \<Rightarrow>
               let d2 = persist_launch w d1 in
               (case new_server (rn_net re) (rn_pid re) sock ns of
                  (Some e, ns1) \<Rightarrow>
                    (case clean_up re d2 (snd (remove_pid (wd_os w) (rn_pid_path re) dir1)) of (d3, dir2) \<Rightarrow> (Some e, d3, dir2, ns1))
                | (None, ns1) \<Rightarrow> (None, start_engine w sock d2, dir1, ns1))))"

section \<open>The whole run\<close>

text \<open>
  \<open>ops\<close> are the requests, events and driver exits until the end, \<open>late\<close> those requests that finish while the
  server stops; \<open>reason\<close> is the server's error, if that is what ended the run, and nothing for a
  signal or a call of \<open>Shutdown\<close>.
\<close>

definition run_daemon :: "run_env \<Rightarrow> string \<Rightarrow> (world \<times> rpc_op) list \<Rightarrow> (world \<times> rpc_op) list \<Rightarrow> string option \<Rightarrow> daemon \<Rightarrow> dir \<Rightarrow> nodes \<Rightarrow>
    string option \<times> daemon \<times> dir \<times> nodes" where
  "run_daemon re socket ops late reason d dir ns =
     (case run_start re socket d dir ns of
        (Some e, d1, dir1, ns1) \<Rightarrow> (Some e, d1, dir1, ns1)
      | (None, d1, dir1, ns1) \<Rightarrow>
          (case clean_up re (foldl rpc_step (stop_engine (foldl rpc_step d1 ops)) late) dir1 of (d2, dir2) \<Rightarrow>
             (reason, d2, dir2, (case socket_address re socket of Inl _ \<Rightarrow> ns1 | Inr sock \<Rightarrow> stop_server (rn_net re) sock ns1))))"

section \<open>What a run leaves behind\<close>

lemma save_disk:
  assumes "wd_os w = os_fine" "dm_state_path d \<noteq> []" "wd_marshal w (build_state d) = Inr data"
  shows "map_of (dm_disk (snd (save_state w d))) (path_base (dm_state_path d)) = Some (data @ [CHR 0x0A])"
  using assms by (simp add: save_state_def state_save_def af_write_fine rename_lookup)

lemma save_build [simp]:
  "build_state (snd (save_state w d)) = build_state d" "dm_state_path (snd (save_state w d)) = dm_state_path d"
  by (simp_all add: save_state_def build_state_def split: prod.splits)

lemma discover_plugins_keeps [simp]:
  "dm_state_path (discover_plugins re d) = dm_state_path d" "dm_disk (discover_plugins re d) = dm_disk d"
  "dm_registry (discover_plugins re d) = dm_registry d" "dm_launch (discover_plugins re d) = dm_launch d"
  by (simp_all add: discover_plugins_def Let_def)

lemma write_pid_files:
  "write_pid env path tmp pid dir = (r, dir1) \<Longrightarrow>
    (r = None \<or> dir1 = dir) \<and> (name = path_base path \<or> name = tmp \<or> map_of dir1 name = map_of dir name)"
  by (auto simp: write_pid_def rename_lookup update_conv' split: option.splits prod.splits if_splits)

lemma clean_up_files:
  "(os_stuck (wd_os (rn_world re)) (path_base (rn_pid_path re)) \<or> map_of (snd (clean_up re d dir)) (path_base (rn_pid_path re)) = None) \<and>
   (name = path_base (rn_pid_path re) \<or> map_of (snd (clean_up re d dir)) name = map_of dir name)"
  by (auto simp: clean_up_def remove_pid_def delete_conv')

lemma remove_pid_other: "name = path_base path \<or> map_of (snd (remove_pid env path dir)) name = map_of dir name"
  by (auto simp: remove_pid_def delete_conv')

lemma new_server_cases:
  "nt_denied nt sock = Some e \<Longrightarrow> \<exists>e'. new_server nt pid sock ns = (Some e', ns)"
  "new_server nt pid sock ns = (r, ns1) \<Longrightarrow> a \<noteq> sock \<Longrightarrow> map_of ns1 a = map_of ns a"
  "new_server nt pid sock ns = (Some e, ns1) \<Longrightarrow> nt_denied nt sock = None \<Longrightarrow> map_of ns1 sock = None"
  using new_server_other [of a sock nt pid ns] new_server_outcome [where nt = nt and pid = pid and addr = sock and ns = ns]
  by (auto simp: new_server_def cleanup_listener_def)

text \<open>The files of a run: the PID file's directory, and the socket.\<close>

lemma run_files:
  assumes "run_daemon re socket ops late reason d dir ns = (err, d', dir', ns')" "socket_address re socket = Inr sock"
    and "write_pid (wd_os (rn_world re)) (rn_pid_path re) (rn_tmp re) (rn_pid re) dir = (None, dir1)"
  shows "\<exists>d2 dir2. dir' = snd (clean_up re d2 dir2) \<and>
      (dir2 = dir1 \<or> dir2 = snd (remove_pid (wd_os (rn_world re)) (rn_pid_path re) dir1)) \<and>
      (case new_server (rn_net re) (rn_pid re) sock ns of
         (None, ns1) \<Rightarrow> ns' = stop_server (rn_net re) sock ns1
       | (Some _, ns1) \<Rightarrow> ns' = ns1)"
  using assms by (auto simp: run_daemon_def run_start_def Let_def split: prod.splits option.splits) (metis snd_conv)+



section \<open>What a start can lose\<close>

text \<open>
  A start that restores nothing writes that down. If the state file does not parse, or none of its
  recurfiles can be loaded at the moment, the registrations are gone from the file before the daemon serves.
\<close>

lemma failed_restore_is_saved:
  assumes "wd_os (rn_world re) = os_fine" "rn_app_dir re = Inl e" "dm_registry d = new_registry" "dm_launch d = Some la"
    and "dm_state_path d \<noteq> []" "wd_marshal (rn_world re) \<lparr>sj_launch = Some la, sj_recurfiles = []\<rparr> = Inr data"
    and "case state_load (wd_unmarshal (rn_world re))
        (Inr (map_of (snd (af_recover os_fine (dm_state_path d) (dm_disk d))) (path_base (dm_state_path d)))) of
      Inl _ \<Rightarrow> True | Inr f \<Rightarrow> list_all (\<lambda>s. \<exists>e. load_file (rn_world re) (rj_path s) = Inl e) (sj_recurfiles f)"
  shows "map_of (dm_disk (persist_launch (rn_world re) (prepare re d))) (path_base (dm_state_path d)) = Some (data @ [CHR 0x0A])"
proof -
  have skip: "list_all (\<lambda>s. \<exists>e. load_file (rn_world re) (rj_path s) = Inl e) ss \<Longrightarrow> foldl (load_one (rn_world re)) d1 ss = d1" for ss d1
    by (induction ss) (auto simp: load_one_def)
  have "prepare re d = (discover_plugins re d)\<lparr>dm_disk := snd (af_recover os_fine (dm_state_path d) (dm_disk d))\<rparr>"
    using assms(1,2,5,7) by (auto simp: prepare_def Let_def scan_app_folder_def load_state_def skip split: sum.splits)
  then have k: "dm_registry (prepare re d) = new_registry" "dm_launch (prepare re d) = Some la" "dm_state_path (prepare re d) = dm_state_path d"
    using assms(3,4) by simp_all
  then have "build_state (prepare re d) = \<lparr>sj_launch = Some la, sj_recurfiles = []\<rparr>"
    by (simp add: build_state_def snapshot_def new_registry_def amap_vals_def)
  with k assms(5,6) save_disk [OF assms(1), of "prepare re d" data] show ?thesis by (simp add: persist_launch_def)
qed

text \<open>
  So a crash in the middle of saving loses everything: the torn temporary file is promoted over the
  intact state file, does not parse, and is replaced by a state without recurfiles.
\<close>

lemma torn_save_loses_all:
  assumes "wd_os (rn_world re) = os_fine" "rn_app_dir re = Inl e" "dm_registry d = new_registry" "dm_launch d = Some la"
    and "dm_state_path d \<noteq> []" "wd_marshal (rn_world re) \<lparr>sj_launch = Some la, sj_recurfiles = []\<rparr> = Inr data"
    and "amap_ok disk" "temp_files (dm_state_path d) disk = []"
    and "dm_disk d = AList.update (temp_name (dm_state_path d) ts) (take n new) disk"
    and "wd_unmarshal (rn_world re) (take n new) = Inl err"
  shows "map_of (dm_disk (persist_launch (rn_world re) (prepare re d))) (path_base (dm_state_path d)) = Some (data @ [CHR 0x0A])"
proof (rule failed_restore_is_saved [OF assms(1-6)])
  have fine: "os_rename os_fine = None" by (simp add: os_fine_def)
  have "map_of (snd (af_recover os_fine (dm_state_path d) (dm_disk d))) (path_base (dm_state_path d)) = Some (take n new)"
    using recover_promotes [OF assms(7,8), where env = os_fine and ts = ts and n = n and data = new and name = "[]"] assms(9) fine
    by (cases "af_recover os_fine (dm_state_path d) (dm_disk d)") (auto simp: Let_def split: option.splits)
  then show "case state_load (wd_unmarshal (rn_world re))
        (Inr (map_of (snd (af_recover os_fine (dm_state_path d) (dm_disk d))) (path_base (dm_state_path d)))) of
      Inl _ \<Rightarrow> True | Inr f \<Rightarrow> list_all (\<lambda>s. \<exists>e. load_file (rn_world re) (rj_path s) = Inl e) (sj_recurfiles f)"
    by (simp add: state_load_def assms(10))
qed

text \<open>
  \<open>Run\<close> does not ask whether a daemon runs. A second one writes its own PID file over the first one's, and
  when it cannot make its server it removes the file: the first daemon runs on, but is not found.
\<close>

lemma second_daemon_hides_first:
  assumes "wd_os (rn_world re) = os_fine" "socket \<noteq> []" "new_server (rn_net re) (rn_pid re) socket ns = (Some e, ns')" "rn_tmp re \<noteq> path_base (rn_pid_path re)"
    and "is_running alive (rn_pid_path re) dir = (True, pid, None)"
  shows "fst (run_start re socket d dir ns) = Some e \<and>
    is_running alive (rn_pid_path re) (fst (snd (snd (run_start re socket d dir ns)))) = (False, 0, None)"
  using assms(1-4)
  by (simp add: run_start_def socket_address_def Let_def write_pid_def os_fine_def clean_up_def remove_pid_def is_running_def read_pid_def delete_conv' split_beta)

text \<open>
  When it can make its server, the two share the address: the second has it, and when the first
  stops, it removes the socket of the second, which then runs on without being reached.
\<close>

lemma first_daemon_unlinks_second:
  assumes "fst (run_start re socket d dir ns) = None" "socket \<noteq> []"
  shows "map_of (snd (snd (snd (run_start re socket d dir ns)))) socket = Some (Some (rn_pid re)) \<and>
    map_of (stop_server (rn_net re) socket (snd (snd (snd (run_start re socket d dir ns))))) socket = None"
proof -
  obtain r ns1 where n: "new_server (rn_net re) (rn_pid re) socket ns = (r, ns1)" by fastforce
  with assms have "r = None" "snd (snd (snd (run_start re socket d dir ns))) = ns1"
    by (auto simp: run_start_def socket_address_def Let_def split: prod.splits option.splits)
  with n new_server_outcome [where nt = "rn_net re" and pid = "rn_pid re" and addr = socket and ns = ns] stop_server_clears [of "rn_net re" socket]
  show ?thesis by simp
qed

section \<open>Witnesses\<close>

text \<open>A machine on which all goes well, and a daemon with one registered recurfile.\<close>

definition run_daemon_sample :: daemon where
  "run_daemon_sample = sample_daemon\<lparr>dm_registry := sample_reg, dm_state_path := ''/s/state.json''\<rparr>"

definition run_sample :: run_env where
  "run_sample = \<lparr>rn_world = (sample_world 0)\<lparr>wd_unmarshal := (\<lambda>_. Inr (build_state run_daemon_sample))\<rparr>, rn_discovered = [],
     rn_default_socket = Inr ''/s'', rn_app_dir = Inl [], rn_pid_path = ''/run/recur.pid'', rn_pid = 7, rn_tmp = ''t'', rn_net = \<lparr>nt_denied = (\<lambda>_. None), nt_bind = (\<lambda>_. None)\<rparr>\<rparr>"

lemma activate_registered_keeps [simp]:
  "dm_registry (activate_registered w d) = dm_registry d" "dm_launch (activate_registered w d) = dm_launch d"
  "dm_state_path (activate_registered w d) = dm_state_path d" "dm_disk (activate_registered w d) = dm_disk d"
proof -
  let ?f = "\<lambda>d t. if tr_status t = st_active then snd (engine_activate w t d) else d"
  have "dm_registry (foldl ?f d ts) = dm_registry d \<and> dm_launch (foldl ?f d ts) = dm_launch d \<and>
      dm_state_path (foldl ?f d ts) = dm_state_path d \<and> dm_disk (foldl ?f d ts) = dm_disk d" for ts
    by (induction ts arbitrary: d) (simp_all add: engine_activate_def Let_def split: option.split prod.split)
  then show "dm_registry (activate_registered w d) = dm_registry d" "dm_launch (activate_registered w d) = dm_launch d"
    "dm_state_path (activate_registered w d) = dm_state_path d" "dm_disk (activate_registered w d) = dm_disk d"
    unfolding activate_registered_def by blast+
qed

lemma stop_engine_keeps [simp]:
  "dm_registry (stop_engine d) = dm_registry d" "dm_launch (stop_engine d) = dm_launch d"
  "dm_state_path (stop_engine d) = dm_state_path d" "dm_disk (stop_engine d) = dm_disk d"
  by (simp_all add: stop_engine_def split: option.split)


end
