(* ===== verification/Spec2Isabelle.thy ===== *)
theory Spec2Isabelle
  imports Config_Keys Map_Store Sha256 Go_Time Recurfile_Domain Recurfile_Merge Yaml_Parse
    Plugins Engine_Lookup Atomic_File Cli_Props Daemon_Run
begin

text \<open>
  A model of recur, an event-driven automation daemon: \<open>recurd\<close> watches for triggers (a timer, a
  changed file, whatever a plugin reports) and runs the actions that a \<^emph>\<open>recurfile\<close> ties to
  them; \<open>recur\<close> is its command line. Paths below are relative to \<open>src/src\<close>, \<open>pkg\<close> to \<open>src\<close>.

  \<^bold>\<open>How the program hangs together.\<close> A recurfile is parsed (\<open>infra/yaml/recurfile\<close>), its aliases and
  inheritance are resolved (\<open>domain/recurfile\<close>), and it is registered: the registry
  (\<open>app/recurd/daemon/registry.go\<close>) gives every entity an identifier and settings, and indexes them.
  The engine (\<open>app/recurd/triggerengine\<close>) runs a driver for each active trigger; a driver is a plugin
  process, or a channel on which the service delivers what a plugin reports. An event goes through the engine's
  concurrency mode to the daemon's executor (\<open>daemon.go\<close>, \<open>action.go\<close>), which looks up the actions in
  the registry, resolves their templates and secrets and runs a shell or a plugin. The service
  (\<open>api.go\<close>) offers all this to the command line (\<open>app/recur/cli\<close>).
  Settings come from layers: defaults, plugin manifest, daemon configuration, group, trigger (\<open>pkg/config\<close>).

  \<^bold>\<open>Theories, in the order of their imports.\<close>
  \<^item> \<open>Prelude\<close>: error results, Go maps as association lists, collections of rewrite rules. \<open>Machines\<close>: the
    contracts \<open>machine\<close> and \<open>refining_machine\<close> of a component with a guard and an invariant, which the
    entity index, the registry, the event router and the service meet and get their histories from.
    \<open>Go_Strings\<close>, \<open>Go_Paths\<close>, \<open>Go_Runes\<close>, \<open>Go_Values\<close>, \<open>Go_Time\<close>, \<open>Sha256\<close>, \<open>Path_Facts\<close>: what the
    sources use of Go's library, executable.
  \<^item> \<open>Overlay\<close>, \<open>Layered_Store\<close>, \<open>Map_Store\<close>, \<open>Config_Store\<close>, \<open>Config_Keys\<close>: \<open>pkg/config\<close>,
    \<open>domain/config\<close>, \<open>infra/yaml/config\<close>. \<open>Layered_Store\<close> is the contract of both stores: a layer set
    is the layer got, the effective value is that of the set layers whatever is cached.
  \<^item> \<open>Recurfile_Domain\<close>, \<open>Recurfile_Merge\<close>, \<open>Yaml_Parse\<close>, \<open>Stub\<close>: recurfiles. \<open>Recurfile_Merge\<close> keeps
    the arrays under Go's slices, since \<open>append\<close> writes through them.
  \<^item> \<open>Plugins\<close>: manifests, discovery and lookups. \<open>Secrets\<close>: resolvers and the log redactor.
  \<^item> \<open>Entities\<close>, \<open>Entity_Index\<close>, \<open>Registry\<close> with \<open>Registry_Facts\<close>, \<open>Registry_Ok\<close>, \<open>Registry_Props\<close>: the
    registry, its invariant \<open>reg_inv\<close> and what it promises its callers. The index deletes lazily;
    it is shown to refine a plain collection of references.
  \<^item> \<open>Engine\<close> with \<open>Engine_Facts\<close>, \<open>Engine_Abort\<close>, \<open>Engine_Lookup\<close>: the trigger engine and the event
    router; \<open>External\<close>: the drivers of plugin processes.
  \<^item> \<open>Executor\<close>, \<open>Executor_Props\<close>: templates, subprocess requests, shell and plugin actions.
  \<^item> \<open>Atomic_File\<close>, \<open>Archive\<close>, \<open>Archive_Props\<close>: crash-safe files, the PID file, bundles, archives.
    \<open>Urls\<close>: \<open>net/url\<close> as far as the sources of bundles need it, and the download.
    \<open>Platform\<close>: the directories of an installation, live processes, versions, and the daemon's socket
    (\<open>infra/grpc/server\<close>), whose addresses are part of the state of a run.
  \<^item> \<open>Daemon\<close>, \<open>Daemon_Props\<close>: the daemon, its callbacks, saved state and app folder.
  \<^item> \<open>Service\<close>, \<open>Service_Props\<close>: every handler of \<open>api.go\<close>. \<open>Daemon_Run\<close>: \<open>Daemon.Run\<close> from start to end.
  \<^item> \<open>Suggest\<close>, \<open>Display\<close>, \<open>Cli\<close>, \<open>Cli_Files\<close>, \<open>Cli_Apps\<close>, \<open>Cli_Daemon\<close>, \<open>Cli_Props\<close>: the command
    line. A command gives its error, what it writes and the daemon after it; output is a list
    of lines and JSON documents.
  \<^item> \<open>Sample_Ids\<close>: the identifiers of a small recurfile, on which witnesses are built.

  \<^bold>\<open>State and steps.\<close> A Go function is a HOL function that takes the state and returns it changed;
  an error return is \<open>Inl\<close>, a Go map an association list whose order is that of a \<open>range\<close> loop.
  Methods that hold a mutex for their whole body are one step. The engine is the exception: its
  goroutines (dispatch loops, timers, workers, dispatchers that wait for an aborted worker) are
  interleaved by the relation \<open>engine_step\<close>, between the points where they can block. A handler of the service
  is one step on the daemon; requests are interleaved with each other, with events and with driver
  exits, but not inside a handler.

  \<^bold>\<open>What is shown.\<close> The registry stays consistent over any history, and registration and
  deregistration undo each other; registry, engine and router agree over any sequence of requests
  (\<open>Service_Props\<close>), so a suspended trigger is silent, a resumed one receives, an uninstalled plugin is
  disarmed. The next run takes up the recurfiles of the last, and a run leaves neither its PID file nor its socket. In each
  exclusive mode the engine runs one worker, in order, with a bounded queue that drains.
  Settings follow their precedence; configuration keys read back what was set; secrets do not reach
  the log's strings or a plugin's environment; a file is written whole or not at all; an archive
  writes only below its destination and a packed app unpacks to itself. For the command line: \<open>add\<close> never
  leaves a recurfile that does not parse, \<open>restart\<close> brings back the same daemon, \<open>stop\<close> returns,
  exit codes mean what they say, an app touches no other app, what surrounds the host in a URL cannot
  get around \<open>allowed_hosts\<close>, and suggestions rest on the least edit distance. Lemmas under headings such as \<open>What the commands get wrong\<close> record where the code does
  not do what it means to, each with the run that shows it.

  \<^bold>\<open>Parameters, bounds, fuel.\<close> The YAML and JSON libraries, \<open>text/template\<close> beyond plain fields and the
  \<open>secret\<close> function, archive formats, the HTTP client, hosts in brackets in a URL, the editor, \<open>%v\<close> of floats, and the operating
  system's answers are arguments (records \<open>world\<close>, \<open>io_env\<close>, \<open>os_env\<close>, \<open>http_env\<close>, \<open>host_env\<close>, \<open>net_env\<close>, \<open>cli_env\<close>, \<open>process_env\<close>), so the
  properties hold for every behaviour of theirs but for the documented one named in a hypothesis.
  \<open>grow\<close>, the capacity that \<open>append\<close> picks, is one too. Case mapping and white space are those of
  ASCII. Times are Unix seconds, durations nanoseconds; counts in messages wrap to 32 bits. No definition
  uses fuel: loops recurse on their data, and \<open>wait_loop\<close> of \<open>stop\<close> on the time to the deadline.

  \<^bold>\<open>Not modelled.\<close> Generated gRPC code (a call is the handler applied to its request, or a
  failure before it); cobra's flag parsing and command tree (\<open>root.go\<close>, \<open>dial.go\<close>); tables
  and colours; what log lines say; process attributes; the JSON text written to a plugin's standard input; the plugin
  SDK, other names for the client that plugin authors import; the Windows variants. They are pure
  I/O, wiring or generated, with no logic of recur's own.
\<close>

end
